(* ===== verification/Prelude.thy ===== *)
theory Prelude
  imports Complex_Main "HOL-Library.Word"
begin

text \<open>
  Shared vocabulary of the development.

  \<^item> the machine integer types of \<^verbatim>\<open>src/src/types.h\<close> and the C++ exceptions of
    \<^verbatim>\<open>src/src/errors.cpp\<close>;
  \<^item> \<open>outcome\<close>, the result type of every fallible operation: a value, a C++ exception, or
    undefined behaviour (popping an empty vector, using a dangling reference);
  \<^item> \<open>std::find_if\<close>, \<open>std::remove_if\<close>, \<open>std::map::at\<close> and the decimal
    formatting of \<open>fmt::format("{}", n)\<close>, which the components share.
\<close>

section \<open>Types of src/types.h\<close>

type_synonym u8 = "8 word"
type_synonym u16 = "16 word"
type_synonym u32 = "32 word"
type_synonym u64 = "64 word"
type_synonym addr_t = "32 word"
type_synonym vecu8 = "u8 list"

text \<open>\<open>std::chrono::duration<double>\<close> counts seconds; the model uses exact rationals.\<close>

type_synonym duration_t = rat

text \<open>
  The union \<open>X86Regs\<close> in the order in which \<open>pushad; pushfd\<close> leave the registers in
  memory (index 0 is the lowest address).
\<close>

record X86Regs =
  eflags :: u32
  edi :: u32
  esi :: u32
  ebp :: u32
  esp :: u32
  ebx :: u32
  edx :: u32
  ecx :: u32
  eax :: u32

section \<open>Exceptions and outcomes\<close>

datatype exn_kind =
    RuntimeError | OutOfRange | GeneralError | SystemError | TimeoutError
  | ProtocolError | BadFunctionCall

datatype exn = Exn (kind_of: exn_kind) (what: string)

definition runtime_error :: "string \<Rightarrow> exn" where
  "runtime_error m = Exn RuntimeError m"

definition out_of_range :: "string \<Rightarrow> exn" where
  "out_of_range m = Exn OutOfRange m"

text \<open>\<open>general_error\<close> prepends its prefix, \<open>protocol_error\<close> keeps the bare message.\<close>

definition general_error :: "string \<Rightarrow> exn" where
  "general_error m = Exn GeneralError (''General error'' @ '': '' @ m)"

definition protocol_error :: "string \<Rightarrow> exn" where
  "protocol_error m = Exn ProtocolError m"

text \<open>\<open>get_error_message\<close> asks the platform (\<open>strerror\<close>, \<open>FormatMessageA\<close>) for
  the text of a non-zero code; \<open>platform\<close> is that function.\<close>

definition get_error_message :: "(int \<Rightarrow> string) \<Rightarrow> int \<Rightarrow> string" where
  "get_error_message platform code = (if code = 0 then [] else platform code)"

definition system_error :: "(int \<Rightarrow> string) \<Rightarrow> string \<Rightarrow> int \<Rightarrow> exn" where
  "system_error platform m code =
     Exn SystemError (m @ '' '' @ get_error_message platform code)"

definition bad_function_call :: exn where
  "bad_function_call = Exn BadFunctionCall ''bad_function_call''"

datatype 'a outcome = Return 'a | Raise exn | Undefined

fun obind :: "'a outcome \<Rightarrow> ('a \<Rightarrow> 'b outcome) \<Rightarrow> 'b outcome" where
  "obind (Return x) f = f x"
| "obind (Raise e) f = Raise e"
| "obind Undefined f = Undefined"

fun defined :: "'a outcome \<Rightarrow> bool" where
  "defined Undefined = False"
| "defined _ = True"

text \<open>Facts that compute the operations of a component.\<close>

named_theorems model_defs \<open>definitions the component proofs unfold\<close>
named_theorems frame \<open>fields an operation leaves unchanged\<close>

lemma obind_Return_iff [simp]:
  "obind m f = Return y \<longleftrightarrow> (\<exists>x. m = Return x \<and> f x = Return y)"
  by (cases m) auto

lemma obind_assoc: "obind (obind m f) g = obind m (\<lambda>x. obind (f x) g)"
  by (cases m) auto

lemma obind_Return_right [simp]: "obind m Return = m"
  by (cases m) auto

lemma obind_split:
  "P (obind m f) \<longleftrightarrow>
     (\<forall>x. m = Return x \<longrightarrow> P (f x)) \<and> (\<forall>e. m = Raise e \<longrightarrow> P (Raise e))
     \<and> (m = Undefined \<longrightarrow> P Undefined)"
  by (cases m) auto

text \<open>A fallible function applied to the elements of a list, from left to right.\<close>

fun omap :: "('a \<Rightarrow> 'b outcome) \<Rightarrow> 'a list \<Rightarrow> 'b list outcome" where
  "omap f [] = Return []"
| "omap f (x # xs) = obind (f x) (\<lambda>y. obind (omap f xs) (\<lambda>ys. Return (y # ys)))"

lemma omap_Return: "\<forall>x \<in> set xs. f x = Return (g x) \<Longrightarrow> omap f xs = Return (map g xs)"
  by (induction xs) simp_all

lemma omap_length: "omap f xs = Return ys \<Longrightarrow> length ys = length xs"
  by (induction xs arbitrary: ys) auto

text \<open>Fallible operations on a state: the state is kept when an exception is raised.\<close>

definition sbind ::
  "'s \<times> 'a outcome \<Rightarrow> ('a \<Rightarrow> 's \<Rightarrow> 's \<times> 'b outcome) \<Rightarrow> 's \<times> 'b outcome"
where
  "sbind m f = (case m of (s, Return x) \<Rightarrow> f x s | (s, Raise e) \<Rightarrow> (s, Raise e) | (s, Undefined) \<Rightarrow> (s, Undefined))"

lemma sbind_simps [simp]:
  "sbind (s, Return x) f = f x s"
  "sbind (s, Raise e) f = (s, Raise e)"
  "sbind (s, Undefined) f = (s, Undefined)"
  by (simp_all add: sbind_def)

lemma sbind_Return_iff:
  "sbind m f = (s', Return y) \<longleftrightarrow> (\<exists>s x. m = (s, Return x) \<and> f x s = (s', Return y))"
  by (cases m, cases "snd m") (auto simp: sbind_def split: outcome.splits)

section \<open>Library functions the source uses\<close>

text \<open>\<open>std::find_if\<close> over a sequence, as the first matching element.\<close>

fun find_if :: "('a \<Rightarrow> bool) \<Rightarrow> 'a list \<Rightarrow> 'a option" where
  "find_if p [] = None"
| "find_if p (x # xs) = (if p x then Some x else find_if p xs)"

text \<open>Erase the first element that satisfies a predicate (\<open>erase(find_if(...))\<close>).\<close>

fun erase_first :: "('a \<Rightarrow> bool) \<Rightarrow> 'a list \<Rightarrow> 'a list" where
  "erase_first p [] = []"
| "erase_first p (x # xs) = (if p x then xs else x # erase_first p xs)"

lemma find_if_None_iff: "find_if p xs = None \<longleftrightarrow> (\<forall>x \<in> set xs. \<not> p x)"
  by (induction xs) auto

lemma find_if_Some_D: "find_if p xs = Some x \<Longrightarrow> p x \<and> x \<in> set xs"
  by (induction xs) (auto split: if_splits)

lemma find_if_Some_iff:
  "find_if p xs = Some x \<longleftrightarrow>
     (\<exists>ys zs. xs = ys @ x # zs \<and> p x \<and> (\<forall>y \<in> set ys. \<not> p y))"
proof (induction xs)
  case Nil
  then show ?case by simp
next
  case (Cons a xs)
  show ?case
  proof (cases "p a")
    case True
    then have "(\<exists>ys zs. a # xs = ys @ x # zs \<and> p x \<and> (\<forall>y \<in> set ys. \<not> p y)) \<longleftrightarrow> a = x"
      by (auto simp: Cons_eq_append_conv)
    with True show ?thesis by simp
  next
    case False
    then have "(\<exists>ys zs. a # xs = ys @ x # zs \<and> p x \<and> (\<forall>y \<in> set ys. \<not> p y)) \<longleftrightarrow>
        (\<exists>ys zs. xs = ys @ x # zs \<and> p x \<and> (\<forall>y \<in> set ys. \<not> p y))"
      by (auto simp: Cons_eq_append_conv) (metis append_Cons set_ConsD)
    with False Cons show ?thesis by simp
  qed
qed

lemma length_erase_first:
  "length (erase_first p xs) = (if \<exists>x \<in> set xs. p x then length xs - 1 else length xs)"
proof (induction xs)
  case (Cons a xs)
  then show ?case by (cases xs) auto
qed simp

lemma erase_first_append:
  "\<forall>y \<in> set ys. \<not> p y \<Longrightarrow> p x \<Longrightarrow> erase_first p (ys @ x # zs) = ys @ zs"
  by (induction ys) auto

text \<open>\<open>std::map::at\<close>: the value, or \<open>std::out_of_range\<close>.\<close>

definition map_at :: "('k \<rightharpoonup> 'v) \<Rightarrow> 'k \<Rightarrow> 'v outcome" where
  "map_at m k = (case m k of None \<Rightarrow> Raise (out_of_range ''map::at'') | Some v \<Rightarrow> Return v)"

lemma map_at_Return_iff [simp]: "map_at m k = Return v \<longleftrightarrow> m k = Some v"
  by (simp add: map_at_def split: option.splits)

lemma map_at_Some [simp]: "m k = Some v \<Longrightarrow> map_at m k = Return v"
  by simp

lemma map_at_None: "m k = None \<Longrightarrow> map_at m k = Raise (out_of_range ''map::at'')"
  by (simp add: map_at_def)

lemma map_at_not_Undefined [simp]: "map_at m k \<noteq> Undefined"
  by (simp add: map_at_def split: option.splits)

text \<open>\<open>std::map::try_emplace\<close>: insert unless the key is present.\<close>

definition try_emplace :: "'k \<Rightarrow> 'v \<Rightarrow> ('k \<rightharpoonup> 'v) \<Rightarrow> ('k \<rightharpoonup> 'v)" where
  "try_emplace k v m = (if m k = None then m(k \<mapsto> v) else m)"

lemma dom_try_emplace: "dom (try_emplace k v m) = insert k (dom m)"
  by (auto simp: try_emplace_def)

text \<open>Decimal printing of an unsigned number, as \<open>fmt\<close> and \<open>std::to_string\<close> do.\<close>

definition digit_char :: "nat \<Rightarrow> char" where
  "digit_char d = char_of (48 + d)"

fun show_nat :: "nat \<Rightarrow> string" where
  "show_nat n = (if n < 10 then [digit_char n] else show_nat (n div 10) @ [digit_char (n mod 10)])"

declare show_nat.simps [simp del]

definition show_int :: "int \<Rightarrow> string" where
  "show_int i = (if i < 0 then ''-'' @ show_nat (nat (- i)) else show_nat (nat i))"

section \<open>Lists\<close>

lemma fold_snoc [simp]: "fold (\<lambda>x xs. xs @ [x]) ys zs = zs @ ys"
  by (induction ys arbitrary: zs) auto

lemma drop_append_snoc:
  "length xs \<ge> m \<Longrightarrow> m > 0 \<Longrightarrow>
     drop (Suc (length xs) - m) (xs @ [x]) = tl (drop (length xs - m) xs) @ [x]"
  by (simp add: Suc_diff_le drop_Suc tl_drop)

end
