(* ===== verification/Ring_Buffer.thy ===== *)
theory Ring_Buffer
  imports Prelude
begin

text \<open>
  \<^verbatim>\<open>src/src/ring_buffer.hpp\<close>: a vector with a maximum size. \<open>emplace\<close> drops the oldest
  element (the vector's begin) when the buffer is full; \<open>front\<close> and \<open>pop\<close> work on the
  vector's back, so the container is a stack with bounded history. The vector operations
  that C++ leaves undefined on an empty vector are \<open>Undefined\<close>.
\<close>

record 'a ring_buffer =
  rb_q :: "'a list"
  rb_max :: nat

text \<open>The constructor; the default argument is \<open>-1u\<close>.\<close>

definition rb_default_size :: nat where
  "rb_default_size = 2 ^ 32 - 1"

definition rb_new :: "nat \<Rightarrow> 'a ring_buffer" where
  "rb_new max_size = \<lparr>rb_q = [], rb_max = max_size\<rparr>"

definition rb_size :: "'a ring_buffer \<Rightarrow> nat" where
  "rb_size rb = length (rb_q rb)"

definition rb_emplace :: "'a \<Rightarrow> 'a ring_buffer \<Rightarrow> 'a ring_buffer outcome" where
  "rb_emplace t rb =
     (if rb_size rb \<ge> rb_max rb
      then (case rb_q rb of
              [] \<Rightarrow> Undefined
            | _ # rest \<Rightarrow> Return (rb\<lparr>rb_q := rest @ [t]\<rparr>))
      else Return (rb\<lparr>rb_q := rb_q rb @ [t]\<rparr>))"

definition rb_push :: "'a \<Rightarrow> 'a ring_buffer \<Rightarrow> 'a ring_buffer outcome" where
  "rb_push t rb = rb_emplace t rb"

definition rb_pop :: "'a ring_buffer \<Rightarrow> 'a ring_buffer outcome" where
  "rb_pop rb = (if rb_q rb = [] then Undefined else Return (rb\<lparr>rb_q := butlast (rb_q rb)\<rparr>))"

definition rb_front :: "'a ring_buffer \<Rightarrow> 'a outcome" where
  "rb_front rb = (if rb_q rb = [] then Undefined else Return (last (rb_q rb)))"

text \<open>Well-formedness: a positive capacity that is never exceeded.\<close>

definition rb_wf :: "'a ring_buffer \<Rightarrow> bool" where
  "rb_wf rb \<longleftrightarrow> 0 < rb_max rb \<and> length (rb_q rb) \<le> rb_max rb"

lemmas rb_defs [model_defs] =
  rb_new_def rb_size_def rb_emplace_def rb_push_def rb_pop_def rb_front_def rb_wf_def

text \<open>Pushing a sequence of elements.\<close>

fun rb_push_all :: "'a list \<Rightarrow> 'a ring_buffer \<Rightarrow> 'a ring_buffer outcome" where
  "rb_push_all [] rb = Return rb"
| "rb_push_all (x # xs) rb = obind (rb_push x rb) (rb_push_all xs)"

subsection \<open>Lemmas\<close>

lemma rb_wf_new: "0 < m \<Longrightarrow> rb_wf (rb_new m)"
  by (simp add: rb_defs)

lemma rb_emplace_wf_Return:
  assumes "rb_wf rb"
  shows "\<exists>rb'. rb_emplace x rb = Return rb' \<and> rb_wf rb' \<and> rb_max rb' = rb_max rb
    \<and> rb_q rb' = drop (Suc (length (rb_q rb)) - rb_max rb) (rb_q rb @ [x])"
proof (cases "rb_max rb \<le> length (rb_q rb)")
  case True
  with assms obtain y ys where "rb_q rb = y # ys" and "length (rb_q rb) = rb_max rb"
    by (cases "rb_q rb") (auto simp: rb_wf_def)
  then show ?thesis
    using assms by (auto simp: rb_defs)
next
  case False
  then show ?thesis
    using assms by (auto simp: rb_defs)
qed

lemma rb_emplace_room:
  "length (rb_q rb) < rb_max rb \<Longrightarrow> rb_emplace x rb = Return (rb\<lparr>rb_q := rb_q rb @ [x]\<rparr>)"
  by (simp add: rb_defs)

lemma rb_wf_pop: "rb_wf rb \<Longrightarrow> rb_pop rb = Return rb' \<Longrightarrow> rb_wf rb'"
  by (auto simp: rb_defs split: if_splits)

lemma rb_push_all_keeps_latest:
  "rb_wf rb \<Longrightarrow>
     \<exists>rb'. rb_push_all xs rb = Return rb' \<and> rb_wf rb' \<and> rb_max rb' = rb_max rb
       \<and> rb_q rb' = drop (length (rb_q rb @ xs) - rb_max rb) (rb_q rb @ xs)"
proof (induction xs arbitrary: rb)
  case Nil
  then show ?case by (simp add: rb_wf_def)
next
  case (Cons x xs)
  from rb_emplace_wf_Return [OF Cons.prems, of x] obtain rb1 where
    e: "rb_push x rb = Return rb1" and wf: "rb_wf rb1" and m: "rb_max rb1 = rb_max rb"
    and q: "rb_q rb1 = drop (Suc (length (rb_q rb)) - rb_max rb) (rb_q rb @ [x])"
    by (auto simp: rb_push_def)
  from Cons.IH [OF wf] obtain rb2 where
    r: "rb_push_all xs rb1 = Return rb2" "rb_wf rb2" "rb_max rb2 = rb_max rb1"
    and q2: "rb_q rb2 = drop (length (rb_q rb1 @ xs) - rb_max rb1) (rb_q rb1 @ xs)"
    by blast
  let ?d = "Suc (length (rb_q rb)) - rb_max rb"
  have "Suc 0 - rb_max rb = 0" using Cons.prems by (simp add: rb_wf_def)
  then have sp: "rb_q rb1 @ xs = drop ?d (rb_q rb @ x # xs)"
    using q by simp
  have "rb_q rb2 = drop (length (drop ?d (rb_q rb @ x # xs)) - rb_max rb + ?d) (rb_q rb @ x # xs)"
    using q2 m by (simp add: sp del: drop_append)
  moreover have "length (drop ?d (rb_q rb @ x # xs)) - rb_max rb + ?d
      = length (rb_q rb @ x # xs) - rb_max rb"
    using Cons.prems by (clarsimp simp: rb_wf_def) arith
  ultimately show ?case
    using e r m by simp
qed

end
