(* ===== verification/Async_Queue.thy ===== *)
theory Async_Queue
  imports Ring_Buffer
begin

text \<open>
  \<^verbatim>\<open>src/src/async_queue.hpp\<close>: a mutex-protected queue over an underlying container
  \<open>QueueT\<close>, with a blocking \<open>emplace\<close> (bounded queues) and a \<open>pop\<close> that takes several
  elements, filters them by a predicate and puts the rejected ones back.

  The container is a record of its four operations, so that the same code serves
  \<open>std::queue\<close> (a FIFO) and \<open>RingBuffer\<close> (a bounded LIFO). What \<open>pop\<close> and \<open>emplace\<close>
  need of a container is the locale \<open>queue_container\<close>, interpreted for both.

  Waiting on the condition variable releases the mutex, so other threads change the
  queue: a schedule lists the container as it is when each successive wait returns. An
  exhausted schedule means that nothing happened until the timeout.
\<close>

record ('a, 'q) queue_ops =
  qsize :: "'q \<Rightarrow> nat"
  qfront :: "'q \<Rightarrow> 'a outcome"
  qpop :: "'q \<Rightarrow> 'q outcome"
  qemplace :: "'a \<Rightarrow> 'q \<Rightarrow> 'q outcome"

definition rb_ops :: "('a, 'a ring_buffer) queue_ops" where
  "rb_ops = \<lparr>qsize = rb_size, qfront = rb_front, qpop = rb_pop, qemplace = rb_emplace\<rparr>"

text \<open>\<open>std::queue\<close>: elements leave in the order in which they were put.\<close>

definition std_queue_ops :: "('a, 'a list) queue_ops" where
  "std_queue_ops =
     \<lparr>qsize = length,
      qfront = (\<lambda>q. case q of [] \<Rightarrow> Undefined | x # _ \<Rightarrow> Return x),
      qpop = (\<lambda>q. case q of [] \<Rightarrow> Undefined | _ # xs \<Rightarrow> Return xs),
      qemplace = (\<lambda>x q. Return (q @ [x]))\<rparr>"

record 'q async_queue =
  aq_q :: 'q
  aq_max :: nat

definition aq_new :: "'q \<Rightarrow> nat \<Rightarrow> 'q async_queue" where
  "aq_new q max_size = \<lparr>aq_q = q, aq_max = max_size\<rparr>"

definition aq_size :: "('a, 'q) queue_ops \<Rightarrow> 'q async_queue \<Rightarrow> nat" where
  "aq_size ops aq = qsize ops (aq_q aq)"

definition aq_empty :: "('a, 'q) queue_ops \<Rightarrow> 'q async_queue \<Rightarrow> bool" where
  "aq_empty ops aq \<longleftrightarrow> aq_size ops aq = 0"

subsection \<open>emplace\<close>

text \<open>The guard of \<open>emplace\<close>: a bounded queue with no free slot.\<close>

definition aq_full :: "('a, 'q) queue_ops \<Rightarrow> 'q async_queue \<Rightarrow> bool" where
  "aq_full ops aq \<longleftrightarrow> aq_max aq > 0 \<and> aq_size ops aq + 1 > aq_max aq"

text \<open>\<open>cv.wait(l, pred)\<close>: re-examined at each notification; \<open>None\<close> while it blocks.\<close>

fun aq_wait_space ::
  "('a, 'q) queue_ops \<Rightarrow> 'q async_queue list \<Rightarrow> 'q async_queue \<Rightarrow> 'q async_queue option"
where
  "aq_wait_space ops [] aq = (if aq_full ops aq then None else Some aq)"
| "aq_wait_space ops (s # ss) aq = (if aq_full ops aq then aq_wait_space ops ss s else Some aq)"

definition aq_emplace ::
  "('a, 'q) queue_ops \<Rightarrow> 'q async_queue list \<Rightarrow> 'a \<Rightarrow> 'q async_queue
     \<Rightarrow> 'q async_queue outcome option"
where
  "aq_emplace ops sched t aq =
     (case aq_wait_space ops sched aq of
        None \<Rightarrow> None
      | Some aq' \<Rightarrow> Some (obind (qemplace ops t (aq_q aq')) (\<lambda>q. Return (aq'\<lparr>aq_q := q\<rparr>))))"

definition aq_push ::
  "('a, 'q) queue_ops \<Rightarrow> 'q async_queue list \<Rightarrow> 'a \<Rightarrow> 'q async_queue
     \<Rightarrow> 'q async_queue outcome option"
where
  "aq_push ops sched t aq = aq_emplace ops sched t aq"

subsection \<open>pop\<close>

text \<open>A predicate that is \<open>nullptr\<close> accepts everything.\<close>

definition accepts :: "('a \<Rightarrow> bool) option \<Rightarrow> 'a \<Rightarrow> bool" where
  "accepts predicate x \<longleftrightarrow> (case predicate of None \<Rightarrow> True | Some p \<Rightarrow> p x)"

text \<open>The inner loop \<open>while (num_pop-- > 0)\<close>: returns the container, \<open>res\<close> and
  \<open>pred_false\<close>.\<close>

fun aq_drain ::
  "('a, 'q) queue_ops \<Rightarrow> ('a \<Rightarrow> bool) option \<Rightarrow> nat \<Rightarrow> 'q \<Rightarrow> 'a list \<Rightarrow> 'a list
     \<Rightarrow> ('q \<times> 'a list \<times> 'a list) outcome"
where
  "aq_drain ops predicate 0 q res pred_false = Return (q, res, pred_false)"
| "aq_drain ops predicate (Suc n) q res pred_false =
     obind (qfront ops q) (\<lambda>p. obind (qpop ops q) (\<lambda>q'.
       if accepts predicate p
       then aq_drain ops predicate n q' (res @ [p]) pred_false
       else aq_drain ops predicate n q' res (pred_false @ [p])))"

text \<open>The loop that puts the rejected elements back.\<close>

fun aq_restore :: "('a, 'q) queue_ops \<Rightarrow> 'a list \<Rightarrow> 'q \<Rightarrow> 'q outcome" where
  "aq_restore ops [] q = Return q"
| "aq_restore ops (p # ps) q = obind (qemplace ops p q) (aq_restore ops ps)"

text \<open>
  The head of the outer loop. \<open>wait_for\<close> returns at once when the queue is not empty;
  otherwise it waits and then reports whether the queue is non-empty. The result is
  \<open>None\<close> for the early \<open>return res\<close>.
\<close>

definition aq_wait_items ::
  "('a, 'q) queue_ops \<Rightarrow> duration_t \<Rightarrow> 'q list \<Rightarrow> 'q \<Rightarrow> bool \<times> 'q \<times> 'q list"
where
  "aq_wait_items ops timeout sched q =
     (if timeout > 0
      then (if qsize ops q > 0 then (True, q, sched)
            else (case sched of
                    [] \<Rightarrow> (False, q, [])
                  | s # ss \<Rightarrow> (qsize ops s > 0, s, ss)))
      else (qsize ops q > 0, q, sched))"

text \<open>One round of the outer loop after the wait.\<close>

definition aq_round ::
  "('a, 'q) queue_ops \<Rightarrow> nat \<Rightarrow> ('a \<Rightarrow> bool) option \<Rightarrow> 'q \<Rightarrow> 'a list \<Rightarrow> ('q \<times> 'a list) outcome"
where
  "aq_round ops count predicate q res =
     (let num_pop = (if count < 1 then qsize ops q else min count (qsize ops q))
      in obind (aq_drain ops predicate num_pop q res []) (\<lambda>(q', res', pred_false).
           obind (aq_restore ops pred_false q') (\<lambda>q''. Return (q'', res'))))"

text \<open>
  The \<open>do ... while (res.size() < count)\<close> loop. It need not end: a predicate that
  rejects every element makes it spin with the mutex held. The value \<open>None\<close> stands for
  not returning.
\<close>

partial_function (option) aq_pop_loop ::
  "('a, 'q) queue_ops \<Rightarrow> nat \<Rightarrow> duration_t \<Rightarrow> ('a \<Rightarrow> bool) option \<Rightarrow> 'q list \<Rightarrow> 'q \<Rightarrow> 'a list
     \<Rightarrow> ('a list \<times> 'q) outcome option"
where
  "aq_pop_loop ops count timeout predicate sched q res =
     (case aq_wait_items ops timeout sched q of
        (ready, q', sched') \<Rightarrow>
          (if \<not> ready then Some (Return (res, q'))
           else (case aq_round ops count predicate q' res of
                   Undefined \<Rightarrow> Some Undefined
                 | Raise e \<Rightarrow> Some (Raise e)
                 | Return (q'', res') \<Rightarrow>
                     (if length res' < count
                      then aq_pop_loop ops count timeout predicate sched' q'' res'
                      else Some (Return (res', q''))))))"

declare aq_pop_loop.simps [code]

definition aq_pop ::
  "('a, 'q) queue_ops \<Rightarrow> nat \<Rightarrow> duration_t \<Rightarrow> ('a \<Rightarrow> bool) option \<Rightarrow> 'q list \<Rightarrow> 'q async_queue
     \<Rightarrow> ('a list \<times> 'q async_queue) outcome option"
where
  "aq_pop ops count timeout predicate sched aq =
     map_option (\<lambda>r. obind r (\<lambda>(res, q). Return (res, aq\<lparr>aq_q := q\<rparr>)))
       (aq_pop_loop ops count timeout predicate sched (aq_q aq) [])"

lemmas aq_defs [model_defs] =
  aq_new_def aq_size_def aq_empty_def aq_full_def aq_emplace_def aq_push_def accepts_def

lemma accepts_simps [simp]: "accepts (Some P) = P" "accepts None = (\<lambda>_. True)"
  by (simp_all add: accepts_def fun_eq_iff)

section \<open>What pop needs of its container\<close>

text \<open>
  \<open>view\<close> lists a container's elements in the order in which \<open>front\<close>/\<open>pop\<close> deliver them,
  \<open>put\<close> is the effect of \<open>emplace\<close> on that list while there is room, and \<open>holds q n\<close>
  says that the container can hold \<open>n\<close> elements without dropping one.
\<close>

locale queue_container =
  fixes ops :: "('a, 'q) queue_ops"
    and view :: "'q \<Rightarrow> 'a list"
    and wf :: "'q \<Rightarrow> bool"
    and put :: "'a \<Rightarrow> 'a list \<Rightarrow> 'a list"
    and holds :: "'q \<Rightarrow> nat \<Rightarrow> bool"
  assumes size_view: "wf q \<Longrightarrow> qsize ops q = length (view q)"
    and front_view: "wf q \<Longrightarrow> view q = x # xs \<Longrightarrow> qfront ops q = Return x"
    and pop_view: "wf q \<Longrightarrow> view q = x # xs \<Longrightarrow>
          \<exists>q'. qpop ops q = Return q' \<and> wf q' \<and> view q' = xs \<and> holds q' = holds q"
    and emplace_view: "wf q \<Longrightarrow> holds q (Suc (length (view q))) \<Longrightarrow>
          \<exists>q'. qemplace ops x q = Return q' \<and> wf q' \<and> view q' = put x (view q)
            \<and> holds q' = holds q"
    and holds_view: "wf q \<Longrightarrow> n \<le> length (view q) \<Longrightarrow> holds q n"
    and length_put: "length (put x xs) = Suc (length xs)"
    and set_put: "set (put x xs) = insert x (set xs)"
begin

lemma length_fold_put: "length (fold put xs ys) = length xs + length ys"
  by (induction xs arbitrary: ys) (simp_all add: length_put)

lemma set_fold_put: "set (fold put xs ys) = set xs \<union> set ys"
  by (induction xs arbitrary: ys) (auto simp: set_put)

lemma drain_view:
  "wf q \<Longrightarrow> n \<le> length (view q) \<Longrightarrow>
     \<exists>q'. aq_drain ops p n q res pf =
       Return (q', res @ filter (accepts p) (take n (view q)),
               pf @ filter (\<lambda>x. \<not> accepts p x) (take n (view q)))
     \<and> wf q' \<and> view q' = drop n (view q) \<and> holds q' = holds q"
proof (induction n arbitrary: q res pf)
  case 0
  then show ?case by simp
next
  case (Suc n)
  then obtain x xs where v: "view q = x # xs" by (cases "view q") auto
  from pop_view [OF Suc.prems(1) v] obtain q1 where
    q1: "qpop ops q = Return q1" "wf q1" "view q1 = xs" "holds q1 = holds q" by blast
  moreover have "n \<le> length (view q1)" using Suc.prems(2) v q1 by simp
  ultimately show ?case
    using Suc.IH [of q1 "if accepts p x then res @ [x] else res"
        "if accepts p x then pf else pf @ [x]"]
    by (auto simp: front_view [OF Suc.prems(1) v] v split: if_splits)
qed

lemma restore_view:
  "wf q \<Longrightarrow> holds q (length ps + length (view q)) \<Longrightarrow>
   (\<And>n. n \<le> length ps + length (view q) \<Longrightarrow> holds q n) \<Longrightarrow>
     \<exists>q'. aq_restore ops ps q = Return q' \<and> wf q' \<and> view q' = fold put ps (view q)
       \<and> holds q' = holds q"
proof (induction ps arbitrary: q)
  case Nil
  then show ?case by simp
next
  case (Cons p ps)
  have "holds q (Suc (length (view q)))" by (rule Cons.prems(3)) simp
  from emplace_view [OF Cons.prems(1) this, of p] obtain q1 where
    q1: "qemplace ops p q = Return q1" "wf q1" "view q1 = put p (view q)" "holds q1 = holds q"
    by blast
  then show ?case
    using Cons.IH [of q1] Cons.prems by (auto simp: length_put)
qed

text \<open>A round of \<open>pop\<close> takes the accepted elements and puts the others back.\<close>

lemma round_view:
  assumes "wf q" and n: "n = (if count < 1 then length (view q) else min count (length (view q)))"
  shows "\<exists>q'. aq_round ops count p q res =
      Return (q', res @ filter (accepts p) (take n (view q)))
    \<and> wf q'
    \<and> view q' = fold put (filter (\<lambda>x. \<not> accepts p x) (take n (view q))) (drop n (view q))
    \<and> holds q' = holds q"
proof -
  let ?pf = "filter (\<lambda>x. \<not> accepts p x) (take n (view q))"
  have n_le: "n \<le> length (view q)" using n by simp
  from drain_view [OF assms(1) n_le, of p res "[]"] obtain q1 where
    d: "aq_drain ops p n q res [] = Return (q1, res @ filter (accepts p) (take n (view q)), ?pf)"
    and q1: "wf q1" "view q1 = drop n (view q)" "holds q1 = holds q" by auto
  have "length ?pf \<le> n"
    using n_le by (metis (no_types, lifting) length_filter_le length_take min_absorb2 order_trans)
  then have le: "m \<le> length (view q)" if "m \<le> length ?pf + length (view q1)" for m
    using that n_le q1(2) by simp
  then have "holds q1 m" if "m \<le> length ?pf + length (view q1)" for m
    using that q1(3) holds_view [OF assms(1)] by simp
  from restore_view [OF q1(1) this this] obtain q2 where
    "aq_restore ops ?pf q1 = Return q2" "wf q2" "view q2 = fold put ?pf (view q1)"
    "holds q2 = holds q1" by auto
  moreover have "(if count < 1 then qsize ops q else min count (qsize ops q)) = n"
    using n by (simp add: size_view [OF assms(1)])
  ultimately show ?thesis
    unfolding aq_round_def Let_def using d q1 by simp
qed

text \<open>With \<open>count = 0\<close> the loop runs once and always returns.\<close>

lemma wait_items_ready:
  "wf q \<Longrightarrow> view q \<noteq> [] \<Longrightarrow> aq_wait_items ops timeout sched q = (True, q, sched)"
  by (simp add: aq_wait_items_def size_view)

lemma pop_all_ready:
  assumes "wf q" and "view q \<noteq> []"
  shows "\<exists>q'. aq_pop_loop ops 0 timeout p sched q res =
      Some (Return (res @ filter (accepts p) (view q), q'))
    \<and> wf q' \<and> view q' = fold put (filter (\<lambda>x. \<not> accepts p x) (view q)) [] \<and> holds q' = holds q"
proof -
  from round_view [OF assms(1) refl, of 0 p res] obtain q' where
    "aq_round ops 0 p q res = Return (q', res @ filter (accepts p) (view q))" "wf q'"
    "view q' = fold put (filter (\<lambda>x. \<not> accepts p x) (view q)) []" "holds q' = holds q"
    by auto
  then show ?thesis
    using assms by (subst aq_pop_loop.simps) (simp add: wait_items_ready)
qed

lemma pop_empty:
  assumes "wf q" and "view q = []" and "timeout \<le> 0 \<or> sched = []"
  shows "aq_pop_loop ops count timeout p sched q res = Some (Return (res, q))"
  using assms by (subst aq_pop_loop.simps) (auto simp: aq_wait_items_def size_view)

lemma pop_one:
  assumes "wf q" and v: "view q = x # xs" and "accepts p x"
  shows "\<exists>q'. aq_pop_loop ops 1 timeout p sched q [] = Some (Return ([x], q'))
    \<and> wf q' \<and> view q' = xs"
proof -
  from round_view [OF assms(1) refl, of 1 p "[]"] obtain q' where
    "aq_round ops 1 p q [] = Return (q', [x])" "wf q'" "view q' = xs"
    using assms by auto
  then show ?thesis
    using assms by (subst aq_pop_loop.simps) (simp add: wait_items_ready)
qed

text \<open>
  A positive count with a predicate that rejects everything: the loop never returns,
  whatever the other threads would do, because a non-empty queue never releases the lock.
\<close>

lemma pop_rejecting_diverges:
  assumes "wf q" and "view q \<noteq> []" and "\<forall>x \<in> set (view q). \<not> accepts p x" and "0 < count"
    and "length res < count"
  shows "aq_pop_loop ops count timeout p sched q res = None"
proof (rule ccontr)
  assume "aq_pop_loop ops count timeout p sched q res \<noteq> None"
  then obtain r where ret: "aq_pop_loop ops count timeout p sched q res = Some r" by blast
  let ?P = "\<lambda>ops' count timeout p sched q res r. ops' = ops \<longrightarrow>
     wf q \<longrightarrow> view q \<noteq> [] \<longrightarrow> (\<forall>x \<in> set (view q). \<not> accepts p x) \<longrightarrow> 0 < count \<longrightarrow>
     length res < count \<longrightarrow> False"
  have "?P ops count timeout p sched q res r"
  proof (rule aq_pop_loop.raw_induct [where P = ?P, OF _ ret], intro impI)
    fix f ops' count timeout p sched q res r
    assume IH: "\<And>ops count timeout p sched q res y.
        f ops count timeout p sched q res = Some y \<Longrightarrow> ?P ops count timeout p sched q res y"
      and eq: "(case aq_wait_items ops' timeout sched q of
          (ready, q', sched') \<Rightarrow>
            (if \<not> ready then Some (Return (res, q'))
             else (case aq_round ops' count p q' res of
                     Undefined \<Rightarrow> Some Undefined
                   | Raise e \<Rightarrow> Some (Raise e)
                   | Return (q'', res') \<Rightarrow>
                       (if length res' < count then f ops' count timeout p sched' q'' res'
                        else Some (Return (res', q'')))))) = Some r"
      and [simp]: "ops' = ops" and q: "wf q" "view q \<noteq> []"
        "\<forall>x \<in> set (view q). \<not> accepts p x" and c: "0 < count" "length res < count"
    let ?n = "min count (length (view q))"
    have none: "filter (accepts p) (take ?n (view q)) = []"
      using q(3) by (auto simp: filter_empty_conv dest: in_set_takeD)
    have all: "filter (\<lambda>x. \<not> accepts p x) (take ?n (view q)) = take ?n (view q)"
      using q(3) by (auto simp: filter_id_conv dest: in_set_takeD)
    from round_view [OF q(1), of ?n count p res] c obtain q' where
      q': "aq_round ops count p q res = Return (q', res)" "wf q'"
        "view q' = fold put (take ?n (view q)) (drop ?n (view q))"
      using none all by auto
    have "length (view q') = length (view q)"
      using q'(3) by (simp add: length_fold_put)
    then have ne: "view q' \<noteq> []" using q(2) by auto
    have "set (view q') \<subseteq> set (view q)"
      using q'(3) by (auto simp: set_fold_put dest: in_set_takeD in_set_dropD)
    then have "\<forall>x \<in> set (view q'). \<not> accepts p x" using q(3) by auto
    moreover have "f ops count timeout p sched q' res = Some r"
      using eq q(2) c(2) q'(1) by (simp add: wait_items_ready [OF q(1,2)])
    ultimately show False
      using IH [of ops count timeout p sched q' res r] q'(2) ne c by auto
  qed
  then show False using assms by auto
qed

end

section \<open>The two containers\<close>

interpretation fifo: queue_container std_queue_ops "\<lambda>q. q" "\<lambda>_. True" "\<lambda>x xs. xs @ [x]" "\<lambda>_ _. True"
  by unfold_locales (auto simp: std_queue_ops_def)

definition rb_view :: "'a ring_buffer \<Rightarrow> 'a list" where
  "rb_view rb = rev (rb_q rb)"

definition rb_holds :: "'a ring_buffer \<Rightarrow> nat \<Rightarrow> bool" where
  "rb_holds rb n \<longleftrightarrow> n \<le> rb_max rb"

lemma rb_view_Cons:
  assumes "rb_view rb = x # xs"
  shows "rb_q rb = rev xs @ [x]"
proof -
  have "rb_q rb = rev (rb_view rb)" by (simp add: rb_view_def)
  then show ?thesis using assms by simp
qed

interpretation lifo: queue_container rb_ops rb_view rb_wf "(#)" rb_holds
proof (unfold_locales, goal_cases)
  case (1 q)
  then show ?case by (simp add: rb_ops_def rb_defs rb_view_def)
next
  case (2 q x xs)
  from rb_view_Cons [OF 2(2)] show ?case by (simp add: rb_ops_def rb_defs)
next
  case (3 q x xs)
  from rb_view_Cons [OF 3(2)] 3(1) show ?case
    by (auto simp: rb_ops_def rb_defs rb_view_def rb_holds_def fun_eq_iff)
next
  case (4 q x)
  then have "length (rb_q q) < rb_max q" by (simp add: rb_holds_def rb_view_def)
  from rb_emplace_room [OF this, of x] this show ?case
    by (auto simp: rb_ops_def rb_view_def rb_wf_def rb_holds_def fun_eq_iff)
next
  case (5 q n)
  then show ?case by (simp add: rb_holds_def rb_wf_def rb_view_def)
qed auto

end
