(* ===== verification/Work_Queue.thy ===== *)
theory Work_Queue
  imports Prelude "HOL-Library.Multiset"
begin

text \<open>
  The \<open>std::priority_queue\<close> of \<^verbatim>\<open>src/src/command/command_manager.hpp\<close>: a binary heap in a
  vector, ordered by a comparator. \<open>push\<close> is \<open>push_back\<close> and \<open>std::push_heap\<close>,
  \<open>pop\<close> is \<open>std::pop_heap\<close> and \<open>pop_back\<close>; the algorithms are those of the C++ library of
  the default (MinGW) toolchain.

  The comparator of the source, \<open>QueueCompare\<close>, is \<open>left >= right\<close> on the command types.
  It is not irreflexive, so it is not the strict weak ordering that the library asks for.
  The lemmas below show that the heap nevertheless delivers an element of least type, and
  that among equal types the newest one is delivered first.
\<close>

text \<open>\<open>cmp l r\<close> says that \<open>l\<close> has lower priority than \<open>r\<close>. The loop of
  \<open>push_heap\<close> moves the hole towards the root.\<close>

fun sift_up :: "('a \<Rightarrow> 'a \<Rightarrow> bool) \<Rightarrow> 'a list \<Rightarrow> nat \<Rightarrow> 'a \<Rightarrow> 'a list" where
  "sift_up cmp xs hole v =
     (if 0 < hole \<and> cmp (xs ! ((hole - 1) div 2)) v
      then sift_up cmp (xs[hole := xs ! ((hole - 1) div 2)]) ((hole - 1) div 2) v
      else xs[hole := v])"

declare sift_up.simps [simp del]

definition wq_push :: "('a \<Rightarrow> 'a \<Rightarrow> bool) \<Rightarrow> 'a \<Rightarrow> 'a list \<Rightarrow> 'a list" where
  "wq_push cmp v xs = sift_up cmp (xs @ [v]) (length xs) v"

text \<open>The first loop of \<open>pop_heap\<close>: the hole at the root sinks to a leaf, the child that
  stays ahead moving up. The result is the vector and the position of the hole.\<close>

function sink :: "('a \<Rightarrow> 'a \<Rightarrow> bool) \<Rightarrow> 'a list \<Rightarrow> nat \<Rightarrow> 'a list \<times> nat" where
  "sink cmp xs hole =
     (if 2 * hole + 2 < length xs
      then (let child = (if cmp (xs ! (2 * hole + 2)) (xs ! (2 * hole + 1))
                         then 2 * hole + 1 else 2 * hole + 2)
            in sink cmp (xs[hole := xs ! child]) child)
      else if 2 * hole + 2 = length xs
      then (xs[hole := xs ! (2 * hole + 1)], 2 * hole + 1)
      else (xs, hole))"
  by pat_completeness auto
termination
  by (relation "measure (\<lambda>(cmp, xs, hole). length xs - hole)") (auto simp: Let_def split: if_splits)

declare sink.simps [simp del]

definition wq_top :: "'a list \<Rightarrow> 'a outcome" where
  "wq_top xs = (case xs of [] \<Rightarrow> Undefined | x # _ \<Rightarrow> Return x)"

definition wq_pop :: "('a \<Rightarrow> 'a \<Rightarrow> bool) \<Rightarrow> 'a list \<Rightarrow> 'a list outcome" where
  "wq_pop cmp xs =
     (if xs = [] then Undefined
      else if length xs = 1 then Return []
      else (case sink cmp (butlast xs) 0 of
              (ys, hole) \<Rightarrow> Return (sift_up cmp ys hole (last xs))))"

section \<open>Heap order\<close>

text \<open>A comparator given by a key: larger keys have lower priority, ties compare true.\<close>

definition ge_on :: "('a \<Rightarrow> nat) \<Rightarrow> 'a \<Rightarrow> 'a \<Rightarrow> bool" where
  "ge_on k l r \<longleftrightarrow> k l \<ge> k r"

definition is_heap :: "('a \<Rightarrow> nat) \<Rightarrow> 'a list \<Rightarrow> bool" where
  "is_heap k xs \<longleftrightarrow> (\<forall>i < length xs. 0 < i \<longrightarrow> k (xs ! ((i - 1) div 2)) \<le> k (xs ! i))"

text \<open>Heap order around a hole whose own value does not count.\<close>

definition heap_hole :: "('a \<Rightarrow> nat) \<Rightarrow> 'a list \<Rightarrow> nat \<Rightarrow> bool" where
  "heap_hole k xs hole \<longleftrightarrow> hole < length xs
     \<and> (\<forall>i < length xs. 0 < i \<and> i \<noteq> hole \<and> (i - 1) div 2 \<noteq> hole
          \<longrightarrow> k (xs ! ((i - 1) div 2)) \<le> k (xs ! i))
     \<and> (\<forall>c < length xs. 0 < hole \<and> 0 < c \<and> (c - 1) div 2 = hole
          \<longrightarrow> k (xs ! ((hole - 1) div 2)) \<le> k (xs ! c))"

lemma length_sift_up [simp]: "length (sift_up cmp xs hole v) = length xs"
proof (induction cmp xs hole v rule: sift_up.induct)
  case (1 cmp xs hole v)
  then show ?case by (subst sift_up.simps) auto
qed

text \<open>Moving an element into the hole and filling its old place with \<open>v\<close>.\<close>

lemma mset_move_hole:
  assumes "h < length xs" and "c < length xs" and "h \<noteq> c"
  shows "mset ((xs[h := xs ! c])[c := v]) = mset (xs[h := v])"
proof -
  have "(xs[h := xs ! c])[c := v] = (xs[h := v])[h := xs[h := v] ! c, c := xs[h := v] ! h]"
    using assms by simp
  then show ?thesis
    using mset_swap [of c "xs[h := v]" h] assms by simp
qed

lemma mset_sift_up: "hole < length xs \<Longrightarrow> mset (sift_up cmp xs hole v) = mset (xs[hole := v])"
proof (induction cmp xs hole v rule: sift_up.induct)
  case (1 cmp xs hole v)
  let ?p = "(hole - 1) div 2"
  show ?case
  proof (cases "0 < hole \<and> cmp (xs ! ?p) v")
    case True
    then have p: "?p < hole" by auto
    have "mset (sift_up cmp xs hole v) = mset ((xs[hole := xs ! ?p])[?p := v])"
      using True 1 p by (subst sift_up.simps) auto
    also have "\<dots> = mset (xs[hole := v])"
      using 1(2) p by (intro mset_move_hole) auto
    finally show ?thesis .
  next
    case False
    then show ?thesis by (subst sift_up.simps) auto
  qed
qed

lemma div2_eq_iff: "0 < i \<Longrightarrow> (i - 1) div 2 = h \<longleftrightarrow> i = 2 * h + 1 \<or> i = 2 * h + (2::nat)"
  by presburger

lemma parent_less: "0 < i \<Longrightarrow> (i - 1) div 2 < (i::nat)"
  by auto

lemma heap_hole_up:
  assumes H: "heap_hole k xs hole" and "0 < hole"
  shows "heap_hole k (xs[hole := xs ! ((hole - 1) div 2)]) ((hole - 1) div 2)"
proof -
  let ?p = "(hole - 1) div 2"
  let ?ys = "xs[hole := xs ! ?p]"
  have p: "?p < hole" and l: "hole < length xs"
    using H \<open>0 < hole\<close> by (auto simp: heap_hole_def)
  have sib: "k (xs ! ?p) \<le> k (xs ! c)" if "c < length xs" "0 < c" "(c - 1) div 2 = ?p" "c \<noteq> hole" for c
    using H that p by (auto simp: heap_hole_def)
  have up: "k (xs ! ((?p - 1) div 2)) \<le> k (xs ! ?p)" if "0 < ?p"
    using H that p l parent_less [OF that] by (auto simp: heap_hole_def)
  show ?thesis
    unfolding heap_hole_def
  proof (intro conjI allI impI)
    show "?p < length ?ys" using p l by simp
  next
    fix i
    assume i: "i < length ?ys" "0 < i \<and> i \<noteq> ?p \<and> (i - 1) div 2 \<noteq> ?p"
    then have "i \<noteq> hole" by auto
    show "k (?ys ! ((i - 1) div 2)) \<le> k (?ys ! i)"
    proof (cases "(i - 1) div 2 = hole")
      case True
      then show ?thesis
        using H i \<open>i \<noteq> hole\<close> \<open>0 < hole\<close> l by (auto simp: heap_hole_def)
    next
      case False
      then show ?thesis
        using H i \<open>i \<noteq> hole\<close> by (auto simp: heap_hole_def)
    qed
  next
    fix c
    assume c: "c < length ?ys" "0 < ?p \<and> 0 < c \<and> (c - 1) div 2 = ?p"
    have "(?p - 1) div 2 \<noteq> hole" using p by auto
    then show "k (?ys ! ((?p - 1) div 2)) \<le> k (?ys ! c)"
      using up sib [of c] c l by (cases "c = hole") (auto intro: order_trans)
  qed
qed

lemma is_heap_sift_up:
  assumes "heap_hole k xs hole"
    and "\<forall>c < length xs. 0 < c \<and> (c - 1) div 2 = hole \<longrightarrow> k v \<le> k (xs ! c)"
  shows "is_heap k (sift_up (ge_on k) xs hole v)"
  using assms
proof (induction "ge_on k" xs hole v rule: sift_up.induct)
  case (1 xs hole v)
  let ?p = "(hole - 1) div 2"
  show ?case
  proof (cases "0 < hole \<and> ge_on k (xs ! ?p) v")
    case True
    then have p: "?p < hole" "k v \<le> k (xs ! ?p)" by (auto simp: ge_on_def)
    have l: "hole < length xs" using 1(2) by (simp add: heap_hole_def)
    have "k v \<le> k (xs[hole := xs ! ?p] ! c)" if "c < length xs" "0 < c" "(c - 1) div 2 = ?p" for c
    proof (cases "c = hole")
      case False
      then have "k (xs ! ?p) \<le> k (xs ! c)"
        using 1(2) that p(1) by (auto simp: heap_hole_def)
      with p(2) False show ?thesis by simp
    qed (use p l in simp)
    then have "is_heap k (sift_up (ge_on k) (xs[hole := xs ! ?p]) ?p v)"
      using 1(1) True heap_hole_up [OF 1(2)] by auto
    with True show ?thesis by (subst sift_up.simps) simp
  next
    case False
    have "k ((xs[hole := v]) ! ((i - 1) div 2)) \<le> k ((xs[hole := v]) ! i)"
      if "i < length xs" "0 < i" for i
    proof (cases "i = hole")
      case True
      then show ?thesis
        using False that parent_less [of i] by (auto simp: ge_on_def)
    next
      case False
      then show ?thesis
        using 1(2,3) that by (cases "(i - 1) div 2 = hole") (auto simp: heap_hole_def)
    qed
    with False show ?thesis
      by (subst sift_up.simps) (auto simp: is_heap_def)
  qed
qed

lemma sink_two:
  "2 * hole + 2 < length xs \<Longrightarrow> child = (if cmp (xs ! (2 * hole + 2)) (xs ! (2 * hole + 1))
     then 2 * hole + 1 else 2 * hole + 2) \<Longrightarrow>
   sink cmp xs hole = sink cmp (xs[hole := xs ! child]) child"
  by (subst sink.simps) (simp add: Let_def)

lemma sink_one:
  "length xs = 2 * hole + 2 \<Longrightarrow>
     sink cmp xs hole = (xs[hole := xs ! (2 * hole + 1)], 2 * hole + 1)"
  by (subst sink.simps) simp

lemma sink_leaf: "length xs < 2 * hole + 2 \<Longrightarrow> sink cmp xs hole = (xs, hole)"
  by (subst sink.simps) simp

lemma sink_shape:
  assumes "hole < length xs" and "sink cmp xs hole = (ys, h)"
  shows "length ys = length xs \<and> h < length xs \<and> length xs \<le> 2 * h + 1
    \<and> mset (ys[h := v]) = mset (xs[hole := v])"
  using assms
proof (induction cmp xs hole arbitrary: ys h rule: sink.induct)
  case (1 cmp xs hole)
  let ?c = "if cmp (xs ! (2 * hole + 2)) (xs ! (2 * hole + 1)) then 2 * hole + 1 else 2 * hole + 2"
  note swap = mset_move_hole [OF 1(2), where v = v]
  consider (two) "2 * hole + 2 < length xs" | (one) "length xs = 2 * hole + 2"
    | (leaf) "length xs < 2 * hole + 2" by linarith
  then show ?case
  proof cases
    case two
    then have c: "?c < length xs" "hole < ?c" by auto
    have "sink cmp (xs[hole := xs ! ?c]) ?c = (ys, h)"
      using 1(3) sink_two [OF two refl, of cmp] by simp
    then show ?thesis
      using 1(1) [OF two refl, of ys h] c swap [OF c(1)] by (simp split: if_splits)
  next
    case one
    then have "ys = xs[hole := xs ! (2 * hole + 1)]" "h = 2 * hole + 1"
      using 1(3) sink_one by fastforce+
    then show ?thesis using one swap [of "2 * hole + 1"] by simp
  next
    case leaf
    then have "ys = xs" "h = hole"
      using 1(3) sink_leaf by fastforce+
    then show ?thesis using leaf 1(2) by simp
  qed
qed

lemma heap_hole_down:
  assumes H: "heap_hole k xs hole" and c: "c < length xs" "c = 2 * hole + 1 \<or> c = 2 * hole + 2"
    and least: "\<forall>d < length xs. d = 2 * hole + 1 \<or> d = 2 * hole + 2 \<longrightarrow> k (xs ! c) \<le> k (xs ! d)"
  shows "heap_hole k (xs[hole := xs ! c]) c"
proof -
  let ?ys = "xs[hole := xs ! c]"
  have h: "hole < length xs" "hole < c" "(c - 1) div 2 = hole" using H c by (auto simp: heap_hole_def)
  show ?thesis
    unfolding heap_hole_def
  proof (intro conjI allI impI)
    show "c < length ?ys" using c by simp
  next
    fix i
    assume i: "i < length ?ys" "0 < i \<and> i \<noteq> c \<and> (i - 1) div 2 \<noteq> c"
    consider (hole) "i = hole" | (sib) "i \<noteq> hole" "(i - 1) div 2 = hole"
      | (other) "i \<noteq> hole" "(i - 1) div 2 \<noteq> hole" by blast
    then show "k (?ys ! ((i - 1) div 2)) \<le> k (?ys ! i)"
    proof cases
      case hole
      then show ?thesis
        using H i c h parent_less [of i] by (auto simp: heap_hole_def)
    next
      case sib
      then have "i = 2 * hole + 1 \<or> i = 2 * hole + 2" using i div2_eq_iff by blast
      then have "k (xs ! c) \<le> k (xs ! i)" using least i by auto
      then show ?thesis using sib h by simp
    next
      case other
      then show ?thesis using H i by (auto simp: heap_hole_def)
    qed
  next
    fix d
    assume d: "d < length ?ys" "0 < c \<and> 0 < d \<and> (d - 1) div 2 = c"
    then have "d \<noteq> hole" "c \<noteq> hole" using h parent_less [of d] by auto
    then have "k (xs ! c) \<le> k (xs ! d)" using H d by (auto simp: heap_hole_def)
    then show "k (?ys ! ((c - 1) div 2)) \<le> k (?ys ! d)"
      using h \<open>d \<noteq> hole\<close> by simp
  qed
qed

lemma heap_hole_sink:
  assumes "heap_hole k xs hole" and "sink (ge_on k) xs hole = (ys, h)"
  shows "heap_hole k ys h"
  using assms
proof (induction "ge_on k" xs hole arbitrary: ys h rule: sink.induct)
  case (1 xs hole)
  let ?c = "if ge_on k (xs ! (2 * hole + 2)) (xs ! (2 * hole + 1)) then 2 * hole + 1 else 2 * hole + 2"
  consider (two) "2 * hole + 2 < length xs" | (one) "length xs = 2 * hole + 2"
    | (leaf) "length xs < 2 * hole + 2" by linarith
  then show ?case
  proof cases
    case two
    have "heap_hole k (xs[hole := xs ! ?c]) ?c"
      using two by (intro heap_hole_down 1(2)) (auto simp: ge_on_def)
    moreover have "sink (ge_on k) (xs[hole := xs ! ?c]) ?c = (ys, h)"
      using 1(3) sink_two [OF two refl, of "ge_on k"] by simp
    ultimately show ?thesis using 1(1) [OF two refl] by blast
  next
    case one
    then have e: "ys = xs[hole := xs ! (2 * hole + 1)]" "h = 2 * hole + 1"
      using 1(3) sink_one by fastforce+
    have least: "\<forall>d < length xs. d = 2 * hole + 1 \<or> d = 2 * hole + 2 \<longrightarrow>
        k (xs ! (2 * hole + 1)) \<le> k (xs ! d)"
    proof (intro allI impI)
      fix d
      assume "d < length xs" and "d = 2 * hole + 1 \<or> d = 2 * hole + 2"
      then have "d = 2 * hole + 1" using one by linarith
      then show "k (xs ! (2 * hole + 1)) \<le> k (xs ! d)" by (simp only: order_refl)
    qed
    have "2 * hole + 1 < length xs" using one by linarith
    from heap_hole_down [OF 1(2) this disjI1 [OF refl] least] show ?thesis
      by (simp only: e)
  next
    case leaf
    then have "ys = xs" "h = hole"
      using 1(3) sink_leaf by fastforce+
    then show ?thesis using 1(2) by simp
  qed
qed

lemma is_heap_hd_least:
  assumes "is_heap k xs" and "i < length xs"
  shows "k (xs ! 0) \<le> k (xs ! i)"
  using assms(2)
proof (induction i rule: less_induct)
  case (less i)
  show ?case
  proof (cases "i = 0")
    case False
    then have "(i - 1) div 2 < i" by auto
    then have "k (xs ! 0) \<le> k (xs ! ((i - 1) div 2))" using less by simp
    moreover have "k (xs ! ((i - 1) div 2)) \<le> k (xs ! i)"
      using assms(1) less.prems False by (simp add: is_heap_def)
    ultimately show ?thesis by simp
  qed simp
qed

lemma sift_up_root:
  assumes "hole < length xs" and "\<forall>x \<in> set xs. cmp x v"
  shows "sift_up cmp xs hole v ! 0 = v"
  using assms
proof (induction cmp xs hole v rule: sift_up.induct)
  case (1 cmp xs hole v)
  let ?p = "(hole - 1) div 2"
  show ?case
  proof (cases "0 < hole")
    case True
    then have p: "?p < hole" by auto
    then have "set (xs[hole := xs ! ?p]) \<subseteq> set xs"
      using 1(2) set_update_subset_insert [of xs hole "xs ! ?p"] by (auto dest: nth_mem)
    then have "sift_up cmp (xs[hole := xs ! ?p]) ?p v ! 0 = v"
      using 1 True p by (auto simp: subset_iff)
    then show ?thesis
      using True 1 p by (subst sift_up.simps) auto
  next
    case False
    then show ?thesis using 1(2) by (subst sift_up.simps) auto
  qed
qed

lemma is_heap_push:
  assumes "is_heap k xs"
  shows "is_heap k (wq_push (ge_on k) v xs)"
  unfolding wq_push_def
proof (rule is_heap_sift_up)
  have "(i - 1) div 2 \<noteq> length xs" if "i < length (xs @ [v])" "0 < i" for i
    using that parent_less [of i] by simp
  then show "heap_hole k (xs @ [v]) (length xs)"
    using assms by (auto simp: heap_hole_def is_heap_def nth_append)
  show "\<forall>c < length (xs @ [v]). 0 < c \<and> (c - 1) div 2 = length xs \<longrightarrow> k v \<le> k ((xs @ [v]) ! c)"
    by auto
qed

lemma mset_push: "mset (wq_push cmp v xs) = add_mset v (mset xs)"
  unfolding wq_push_def by (simp add: mset_sift_up)

lemma set_push [simp]: "set (wq_push cmp v xs) = insert v (set xs)"
  using mset_push [of cmp v xs] by (metis set_mset_add_mset_insert set_mset_mset)

lemma distinct_push [simp]: "distinct (wq_push cmp v xs) \<longleftrightarrow> v \<notin> set xs \<and> distinct xs"
  using mset_push [of cmp v xs] mset_eq_imp_distinct_iff [of "wq_push cmp v xs" "v # xs"] by simp

lemma is_heap_cong:
  assumes "\<And>x. x \<in> set xs \<Longrightarrow> k x = k' x"
  shows "is_heap k xs = is_heap k' xs"
proof -
  have "k (xs ! i) = k' (xs ! i)" if "i < length xs" for i
    using assms that by simp
  moreover have "(i - 1) div 2 < length xs" if "i < length xs" for i :: nat
    using that by auto
  ultimately show ?thesis by (simp add: is_heap_def)
qed

lemma is_heap_butlast: "is_heap k xs \<Longrightarrow> is_heap k (butlast xs)"
  by (auto simp: is_heap_def nth_butlast)

lemma mset_butlast_hd:
  assumes "1 < length xs"
  shows "mset ((butlast xs)[0 := last xs]) = mset xs - {#xs ! 0#}"
proof -
  obtain y ys where xs: "xs = y # ys" "ys \<noteq> []" using assms by (cases xs) auto
  then have "(butlast xs)[0 := last xs] = last ys # butlast ys" by simp
  moreover have "mset (last ys # butlast ys) = mset ys"
    using xs(2) by (metis append_butlast_last_id mset.simps(2) mset_append union_mset_add_mset_right
        add_0_right mset.simps(1) union_commute)
  ultimately show ?thesis using xs by simp
qed

lemma wq_pop_heap:
  assumes "is_heap k xs" and "xs \<noteq> []"
  shows "\<exists>ys. wq_pop (ge_on k) xs = Return ys \<and> is_heap k ys \<and> mset ys = mset xs - {#xs ! 0#}"
proof (cases "length xs = 1")
  case True
  then show ?thesis
    using assms by (auto simp: wq_pop_def is_heap_def length_Suc_conv)
next
  case False
  with assms have l: "1 < length xs" by (cases xs) auto
  obtain ys h where s: "sink (ge_on k) (butlast xs) 0 = (ys, h)" by fastforce
  have "heap_hole k (butlast xs) 0"
    using is_heap_butlast [OF assms(1)] l by (auto simp: heap_hole_def is_heap_def)
  then have hole: "heap_hole k ys h" using s by (rule heap_hole_sink)
  have shape: "length ys = length xs - 1 \<and> h < length ys \<and> length ys \<le> 2 * h + 1
      \<and> mset (ys[h := last xs]) = mset ((butlast xs)[0 := last xs])"
    using sink_shape [OF _ s, of "last xs"] l by auto
  then have "is_heap k (sift_up (ge_on k) ys h (last xs))"
    by (intro is_heap_sift_up hole) (auto simp: div2_eq_iff)
  moreover have "mset (sift_up (ge_on k) ys h (last xs)) = mset xs - {#xs ! 0#}"
    using shape mset_sift_up [of h ys] mset_butlast_hd [OF l] by simp
  ultimately show ?thesis
    using s False assms(2) by (simp add: wq_pop_def)
qed

section \<open>The contract of the work queue\<close>

text \<open>What the worker relies on: \<open>top\<close> is an element of least key and \<open>pop\<close> removes it.\<close>

fun wq_drain ::
  "('q \<Rightarrow> 'a outcome) \<Rightarrow> ('q \<Rightarrow> 'q outcome) \<Rightarrow> nat \<Rightarrow> 'q \<Rightarrow> 'a list outcome"
where
  "wq_drain topf popf 0 q = Return []"
| "wq_drain topf popf (Suc n) q =
     obind (topf q) (\<lambda>x. obind (popf q) (\<lambda>q'.
       obind (wq_drain topf popf n q') (\<lambda>xs. Return (x # xs))))"

locale priority_work_queue =
  fixes pushf :: "'a \<Rightarrow> 'q \<Rightarrow> 'q"
    and topf :: "'q \<Rightarrow> 'a outcome"
    and popf :: "'q \<Rightarrow> 'q outcome"
    and elems :: "'q \<Rightarrow> 'a multiset"
    and wf :: "'q \<Rightarrow> bool"
    and key :: "'a \<Rightarrow> nat"
  assumes push_wf: "wf q \<Longrightarrow> wf (pushf x q)"
    and push_elems: "wf q \<Longrightarrow> elems (pushf x q) = add_mset x (elems q)"
    and top_least: "wf q \<Longrightarrow> elems q \<noteq> {#} \<Longrightarrow>
          \<exists>x. topf q = Return x \<and> x \<in># elems q \<and> (\<forall>y \<in># elems q. key x \<le> key y)"
    and pop_elems: "wf q \<Longrightarrow> topf q = Return x \<Longrightarrow> elems q \<noteq> {#} \<Longrightarrow>
          \<exists>q'. popf q = Return q' \<and> wf q' \<and> elems q' = elems q - {#x#}"
begin

text \<open>Serving a queue to the end delivers every element, in the order of the keys.\<close>

lemma drain_sorted:
  "wf q \<Longrightarrow> n = size (elems q) \<Longrightarrow>
     \<exists>xs. wq_drain topf popf n q = Return xs \<and> mset xs = elems q
       \<and> sorted (map key xs)"
proof (induction n arbitrary: q)
  case 0
  then show ?case by simp
next
  case (Suc n)
  then have ne: "elems q \<noteq> {#}" by auto
  from top_least [OF Suc.prems(1) ne] obtain x where
    x: "topf q = Return x" "x \<in># elems q" "\<forall>y \<in># elems q. key x \<le> key y" by blast
  from pop_elems [OF Suc.prems(1) x(1) ne] obtain q' where
    q': "popf q = Return q'" "wf q'" "elems q' = elems q - {#x#}" by blast
  have "n = size (elems q')" using Suc.prems(2) x(2) q'(3) by (simp add: size_Diff_singleton)
  from Suc.IH [OF q'(2) this] obtain xs where
    xs: "wq_drain topf popf n q' = Return xs" "mset xs = elems q'" "sorted (map key xs)" by blast
  have "mset (x # xs) = elems q" using x(2) q'(3) xs(2) by simp
  moreover have "\<forall>y \<in> set xs. key x \<le> key y"
    using x(3) xs(2) q'(3) by (metis in_diffD set_mset_mset)
  ultimately show ?case using x(1) q'(1) xs by auto
qed

end

interpretation heap_wq: priority_work_queue "wq_push (ge_on key)" wq_top "wq_pop (ge_on key)" mset "is_heap key" key
  for key :: "'a \<Rightarrow> nat"
proof (unfold_locales, goal_cases)
  case (3 q)
  then obtain x xs where q: "q = x # xs" by (cases q) auto
  have "key x \<le> key y" if "y \<in># mset q" for y
  proof -
    from that obtain i where "i < length q" "q ! i = y" by (auto simp: in_set_conv_nth)
    then show ?thesis using is_heap_hd_least [OF 3(1), of i] q by simp
  qed
  then show ?case using q by (auto simp: wq_top_def)
next
  case (4 q x)
  then have "x = q ! 0" by (cases q) (auto simp: wq_top_def)
  then show ?case using wq_pop_heap [OF 4(1)] 4(3) by auto
qed (simp_all add: is_heap_push mset_push)

lemma wq_push_newest_first:
  assumes "\<forall>x \<in> set xs. key v \<le> key x"
  shows "wq_top (wq_push (ge_on key) v xs) = Return v"
proof -
  have "wq_push (ge_on key) v xs ! 0 = v"
    unfolding wq_push_def by (rule sift_up_root) (use assms in \<open>auto simp: ge_on_def\<close>)
  moreover have "length (wq_push (ge_on key) v xs) = Suc (length xs)"
    by (simp add: wq_push_def)
  ultimately show ?thesis
    by (cases "wq_push (ge_on key) v xs") (auto simp: wq_top_def)
qed

end
