(* ===== verification/Command_Manager.thy ===== *)
theory Command_Manager
  imports Async_Queue Work_Queue
begin

text \<open>
  \<^verbatim>\<open>src/src/command/command_manager.hpp\<close>: commands, the manager that queues them, the
  worker thread that executes them and the per-client result queues.

  Commands are shared objects (\<open>std::shared_ptr\<close>): the client that enqueued one, the
  worker, a result queue and the game thread refer to the same object. The model keeps an
  explicit store from addresses (\<open>cmd_ptr\<close>) to command objects.

  A handler is a \<open>std::function\<close>. The model names the functions by values of a type
  \<open>'h\<close> and takes what they do as a parameter, an interpreter. A handler may change the
  command object and the rest of the program (a \<open>'w\<close>), and may throw.
\<close>

section \<open>Commands\<close>

type_synonym cmd_ptr = nat

datatype ResultCode = RC_NONE | RC_OK | RC_ERROR

datatype CommandType = DESTROY_QUEUE | CREATE_QUEUE | SHUTDOWN | USER

fun type_code :: "CommandType \<Rightarrow> nat" where
  "type_code DESTROY_QUEUE = 1"
| "type_code CREATE_QUEUE = 2"
| "type_code SHUTDOWN = 3"
| "type_code USER = 4"

record BaseData =
  bd_name :: string
  bd_queue_id :: u64
  bd_task_id :: u64
  bd_queue_size :: u64
  bd_type :: CommandType

record ('d, 'h) command =
  base_data :: BaseData
  cmd_handler :: "'h option"
  command_data :: 'd
  result_code :: ResultCode
  pending :: bool
  discard_result :: bool
  error_message :: string
  done_callback :: "'h option"
  async_handler :: "'h option"

abbreviation cmd_type :: "('d, 'h) command \<Rightarrow> CommandType" where
  "cmd_type c \<equiv> bd_type (base_data c)"

abbreviation queue_id :: "('d, 'h) command \<Rightarrow> u64" where
  "queue_id c \<equiv> bd_queue_id (base_data c)"

abbreviation task_id :: "('d, 'h) command \<Rightarrow> u64" where
  "task_id c \<equiv> bd_task_id (base_data c)"

text \<open>\<open>queue_size()\<close> converts the 64-bit argument to \<open>std::size_t\<close>, 32 bits on the
  i686 target.\<close>

definition queue_size :: "('d, 'h) command \<Rightarrow> nat" where
  "queue_size c = unat (ucast (bd_queue_size (base_data c)) :: u32)"

definition new_command ::
  "BaseData \<Rightarrow> 'h option \<Rightarrow> 'd \<Rightarrow> 'h option \<Rightarrow> ('d, 'h) command"
where
  "new_command B handler dat done_cb =
     \<lparr>base_data = B, cmd_handler = handler, command_data = dat, result_code = RC_NONE,
      pending = False, discard_result = False, error_message = [], done_callback = done_cb,
      async_handler = None\<rparr>"

definition set_error :: "string \<Rightarrow> ('d, 'h) command \<Rightarrow> ('d, 'h) command" where
  "set_error msg c = c\<lparr>error_message := msg, result_code := RC_ERROR\<rparr>"

definition set_async_handler :: "'h \<Rightarrow> ('d, 'h) command \<Rightarrow> ('d, 'h) command" where
  "set_async_handler f c = c\<lparr>pending := True, async_handler := Some f\<rparr>"

text \<open>The interpreter of handlers: function, address and contents of the command, world.\<close>

type_synonym ('d, 'h, 'w) interp =
  "'h \<Rightarrow> cmd_ptr \<Rightarrow> 'w \<Rightarrow> ('d, 'h) command \<Rightarrow> 'w \<times> ('d, 'h) command \<times> exn option"

text \<open>Calling a \<open>std::function\<close>: an empty one throws. \<open>base_data_\<close> is private and has no
  mutator, so a handler cannot change it.\<close>

definition invoke ::
  "('d, 'h, 'w) interp \<Rightarrow> 'h option \<Rightarrow> cmd_ptr \<Rightarrow> 'w \<Rightarrow> ('d, 'h) command
     \<Rightarrow> 'w \<times> ('d, 'h) command \<times> exn option"
where
  "invoke call f p w c =
     (case f of
        None \<Rightarrow> (w, c, Some bad_function_call)
      | Some h \<Rightarrow> (case call h p w c of (w', c', e) \<Rightarrow> (w', c'\<lparr>base_data := base_data c\<rparr>, e)))"

text \<open>\<open>Command::run\<close>: the completion callback only runs when the handler did not throw.\<close>

definition cmd_run ::
  "('d, 'h, 'w) interp \<Rightarrow> cmd_ptr \<Rightarrow> 'w \<Rightarrow> ('d, 'h) command
     \<Rightarrow> 'w \<times> ('d, 'h) command \<times> exn option"
where
  "cmd_run call p w c =
     (case invoke call (cmd_handler c) p w c of
        (w1, c1, Some e) \<Rightarrow> (w1, c1, Some e)
      | (w1, c1, None) \<Rightarrow>
          (case done_callback c1 of
             None \<Rightarrow> (w1, c1, None)
           | Some f \<Rightarrow> invoke call (Some f) p w1 c1))"

definition run_async_handler ::
  "('d, 'h, 'w) interp \<Rightarrow> cmd_ptr \<Rightarrow> 'w \<Rightarrow> ('d, 'h) command \<Rightarrow> 'w \<times> ('d, 'h) command"
where
  "run_async_handler call p w c =
     (case invoke call (async_handler c) p w c of
        (w1, c1, None) \<Rightarrow> (w1, c1\<lparr>pending := False\<rparr>)
      | (w1, c1, Some e) \<Rightarrow> (w1, (set_error (what e) c1)\<lparr>pending := False\<rparr>))"

section \<open>The manager\<close>

text \<open>\<open>std::map<u64, std::shared_ptr<result_q_t>>\<close>: \<open>rq_obj\<close> is the identity of the
  queue object, so that destroying a queue and creating another one under the same id are
  told apart.\<close>

record result_q =
  rq_obj :: nat
  rq_queue :: "cmd_ptr ring_buffer async_queue"

text \<open>Where the worker is: waiting for work, or between the handler and the code that
  publishes the result of the command, with what the handler threw.\<close>

datatype worker_pc = WIdle | WRan cmd_ptr "exn option"

record ('d, 'h, 'w) manager =
  active :: bool
  command_counter :: u32
  handlers :: "string \<rightharpoonup> 'h"
  work_queue :: "cmd_ptr list"
  pending_commands :: "u64 list"
  results_queue :: "u64 \<rightharpoonup> result_q"
  store :: "cmd_ptr \<rightharpoonup> ('d, 'h) command"
  next_addr :: nat
  worker_state :: worker_pc
  has_worker :: bool
  world :: 'w

definition cm_init :: "'w \<Rightarrow> ('d, 'h, 'w) manager" where
  "cm_init w =
     \<lparr>active = True, command_counter = 0, handlers = Map.empty, work_queue = [],
      pending_commands = [], results_queue = Map.empty, store = Map.empty, next_addr = 0,
      worker_state = WIdle, has_worker = False, world = w\<rparr>"

definition upd_cmd ::
  "cmd_ptr \<Rightarrow> (('d, 'h) command \<Rightarrow> ('d, 'h) command) \<Rightarrow> ('d, 'h, 'w) manager \<Rightarrow> ('d, 'h, 'w) manager"
where
  "upd_cmd p f m = m\<lparr>store := (store m)(p := map_option f (store m p))\<rparr>"

text \<open>\<open>std::make_shared\<close>: a fresh address.\<close>

definition alloc_cmd ::
  "('d, 'h) command \<Rightarrow> ('d, 'h, 'w) manager \<Rightarrow> ('d, 'h, 'w) manager \<times> cmd_ptr"
where
  "alloc_cmd c m =
     (m\<lparr>store := (store m)(next_addr m \<mapsto> c), next_addr := Suc (next_addr m)\<rparr>, next_addr m)"

text \<open>The priority of a queued command and the comparator of the priority queue.\<close>

definition prio :: "(cmd_ptr \<rightharpoonup> ('d, 'h) command) \<Rightarrow> cmd_ptr \<Rightarrow> nat" where
  "prio st p = (case st p of None \<Rightarrow> 0 | Some c \<Rightarrow> type_code (cmd_type c))"

definition QueueCompare ::
  "(cmd_ptr \<rightharpoonup> ('d, 'h) command) \<Rightarrow> cmd_ptr \<Rightarrow> cmd_ptr \<Rightarrow> bool"
where
  "QueueCompare st left right \<longleftrightarrow> prio st left \<ge> prio st right"

subsection \<open>Result queues\<close>

definition create_queue :: "u64 \<Rightarrow> nat \<Rightarrow> ('d, 'h, 'w) manager \<Rightarrow> ('d, 'h, 'w) manager" where
  "create_queue i max_size m =
     (if results_queue m i \<noteq> None then m
      else m\<lparr>results_queue := (results_queue m)
               (i \<mapsto> \<lparr>rq_obj = next_addr m, rq_queue = aq_new (rb_new max_size) 0\<rparr>),
             next_addr := Suc (next_addr m)\<rparr>)"

definition destroy_queue :: "u64 \<Rightarrow> ('d, 'h, 'w) manager \<Rightarrow> ('d, 'h, 'w) manager" where
  "destroy_queue i m = m\<lparr>results_queue := (results_queue m)(i := None)\<rparr>"

subsection \<open>Creating and queueing commands\<close>

definition add_command :: "string \<Rightarrow> 'h \<Rightarrow> ('d, 'h, 'w) manager \<Rightarrow> ('d, 'h, 'w) manager" where
  "add_command name handler m = m\<lparr>handlers := (handlers m)(name \<mapsto> handler)\<rparr>"

text \<open>The counter is advanced before \<open>handlers_.at(name)\<close> can throw.\<close>

definition make_command ::
  "string \<Rightarrow> 'd \<Rightarrow> u64 \<Rightarrow> 'h option \<Rightarrow> ('d, 'h, 'w) manager
     \<Rightarrow> ('d, 'h, 'w) manager \<times> cmd_ptr outcome"
where
  "make_command name dat qid done_cb m =
     (let m1 = m\<lparr>command_counter := command_counter m + 1\<rparr>;
          B = \<lparr>bd_name = name, bd_queue_id = qid, bd_task_id = ucast (command_counter m1),
               bd_queue_size = 0, bd_type = USER\<rparr>
      in case map_at (handlers m1) name of
           Return h \<Rightarrow>
             (case alloc_cmd (new_command B (Some h) dat done_cb) m1 of (m2, p) \<Rightarrow> (m2, Return p))
         | Raise e \<Rightarrow> (m1, Raise e)
         | Undefined \<Rightarrow> (m1, Undefined))"

text \<open>\<open>make_async_command\<close> presets a handler that does nothing; \<open>noop\<close> names it.\<close>

definition make_async_command ::
  "'h \<Rightarrow> string \<Rightarrow> 'd \<Rightarrow> u64 \<Rightarrow> ('d, 'h, 'w) manager \<Rightarrow> ('d, 'h, 'w) manager \<times> cmd_ptr outcome"
where
  "make_async_command noop name dat qid m =
     (case make_command name dat qid None m of
        (m1, Return p) \<Rightarrow> (upd_cmd p (set_async_handler noop) m1, Return p)
      | (m1, r) \<Rightarrow> (m1, r))"

definition make_builtin_command ::
  "'d \<Rightarrow> u64 \<Rightarrow> u64 \<Rightarrow> CommandType \<Rightarrow> ('d, 'h, 'w) manager \<Rightarrow> ('d, 'h, 'w) manager \<times> cmd_ptr"
where
  "make_builtin_command default_data qid size_arg t m =
     (let B = \<lparr>bd_name = [], bd_queue_id = qid, bd_task_id = 0, bd_queue_size = size_arg, bd_type = t\<rparr>
      in case alloc_cmd (new_command B None default_data None) m of
           (m1, p) \<Rightarrow> (m1\<lparr>command_counter := command_counter m1 + 1\<rparr>, p))"

definition enqueue_command :: "cmd_ptr \<Rightarrow> ('d, 'h, 'w) manager \<Rightarrow> ('d, 'h, 'w) manager" where
  "enqueue_command p m = m\<lparr>work_queue := wq_push (QueueCompare (store m)) p (work_queue m)\<rparr>"

text \<open>\<open>execute_create_queue\<close> and \<open>execute_destroy_queue\<close> enqueue a built-in command and then
  block until its result code is set; \<open>wait_over\<close> is the condition they wait for.\<close>

definition execute_create_queue ::
  "'d \<Rightarrow> u64 \<Rightarrow> u64 \<Rightarrow> ('d, 'h, 'w) manager \<Rightarrow> ('d, 'h, 'w) manager \<times> cmd_ptr"
where
  "execute_create_queue default_data qid size_arg m =
     (case make_builtin_command default_data qid size_arg CREATE_QUEUE m of
        (m1, p) \<Rightarrow> (enqueue_command p m1, p))"

definition execute_destroy_queue ::
  "'d \<Rightarrow> u64 \<Rightarrow> ('d, 'h, 'w) manager \<Rightarrow> ('d, 'h, 'w) manager \<times> cmd_ptr"
where
  "execute_destroy_queue default_data qid m =
     (case make_builtin_command default_data qid 0 DESTROY_QUEUE m of
        (m1, p) \<Rightarrow> (enqueue_command p m1, p))"

definition wait_over :: "cmd_ptr \<Rightarrow> ('d, 'h, 'w) manager \<Rightarrow> bool" where
  "wait_over p m \<longleftrightarrow> (case store m p of None \<Rightarrow> False | Some c \<Rightarrow> result_code c \<noteq> RC_NONE)"

text \<open>\<open>start\<close> and \<open>shutdown\<close>; \<open>shutdown\<close> then joins the worker thread.\<close>

definition cm_start :: "('d, 'h, 'w) manager \<Rightarrow> ('d, 'h, 'w) manager outcome" where
  "cm_start m =
     (if has_worker m
      then Raise (runtime_error ''command manager worker thread already exists'')
      else Return (m\<lparr>has_worker := True\<rparr>))"

definition cm_shutdown :: "'d \<Rightarrow> ('d, 'h, 'w) manager \<Rightarrow> ('d, 'h, 'w) manager" where
  "cm_shutdown default_data m =
     (case make_builtin_command default_data 0 0 SHUTDOWN m of (m1, p) \<Rightarrow> enqueue_command p m1)"

subsection \<open>The worker\<close>

text \<open>
  \<open>emplace_user_command\<close> in two steps, because other threads run in between: first the
  handler, then the result code, the pending list and the result queue.
\<close>

definition user_command_run ::
  "('d, 'h, 'w) interp \<Rightarrow> cmd_ptr \<Rightarrow> ('d, 'h) command \<Rightarrow> ('d, 'h, 'w) manager
     \<Rightarrow> ('d, 'h, 'w) manager"
where
  "user_command_run call p c m =
     (case cmd_run call p (world m) (c\<lparr>result_code := RC_NONE\<rparr>) of
        (w', c', e) \<Rightarrow> m\<lparr>world := w', store := (store m)(p \<mapsto> c'), worker_state := WRan p e\<rparr>)"

definition user_command_code :: "exn option \<Rightarrow> ('d, 'h) command \<Rightarrow> ('d, 'h) command" where
  "user_command_code e c =
     (case e of None \<Rightarrow> c\<lparr>result_code := RC_OK\<rparr> | Some x \<Rightarrow> set_error (what x) c)"

definition user_command_publish ::
  "cmd_ptr \<Rightarrow> exn option \<Rightarrow> ('d, 'h) command \<Rightarrow> ('d, 'h, 'w) manager
     \<Rightarrow> ('d, 'h, 'w) manager outcome"
where
  "user_command_publish p e c m =
     (let c1 = user_command_code e c;
          m1 = m\<lparr>store := (store m)(p \<mapsto> c1), worker_state := WIdle,
                 pending_commands := pending_commands m @ (if pending c1 then [task_id c1] else [])\<rparr>
      in if discard_result c1 then Return m1
         else (case results_queue m1 (queue_id c1) of
                 None \<Rightarrow> Return m1
               | Some rq \<Rightarrow>
                   (case aq_emplace rb_ops [] p (rq_queue rq) of
                      None \<Rightarrow> Return m1
                    | Some r \<Rightarrow>
                        obind r (\<lambda>aq. Return (m1\<lparr>results_queue := (results_queue m1)
                            (queue_id c1 \<mapsto> rq\<lparr>rq_queue := aq\<rparr>)\<rparr>)))))"

text \<open>One round of the worker's loop, for a non-empty work queue.\<close>

definition worker_pick ::
  "('d, 'h, 'w) interp \<Rightarrow> ('d, 'h, 'w) manager \<Rightarrow> ('d, 'h, 'w) manager outcome"
where
  "worker_pick call m =
     obind (wq_top (work_queue m)) (\<lambda>p.
     obind (wq_pop (QueueCompare (store m)) (work_queue m)) (\<lambda>wq.
       let m1 = m\<lparr>work_queue := wq\<rparr>
       in case store m1 p of
            None \<Rightarrow> Undefined
          | Some c \<Rightarrow>
              (case cmd_type c of
                 CREATE_QUEUE \<Rightarrow>
                   Return (upd_cmd p (\<lambda>c. c\<lparr>result_code := RC_OK\<rparr>)
                     (create_queue (queue_id c) (queue_size c) m1))
               | DESTROY_QUEUE \<Rightarrow>
                   Return (upd_cmd p (\<lambda>c. c\<lparr>result_code := RC_OK\<rparr>)
                     (destroy_queue (queue_id c) m1))
               | SHUTDOWN \<Rightarrow> Return (m1\<lparr>active := False\<rparr>)
               | USER \<Rightarrow> Return (user_command_run call p c m1))))"

definition worker_finish :: "('d, 'h, 'w) manager \<Rightarrow> ('d, 'h, 'w) manager outcome" where
  "worker_finish m =
     (case worker_state m of
        WIdle \<Rightarrow> Return m
      | WRan p e \<Rightarrow>
          (case store m p of None \<Rightarrow> Undefined | Some c \<Rightarrow> user_command_publish p e c m))"

text \<open>One step of the worker thread; \<open>None\<close> while it waits or after it has left its loop.\<close>

definition worker_step ::
  "('d, 'h, 'w) interp \<Rightarrow> ('d, 'h, 'w) manager \<Rightarrow> ('d, 'h, 'w) manager outcome option"
where
  "worker_step call m =
     (case worker_state m of
        WRan p e \<Rightarrow> Some (worker_finish m)
      | WIdle \<Rightarrow>
          (if active m \<and> work_queue m \<noteq> [] then Some (worker_pick call m) else None))"

text \<open>The worker running alone for at most \<open>n\<close> steps.\<close>

fun worker_run ::
  "('d, 'h, 'w) interp \<Rightarrow> nat \<Rightarrow> ('d, 'h, 'w) manager \<Rightarrow> ('d, 'h, 'w) manager outcome"
where
  "worker_run call 0 m = Return m"
| "worker_run call (Suc n) m =
     (case worker_step call m of
        None \<Rightarrow> Return m
      | Some r \<Rightarrow> obind r (worker_run call n))"

subsection \<open>Polling results\<close>

text \<open>The predicate passed to \<open>pop\<close>: the command is no longer pending.\<close>

definition not_pending :: "('d, 'h, 'w) manager \<Rightarrow> cmd_ptr \<Rightarrow> bool" where
  "not_pending m p \<longleftrightarrow> (case store m p of None \<Rightarrow> True | Some c \<Rightarrow> \<not> pending c)"

definition ptr_task_id :: "('d, 'h, 'w) manager \<Rightarrow> cmd_ptr \<Rightarrow> u64" where
  "ptr_task_id m p = (case store m p of None \<Rightarrow> 0 | Some c \<Rightarrow> task_id c)"

text \<open>
  \<open>flush_results\<close> with \<open>count = 0\<close>, the value its caller passes. \<open>env\<close> is what the other
  threads do while \<open>pop\<close> waits. The source keeps a reference into the map across the wait,
  so it is undefined when the queue has been destroyed meanwhile.
\<close>

definition flush_results ::
  "u64 \<Rightarrow> duration_t \<Rightarrow> (('d, 'h, 'w) manager \<Rightarrow> ('d, 'h, 'w) manager) \<Rightarrow> ('d, 'h, 'w) manager
     \<Rightarrow> ('d, 'h, 'w) manager \<times> cmd_ptr list outcome"
where
  "flush_results i timeout env m =
     (case results_queue m i of
        None \<Rightarrow> (m, Raise (out_of_range (''no such queue '' @ show_nat (unat i))))
      | Some rq \<Rightarrow>
          (let m1 = (if timeout > 0 \<and> aq_empty rb_ops (rq_queue rq) then env m else m)
           in case results_queue m1 i of
                None \<Rightarrow> (m1, Undefined)
              | Some rq1 \<Rightarrow>
                  (if rq_obj rq1 \<noteq> rq_obj rq then (m1, Undefined)
                   else (case aq_pop rb_ops 0 timeout (Some (not_pending m1)) [] (rq_queue rq1) of
                           Some (Return (res, aq)) \<Rightarrow>
                             (m1\<lparr>results_queue := (results_queue m1)(i \<mapsto> rq1\<lparr>rq_queue := aq\<rparr>),
                                 pending_commands :=
                                   filter (\<lambda>t. t \<notin> ptr_task_id m1 ` set res) (pending_commands m1)\<rparr>,
                              Return res)
                         | Some (Raise e) \<Rightarrow> (m1, Raise e)
                         | Some Undefined \<Rightarrow> (m1, Undefined)
                         | None \<Rightarrow> (m1, Undefined)))))"

text \<open>The game thread runs the asynchronous part of a command, through a raw pointer: the
  object must still be owned by somebody.\<close>

definition owned :: "('d, 'h, 'w) manager \<Rightarrow> cmd_ptr \<Rightarrow> bool" where
  "owned m p \<longleftrightarrow> p \<in> set (work_queue m) \<or> (\<exists>e. worker_state m = WRan p e)
     \<or> (\<exists>i rq. results_queue m i = Some rq \<and> p \<in> set (rb_q (aq_q (rq_queue rq))))"

definition game_run_async ::
  "('d, 'h, 'w) interp \<Rightarrow> cmd_ptr \<Rightarrow> ('d, 'h, 'w) manager \<Rightarrow> ('d, 'h, 'w) manager outcome"
where
  "game_run_async call p m =
     (if \<not> owned m p then Undefined
      else (case store m p of
              None \<Rightarrow> Undefined
            | Some c \<Rightarrow>
                (case run_async_handler call p (world m) c of
                   (w', c') \<Rightarrow> Return (m\<lparr>world := w', store := (store m)(p \<mapsto> c')\<rparr>))))"

section \<open>Basic facts\<close>

lemma QueueCompare_ge_on: "QueueCompare st = ge_on (prio st)"
  by (simp add: QueueCompare_def ge_on_def fun_eq_iff)

lemma base_data_invoke [simp]:
  "invoke call f p w c = (w', c', e) \<Longrightarrow> base_data c' = base_data c"
  by (auto simp: invoke_def split: option.splits prod.splits)

lemma base_data_cmd_run:
  "cmd_run call p w c = (w', c', e) \<Longrightarrow> base_data c' = base_data c"
  by (auto simp: cmd_run_def split: prod.splits option.splits dest!: base_data_invoke)

lemma base_data_run_async:
  "run_async_handler call p w c = (w', c') \<Longrightarrow> base_data c' = base_data c"
  by (auto simp: run_async_handler_def set_error_def split: prod.splits option.splits
      dest!: base_data_invoke)

lemma base_data_user_command_code [simp]: "base_data (user_command_code e c) = base_data c"
  by (simp add: user_command_code_def set_error_def split: option.splits)

lemma pending_run_async [simp]: "run_async_handler call p w c = (w', c') \<Longrightarrow> \<not> pending c'"
  by (auto simp: run_async_handler_def split: prod.splits option.splits)

text \<open>An unbounded \<open>AsyncQueue\<close> over a ring buffer never blocks and never fails.\<close>

lemma result_emplace:
  assumes "rb_wf (aq_q aq)" and "aq_max aq = 0"
  shows "\<exists>aq'. aq_emplace rb_ops [] p aq = Some (Return aq') \<and> aq_max aq' = 0 \<and> rb_wf (aq_q aq')
    \<and> rb_max (aq_q aq') = rb_max (aq_q aq)
    \<and> rb_q (aq_q aq') = drop (Suc (length (rb_q (aq_q aq))) - rb_max (aq_q aq)) (rb_q (aq_q aq) @ [p])"
  using rb_emplace_wf_Return [OF assms(1), of p] assms(2)
  by (auto simp: aq_emplace_def aq_full_def rb_ops_def)

text \<open>What a poll of a result queue takes and leaves, in vector order.\<close>

lemma result_pop:
  assumes "rb_wf (aq_q aq)"
  shows "\<exists>aq'. aq_pop rb_ops 0 timeout (Some P) [] aq =
      Some (Return (rev (filter P (rb_q (aq_q aq))), aq'))
    \<and> aq_max aq' = aq_max aq \<and> rb_wf (aq_q aq') \<and> rb_max (aq_q aq') = rb_max (aq_q aq)
    \<and> rb_q (aq_q aq') = rev (filter (\<lambda>x. \<not> P x) (rb_q (aq_q aq)))"
proof (cases "rb_view (aq_q aq) = []")
  case True
  then have "rb_q (aq_q aq) = []" by (simp add: rb_view_def)
  moreover have "aq_pop_loop rb_ops 0 timeout (Some P) [] (aq_q aq) [] = Some (Return ([], aq_q aq))"
    by (rule lifo.pop_empty [OF assms True]) simp
  ultimately show ?thesis using assms by (auto simp: aq_pop_def)
next
  case False
  from lifo.pop_all_ready [OF assms False, of timeout "Some P" "[]" "[]"] obtain q' where
    q': "aq_pop_loop rb_ops 0 timeout (Some P) [] (aq_q aq) [] =
        Some (Return (filter P (rb_view (aq_q aq)), q'))"
    "rb_wf q'" "rb_view q' = rev (filter (\<lambda>x. \<not> P x) (rb_view (aq_q aq)))"
    "rb_holds q' = rb_holds (aq_q aq)"
    by (auto simp: fold_Cons_rev)
  have "rb_max q' = rb_max (aq_q aq)"
    using q'(4) by (metis rb_holds_def order_antisym order_refl)
  moreover have "rb_q q' = rev (filter (\<lambda>x. \<not> P x) (rb_q (aq_q aq)))"
    using q'(3) by (metis rb_view_def rev_rev_ident rev_filter)
  ultimately show ?thesis
    using q' by (auto simp: aq_pop_def rb_view_def rev_filter)
qed

text \<open>\<open>flush_results\<close> computed.\<close>

lemma flush_results_eq:
  assumes "results_queue m i = Some rq"
    and m1: "m1 = (if timeout > 0 \<and> aq_empty rb_ops (rq_queue rq) then env m else m)"
    and rq1: "results_queue m1 i = Some rq1" "rq_obj rq1 = rq_obj rq"
    and wf: "rb_wf (aq_q (rq_queue rq1))"
  shows "\<exists>aq. flush_results i timeout env m =
      (m1\<lparr>results_queue := (results_queue m1)(i \<mapsto> rq1\<lparr>rq_queue := aq\<rparr>),
          pending_commands := filter
            (\<lambda>t. t \<notin> ptr_task_id m1 ` {p \<in> set (rb_q (aq_q (rq_queue rq1))). not_pending m1 p})
            (pending_commands m1)\<rparr>,
       Return (rev (filter (not_pending m1) (rb_q (aq_q (rq_queue rq1))))))
    \<and> aq_max aq = aq_max (rq_queue rq1) \<and> rb_wf (aq_q aq)
    \<and> rb_max (aq_q aq) = rb_max (aq_q (rq_queue rq1))
    \<and> rb_q (aq_q aq) = rev (filter (\<lambda>p. \<not> not_pending m1 p) (rb_q (aq_q (rq_queue rq1))))"
proof -
  from result_pop [OF wf, of timeout "not_pending m1"] obtain aq where
    aq: "aq_pop rb_ops 0 timeout (Some (not_pending m1)) [] (rq_queue rq1) =
      Some (Return (rev (filter (not_pending m1) (rb_q (aq_q (rq_queue rq1)))), aq))"
    "aq_max aq = aq_max (rq_queue rq1)" "rb_wf (aq_q aq)"
    "rb_max (aq_q aq) = rb_max (aq_q (rq_queue rq1))"
    "rb_q (aq_q aq) = rev (filter (\<lambda>x. \<not> not_pending m1 x) (rb_q (aq_q (rq_queue rq1))))"
    by blast
  show ?thesis
    by (rule exI [of _ aq])
      (simp add: flush_results_def assms(1) m1 [symmetric] rq1 aq Let_def)
qed

end
