(* ===== verification/Command_Steps.thy ===== *)
theory Command_Steps
  imports Command_Manager
begin

text \<open>
  The command manager as a concurrent system: client threads that submit commands and poll
  results, the worker thread, and the game thread that finishes asynchronous commands. One
  rule of \<open>cm_step\<close> is one critical section of one thread, so a run of \<open>cm_step\<close> is an
  interleaving of the threads. The invariant \<open>cm_wf\<close> holds in every reachable state.
\<close>

inductive cm_step :: "('d, 'h, 'w) interp \<Rightarrow> ('d, 'h, 'w) manager \<Rightarrow> ('d, 'h, 'w) manager \<Rightarrow> bool"
  for call where
  step_add: "cm_step call m (add_command name h m)"
| step_submit: "make_command name dat qid cb m = (m1, Return p) \<Longrightarrow>
     cm_step call m (enqueue_command p (upd_cmd p (\<lambda>c. c\<lparr>discard_result := b\<rparr>) m1))"
| step_submit_fail: "make_command name dat qid cb m = (m1, Raise e) \<Longrightarrow> cm_step call m m1"
| step_create: "0 < unat (ucast sz :: u32) \<Longrightarrow> execute_create_queue dat qid sz m = (m1, p) \<Longrightarrow>
     cm_step call m m1"
| step_destroy: "execute_destroy_queue dat qid m = (m1, p) \<Longrightarrow> cm_step call m m1"
| step_shutdown: "cm_step call m (cm_shutdown dat m)"
| step_worker: "worker_step call m = Some (Return m1) \<Longrightarrow> cm_step call m m1"
| step_poll: "flush_results i timeout (\<lambda>m. m) m = (m1, Return res) \<Longrightarrow> cm_step call m m1"
| step_game: "store m p = Some c \<Longrightarrow> async_handler c \<noteq> None \<Longrightarrow>
     game_run_async call p m = Return m1 \<Longrightarrow> cm_step call m m1"

text \<open>Runs, with the commands whose handler the worker started, in order.\<close>

definition started :: "('d, 'h, 'w) manager \<Rightarrow> ('d, 'h, 'w) manager \<Rightarrow> cmd_ptr list" where
  "started m m' =
     (case (worker_state m, worker_state m') of (WIdle, WRan p e) \<Rightarrow> [p] | _ \<Rightarrow> [])"

inductive cm_exec ::
  "('d, 'h, 'w) interp \<Rightarrow> ('d, 'h, 'w) manager \<Rightarrow> cmd_ptr list \<Rightarrow> ('d, 'h, 'w) manager \<Rightarrow> bool"
  for call where
  exec_refl: "cm_exec call m [] m"
| exec_step: "cm_exec call m ps m1 \<Longrightarrow> cm_step call m1 m2 \<Longrightarrow> cm_exec call m (ps @ started m1 m2) m2"

section \<open>The invariant\<close>

text \<open>The invariant only reads the constant part of the stored commands.\<close>

definition bases :: "('d, 'h, 'w) manager \<Rightarrow> cmd_ptr \<rightharpoonup> BaseData" where
  "bases m p = map_option base_data (store m p)"

definition base_prio :: "(cmd_ptr \<rightharpoonup> BaseData) \<Rightarrow> cmd_ptr \<Rightarrow> nat" where
  "base_prio b p = (case b p of None \<Rightarrow> 0 | Some B \<Rightarrow> type_code (bd_type B))"

text \<open>The worker's current command, if it is between the handler and the result.\<close>

definition running :: "('d, 'h, 'w) manager \<Rightarrow> cmd_ptr set" where
  "running m = (case worker_state m of WIdle \<Rightarrow> {} | WRan p e \<Rightarrow> {p})"

abbreviation ptrs :: "result_q \<Rightarrow> cmd_ptr list" where
  "ptrs rq \<equiv> rb_q (aq_q (rq_queue rq))"

definition wf_work :: "(cmd_ptr \<rightharpoonup> BaseData) \<Rightarrow> cmd_ptr list \<Rightarrow> bool" where
  "wf_work b wq \<longleftrightarrow> distinct wq \<and> is_heap (base_prio b) wq
     \<and> (\<forall>p \<in> set wq. \<exists>B. b p = Some B
          \<and> (bd_type B = CREATE_QUEUE \<longrightarrow> 0 < unat (ucast (bd_queue_size B) :: u32)))"

definition wf_result :: "(cmd_ptr \<rightharpoonup> BaseData) \<Rightarrow> cmd_ptr set \<Rightarrow> u64 \<Rightarrow> result_q \<Rightarrow> bool" where
  "wf_result b busy i rq \<longleftrightarrow> aq_max (rq_queue rq) = 0 \<and> rb_wf (aq_q (rq_queue rq))
     \<and> distinct (ptrs rq) \<and> set (ptrs rq) \<inter> busy = {}
     \<and> (\<forall>p \<in> set (ptrs rq). \<exists>B. b p = Some B \<and> bd_queue_id B = i \<and> bd_type B = USER)"

definition cm_wf :: "('d, 'h, 'w) manager \<Rightarrow> bool" where
  "cm_wf m \<longleftrightarrow> wf_work (bases m) (work_queue m)
     \<and> dom (bases m) \<subseteq> {..<next_addr m}
     \<and> running m \<inter> set (work_queue m) = {}
     \<and> (\<forall>p \<in> running m. \<exists>B. bases m p = Some B \<and> bd_type B = USER)
     \<and> (\<forall>i rq. results_queue m i = Some rq \<longrightarrow>
          wf_result (bases m) (set (work_queue m) \<union> running m) i rq)"

lemma prio_bases: "prio (store m) = base_prio (bases m)"
  by (auto simp: prio_def base_prio_def bases_def fun_eq_iff split: option.splits)

lemma compare_bases: "QueueCompare (store m) = ge_on (base_prio (bases m))"
  by (simp add: QueueCompare_ge_on prio_bases)

text \<open>Steps that change neither the queues nor the constant part of a command.\<close>

lemma cm_wf_same:
  assumes "cm_wf m" and "bases m' = bases m" and "work_queue m' = work_queue m"
    and "results_queue m' = results_queue m" and "next_addr m \<le> next_addr m'"
    and "running m' = running m"
  shows "cm_wf m'"
  using assms by (auto simp: cm_wf_def)

lemma bases_upd_Some:
  "store m p = Some c \<Longrightarrow> base_data c' = base_data c \<Longrightarrow>
     bases (m\<lparr>store := (store m)(p \<mapsto> c')\<rparr>) = bases m"
  by (auto simp: bases_def fun_eq_iff)

lemma bases_upd_cmd: "(\<And>c. base_data (f c) = base_data c) \<Longrightarrow> bases (upd_cmd p f m) = bases m"
  by (auto simp: bases_def upd_cmd_def fun_eq_iff option.map_comp comp_def)

lemma manager_frame [frame]:
  "bases (m\<lparr>work_queue := wq\<rparr>) = bases m" "running (m\<lparr>work_queue := wq\<rparr>) = running m"
  "bases (m\<lparr>results_queue := rs\<rparr>) = bases m" "running (m\<lparr>results_queue := rs\<rparr>) = running m"
  "bases (m\<lparr>pending_commands := pc\<rparr>) = bases m" "running (m\<lparr>pending_commands := pc\<rparr>) = running m"
  "bases (m\<lparr>command_counter := k\<rparr>) = bases m" "running (m\<lparr>command_counter := k\<rparr>) = running m"
  "bases (m\<lparr>handlers := hs\<rparr>) = bases m" "running (m\<lparr>handlers := hs\<rparr>) = running m"
  "bases (m\<lparr>active := a\<rparr>) = bases m" "running (m\<lparr>active := a\<rparr>) = running m"
  "bases (m\<lparr>world := w\<rparr>) = bases m" "running (m\<lparr>world := w\<rparr>) = running m"
  "bases (m\<lparr>next_addr := n\<rparr>) = bases m" "running (m\<lparr>next_addr := n\<rparr>) = running m"
  "bases (m\<lparr>worker_state := s\<rparr>) = bases m" "running (m\<lparr>store := st\<rparr>) = running m"
  "running (m\<lparr>worker_state := WIdle\<rparr>) = {}" "running (m\<lparr>worker_state := WRan p e\<rparr>) = {p}"
  by (simp_all add: bases_def running_def fun_eq_iff)

lemma upd_cmd_frame [frame]:
  "work_queue (upd_cmd p f m) = work_queue m" "results_queue (upd_cmd p f m) = results_queue m"
  "next_addr (upd_cmd p f m) = next_addr m" "running (upd_cmd p f m) = running m"
  "worker_state (upd_cmd p f m) = worker_state m" "active (upd_cmd p f m) = active m"
  by (simp_all add: upd_cmd_def frame)

lemma wf_work_mono:
  assumes "wf_work b wq" and "\<And>p. p \<in> set wq \<Longrightarrow> b' p = b p"
  shows "wf_work b' wq"
proof -
  have "base_prio b' p = base_prio b p" if "p \<in> set wq" for p
    using assms(2) [OF that] by (simp add: base_prio_def)
  then have "is_heap (base_prio b') wq = is_heap (base_prio b) wq"
    by (rule is_heap_cong)
  then show ?thesis using assms by (simp add: wf_work_def)
qed

text \<open>Allocation of a command and its insertion into the work queue.\<close>

lemma cm_wf_new_command:
  assumes wf: "cm_wf m"
    and "bd_type (base_data c) = CREATE_QUEUE \<longrightarrow> 0 < unat (ucast (bd_queue_size (base_data c)) :: u32)"
    and m1: "store m1 = (store m)(next_addr m \<mapsto> c)" "next_addr m1 = Suc (next_addr m)"
      "work_queue m1 = work_queue m" "results_queue m1 = results_queue m"
      "worker_state m1 = worker_state m"
  shows "cm_wf (enqueue_command (next_addr m) m1)"
proof -
  let ?p = "next_addr m"
  have fresh: "bases m ?p = None" using wf by (auto simp: cm_wf_def domIff)
  have b: "bases m1 = (bases m)(?p \<mapsto> base_data c)"
    using m1 by (auto simp: bases_def fun_eq_iff)
  have run: "running m1 = running m" using m1 by (simp add: running_def)
  have new: "?p \<notin> set (work_queue m)" "?p \<notin> running m"
    using wf fresh by (auto simp: cm_wf_def wf_work_def)
  have "wf_work (bases m1) (work_queue m)"
    using wf new(1) by (auto simp: cm_wf_def b intro: wf_work_mono)
  then have work: "wf_work (bases m1) (work_queue (enqueue_command ?p m1))"
    using assms(2) m1(3) new(1) is_heap_push [of "base_prio (bases m1)" "work_queue m" ?p]
    by (auto simp: wf_work_def enqueue_command_def compare_bases b)
  have set_wq: "set (work_queue (enqueue_command ?p m1)) = insert ?p (set (work_queue m))"
    by (simp add: enqueue_command_def m1)
  have res: "wf_result (bases m1) (insert ?p (set (work_queue m) \<union> running m)) i rq"
    if "results_queue m i = Some rq" for i rq
  proof -
    have w: "wf_result (bases m) (set (work_queue m) \<union> running m) i rq"
      using wf that by (simp add: cm_wf_def)
    then have "?p \<notin> set (ptrs rq)" using fresh by (auto simp: wf_result_def)
    with w show ?thesis by (auto simp: wf_result_def b)
  qed
  show ?thesis
    unfolding cm_wf_def set_wq using work wf new res m1
    by (auto simp: cm_wf_def enqueue_command_def frame run b)
qed

lemma wf_result_mono: "wf_result b busy i rq \<Longrightarrow> busy' \<subseteq> busy \<Longrightarrow> wf_result b busy' i rq"
  by (auto simp: wf_result_def)

text \<open>The command the worker takes next.\<close>

lemma wf_work_next:
  assumes wf: "wf_work b wq" and ne: "wq \<noteq> []"
  obtains p wq' B where "wq_top wq = Return p" "wq_pop (ge_on (base_prio b)) wq = Return wq'"
    "b p = Some B" "set wq = insert p (set wq')" "p \<notin> set wq'" "wf_work b wq'"
    "\<forall>q \<in> set wq. base_prio b p \<le> base_prio b q" "length wq = Suc (length wq')"
proof -
  have heap: "is_heap (base_prio b) wq" using wf by (simp add: wf_work_def)
  have ne': "mset wq \<noteq> {#}" using ne by simp
  from heap_wq.top_least [OF heap ne'] obtain p where
    p: "wq_top wq = Return p" "p \<in># mset wq" "\<forall>q \<in># mset wq. base_prio b p \<le> base_prio b q"
    by blast
  from heap_wq.pop_elems [OF heap p(1) ne'] obtain wq' where
    q: "wq_pop (ge_on (base_prio b)) wq = Return wq'" "is_heap (base_prio b) wq'"
      "mset wq' = mset wq - {#p#}" by blast
  have eq: "mset wq = mset (p # wq')" using p(2) q(3) by simp
  have d: "distinct (p # wq')"
    using wf mset_eq_imp_distinct_iff [OF eq] by (simp add: wf_work_def)
  note s = mset_eq_setD [OF eq] and l = mset_eq_length [OF eq]
  obtain B where "b p = Some B" using wf p(2) by (auto simp: wf_work_def)
  moreover have "wf_work b wq'" using wf d s q(2) by (auto simp: wf_work_def)
  ultimately show ?thesis using that p q d s l by auto
qed

text \<open>What the worker's choice of a command \<open>p\<close> does to the manager.\<close>

definition picked ::
  "('d, 'h, 'w) manager \<Rightarrow> cmd_ptr \<Rightarrow> BaseData \<Rightarrow> ('d, 'h, 'w) manager \<Rightarrow> bool"
where
  "picked m p B m' \<longleftrightarrow> wq_top (work_queue m) = Return p \<and> bases m p = Some B \<and> bases m' = bases m
     \<and> set (work_queue m) = insert p (set (work_queue m')) \<and> p \<notin> set (work_queue m')
     \<and> length (work_queue m) = Suc (length (work_queue m'))
     \<and> (\<forall>q \<in> set (work_queue m). base_prio (bases m) p \<le> base_prio (bases m) q)
     \<and> next_addr m \<le> next_addr m'
     \<and> (bd_type B \<noteq> SHUTDOWN \<longrightarrow> active m' = active m)
     \<and> (bd_type B \<noteq> USER \<longrightarrow> worker_state m' = WIdle)
     \<and> (bd_type B = USER \<longrightarrow> (\<exists>e. worker_state m' = WRan p e))
     \<and> (bd_type B \<in> {CREATE_QUEUE, DESTROY_QUEUE} \<longrightarrow> wait_over p m')"

lemma cm_wf_pick:
  assumes wf: "cm_wf m" and idle: "worker_state m = WIdle" and ne: "work_queue m \<noteq> []"
  obtains p B m' where "worker_pick call m = Return m'" "cm_wf m'" "picked m p B m'"
proof -
  have "wf_work (bases m) (work_queue m)" using wf by (simp add: cm_wf_def)
  from wf_work_next [OF this ne] obtain p wq' B where
    t: "wq_top (work_queue m) = Return p"
      "wq_pop (QueueCompare (store m)) (work_queue m) = Return wq'"
    and B: "bases m p = Some B" and s: "set (work_queue m) = insert p (set wq')" "p \<notin> set wq'"
    and w': "wf_work (bases m) wq'" and l: "length (work_queue m) = Suc (length wq')"
    and least: "\<forall>q \<in> set (work_queue m). base_prio (bases m) p \<le> base_prio (bases m) q"
    unfolding compare_bases by metis
  from B obtain c where c: "store m p = Some c" "base_data c = B" by (auto simp: bases_def)
  let ?m1 = "m\<lparr>work_queue := wq'\<rparr>"
  let ?ok = "upd_cmd p (\<lambda>c. c\<lparr>result_code := RC_OK\<rparr>)"
  have run: "running m = {}" using idle by (simp add: running_def)
  have res: "wf_result (bases m) (insert p (set wq')) i rq" if "results_queue m i = Some rq" for i rq
    using wf that s run by (auto simp: cm_wf_def)
  have wf1: "cm_wf ?m1"
    using wf w' res run by (auto simp: cm_wf_def frame intro: wf_result_mono)
  have b_ok: "bases (?ok x) = bases x" for x :: "('a, 'b, 'c) manager"
    by (rule bases_upd_cmd) simp
  have over: "wait_over p (?ok x)" if "store x = store m" for x :: "('a, 'b, 'c) manager"
    using c(1) that by (simp add: wait_over_def upd_cmd_def)
  note facts = t(1) B s l least
  show ?thesis
  proof (cases "bd_type B")
    case CREATE_QUEUE
    let ?m2 = "create_queue (queue_id c) (queue_size c) ?m1"
    have sz: "0 < queue_size c"
      using wf B CREATE_QUEUE s c(2) by (auto simp: cm_wf_def wf_work_def queue_size_def)
    have fr: "bases ?m2 = bases m" "work_queue ?m2 = wq'" "active ?m2 = active m"
      "worker_state ?m2 = WIdle" "store ?m2 = store m" "next_addr m \<le> next_addr ?m2"
      by (simp_all add: create_queue_def frame idle)
    have "cm_wf ?m2"
      using wf1 sz by (auto simp: cm_wf_def create_queue_def frame wf_result_def aq_new_def
          rb_new_def rb_wf_def less_Suc_eq)
    then have wf2: "cm_wf (?ok ?m2)"
      by (rule cm_wf_same) (simp_all add: b_ok frame)
    have "worker_pick call m = Return (?ok ?m2)"
      using t c CREATE_QUEUE by (simp add: worker_pick_def)
    moreover have "wait_over p (?ok ?m2)" by (rule over) (rule fr(5))
    ultimately show ?thesis
      using that [of "?ok ?m2" p B] wf2 facts fr CREATE_QUEUE by (simp add: picked_def b_ok frame)
  next
    case DESTROY_QUEUE
    let ?m2 = "destroy_queue (queue_id c) ?m1"
    have "cm_wf ?m2"
      using wf1 by (auto simp: cm_wf_def destroy_queue_def frame split: if_splits)
    then have wf2: "cm_wf (?ok ?m2)"
      by (rule cm_wf_same) (simp_all add: b_ok frame)
    have "worker_pick call m = Return (?ok ?m2)"
      using t c DESTROY_QUEUE by (simp add: worker_pick_def)
    moreover have "wait_over p (?ok ?m2)" by (rule over) (simp add: destroy_queue_def)
    ultimately show ?thesis
      using that [of "?ok ?m2" p B] wf2 facts DESTROY_QUEUE idle
      by (simp add: picked_def b_ok frame destroy_queue_def)
  next
    case SHUTDOWN
    have "cm_wf (?m1\<lparr>active := False\<rparr>)"
      using wf1 by (rule cm_wf_same) (simp_all add: frame)
    moreover have "worker_pick call m = Return (?m1\<lparr>active := False\<rparr>)"
      using t c SHUTDOWN by (simp add: worker_pick_def)
    ultimately show ?thesis
      using that [of "?m1\<lparr>active := False\<rparr>" p B] facts SHUTDOWN idle
      by (simp add: picked_def frame)
  next
    case USER
    obtain w' c' e where r: "cmd_run call p (world m) (c\<lparr>result_code := RC_NONE\<rparr>) = (w', c', e)"
      by (metis prod_cases3)
    let ?m2 = "user_command_run call p c ?m1"
    have m2: "?m2 = ?m1\<lparr>world := w', store := (store m)(p \<mapsto> c'), worker_state := WRan p e\<rparr>"
      using r by (simp add: user_command_run_def)
    have b: "bases ?m2 = bases m"
      using c(1) base_data_cmd_run [OF r] unfolding m2 by (auto simp: bases_def fun_eq_iff)
    have "cm_wf ?m2"
      using wf w' res s c USER unfolding cm_wf_def b
      by (auto simp: m2 frame bases_def)
    moreover have "worker_pick call m = Return ?m2"
      using t c USER by (simp add: worker_pick_def)
    ultimately show ?thesis
      using that [of ?m2 p B] facts USER b by (simp add: picked_def m2)
  qed
qed

lemma cm_wf_finish:
  assumes wf: "cm_wf m" and ran: "worker_state m = WRan p e"
  shows "\<exists>m'. worker_finish m = Return m' \<and> cm_wf m' \<and> worker_state m' = WIdle
    \<and> work_queue m' = work_queue m \<and> active m' = active m \<and> bases m' = bases m
    \<and> next_addr m' = next_addr m"
proof -
  from wf ran obtain c where c: "store m p = Some c" "cmd_type c = USER"
    by (auto simp: cm_wf_def running_def bases_def)
  let ?c1 = "user_command_code e c"
  let ?m1 = "m\<lparr>store := (store m)(p \<mapsto> ?c1), worker_state := WIdle,
      pending_commands := pending_commands m @ (if pending ?c1 then [task_id ?c1] else [])\<rparr>"
  have b0: "bases (m\<lparr>store := (store m)(p \<mapsto> ?c1)\<rparr>) = bases m"
    using c(1) by (rule bases_upd_Some) simp
  then have b: "bases ?m1 = bases m" by (simp add: frame)
  have notin: "p \<notin> set (work_queue m)" using wf ran by (auto simp: cm_wf_def running_def)
  have "wf_result (bases m) (set (work_queue m)) i rq" if "results_queue m i = Some rq" for i rq
    using wf that unfolding cm_wf_def by (blast intro: wf_result_mono)
  then have wf1: "cm_wf ?m1"
    using wf unfolding cm_wf_def b by (auto simp: frame)
  have fin: "worker_finish m = user_command_publish p e c m"
    using ran c by (simp add: worker_finish_def)
  show ?thesis
  proof (cases "discard_result ?c1 \<or> results_queue m (queue_id c) = None")
    case True
    then show ?thesis
      using wf1 b by (auto simp: fin user_command_publish_def Let_def)
  next
    case False
    then obtain rq where rq: "results_queue m (queue_id c) = Some rq" and nd: "\<not> discard_result ?c1"
      by auto
    have wq: "wf_result (bases m) (set (work_queue m) \<union> {p}) (queue_id c) rq"
      using wf rq ran by (auto simp: cm_wf_def running_def)
    then have "rb_wf (aq_q (rq_queue rq))" "aq_max (rq_queue rq) = 0"
      by (auto simp: wf_result_def)
    from result_emplace [OF this, of p] obtain aq where
      aq: "aq_emplace rb_ops [] p (rq_queue rq) = Some (Return aq)" "aq_max aq = 0" "rb_wf (aq_q aq)"
        "rb_q (aq_q aq) = drop (Suc (length (ptrs rq)) - rb_max (aq_q (rq_queue rq))) (ptrs rq @ [p])"
      by blast
    have sub: "set (rb_q (aq_q aq)) \<subseteq> insert p (set (ptrs rq))"
      unfolding aq(4) by (metis set_drop_subset list.simps(15) set_append Un_insert_right sup_bot_right
          append_Nil2 list.set(1))
    have "distinct (ptrs rq @ [p])" using wq by (auto simp: wf_result_def)
    then have dis: "distinct (rb_q (aq_q aq))" unfolding aq(4) by (rule distinct_drop)
    have bp: "bases m p = Some (base_data c)" using c by (simp add: bases_def)
    have new: "wf_result (bases m) (set (work_queue m)) (queue_id c) (rq\<lparr>rq_queue := aq\<rparr>)"
      using wq sub dis aq(2,3) bp c(2) notin unfolding wf_result_def by auto
    let ?m2 = "?m1\<lparr>results_queue := (results_queue m)(queue_id c \<mapsto> rq\<lparr>rq_queue := aq\<rparr>)\<rparr>"
    have "cm_wf ?m2"
      using wf1 new unfolding cm_wf_def by (auto simp: frame b0)
    moreover have "worker_finish m = Return ?m2"
      using rq nd aq(1) by (simp add: fin user_command_publish_def Let_def)
    ultimately show ?thesis using b by (simp add: frame)
  qed
qed

lemma cm_wf_poll:
  assumes wf: "cm_wf m" and f: "flush_results i timeout (\<lambda>m. m) m = (m1, Return res)"
  shows "cm_wf m1 \<and> worker_state m1 = worker_state m \<and> work_queue m1 = work_queue m
    \<and> next_addr m1 = next_addr m \<and> active m1 = active m \<and> store m1 = store m"
proof -
  from f obtain rq where rq: "results_queue m i = Some rq"
    by (auto simp: flush_results_def split: option.splits)
  have w: "wf_result (bases m) (set (work_queue m) \<union> running m) i rq"
    using wf rq by (simp add: cm_wf_def)
  then have "rb_wf (aq_q (rq_queue rq))" by (simp add: wf_result_def)
  from flush_results_eq [OF rq refl, of timeout "\<lambda>m. m" rq] this rq obtain aq pc where
    m1: "m1 = m\<lparr>results_queue := (results_queue m)(i \<mapsto> rq\<lparr>rq_queue := aq\<rparr>), pending_commands := pc\<rparr>"
    and aq: "aq_max aq = aq_max (rq_queue rq)" "rb_wf (aq_q aq)"
      "rb_q (aq_q aq) = rev (filter (\<lambda>p. \<not> not_pending m p) (ptrs rq))"
    using f by auto
  have "wf_result (bases m) (set (work_queue m) \<union> running m) i (rq\<lparr>rq_queue := aq\<rparr>)"
    using w aq unfolding wf_result_def by auto
  then show ?thesis
    using wf by (auto simp: cm_wf_def m1 frame)
qed

lemma cm_wf_game:
  assumes wf: "cm_wf m" and g: "game_run_async call p m = Return m1"
  shows "cm_wf m1 \<and> worker_state m1 = worker_state m \<and> work_queue m1 = work_queue m
    \<and> next_addr m1 = next_addr m \<and> active m1 = active m \<and> (\<forall>q. q \<noteq> p \<longrightarrow> store m1 q = store m q)"
proof -
  from g obtain c where c: "store m p = Some c"
    by (auto simp: game_run_async_def split: if_splits option.splits)
  obtain w' c' where r: "run_async_handler call p (world m) c = (w', c')" by fastforce
  have m1: "m1 = m\<lparr>world := w', store := (store m)(p \<mapsto> c')\<rparr>"
    using g c r by (auto simp: game_run_async_def split: if_splits)
  have "bases m1 = bases m"
    using c base_data_run_async [OF r] unfolding m1 by (auto simp: bases_def fun_eq_iff)
  with wf have "cm_wf m1" by (rule cm_wf_same) (simp_all add: m1 frame)
  then show ?thesis by (simp add: m1)
qed

lemma make_command_cases:
  "make_command name dat qid cb m = (m1, r) \<Longrightarrow>
     (\<exists>h. handlers m name = Some h \<and> r = Return (next_addr m) \<and>
        m1 = m\<lparr>command_counter := command_counter m + 1,
               store := (store m)(next_addr m \<mapsto> new_command
                 \<lparr>bd_name = name, bd_queue_id = qid, bd_task_id = ucast (command_counter m + 1),
                  bd_queue_size = 0, bd_type = USER\<rparr> (Some h) dat cb),
               next_addr := Suc (next_addr m)\<rparr>)
     \<or> (handlers m name = None \<and> r = Raise (out_of_range ''map::at'')
        \<and> m1 = m\<lparr>command_counter := command_counter m + 1\<rparr>)"
  by (auto simp: make_command_def Let_def map_at_def alloc_cmd_def split: option.splits)

lemma cm_wf_submit:
  assumes wf: "cm_wf m" and mk: "make_command name dat qid cb m = (m1, Return p)"
  shows "cm_wf (enqueue_command p (upd_cmd p (\<lambda>c. c\<lparr>discard_result := b\<rparr>) m1))"
proof -
  from make_command_cases [OF mk] obtain c where
    p: "p = next_addr m" and m1: "m1 = m\<lparr>command_counter := command_counter m + 1,
        store := (store m)(next_addr m \<mapsto> c), next_addr := Suc (next_addr m)\<rparr>"
    and t: "cmd_type c = USER"
    by (auto simp: new_command_def)
  show ?thesis
    unfolding p
    by (rule cm_wf_new_command [OF wf, of "c\<lparr>discard_result := b\<rparr>"])
      (use t in \<open>auto simp: m1 upd_cmd_def\<close>)
qed

lemma cm_wf_builtin:
  assumes wf: "cm_wf m" and mk: "make_builtin_command dat qid sz t m = (m1, p)"
    and "t = CREATE_QUEUE \<longrightarrow> 0 < unat (ucast sz :: u32)"
  shows "cm_wf (enqueue_command p m1)"
proof -
  from mk have p: "p = next_addr m" by (auto simp: make_builtin_command_def Let_def alloc_cmd_def)
  show ?thesis
    unfolding p
    by (rule cm_wf_new_command [OF wf, of "new_command \<lparr>bd_name = [], bd_queue_id = qid,
          bd_task_id = 0, bd_queue_size = sz, bd_type = t\<rparr> None dat None"])
      (use mk assms(3) in \<open>auto simp: make_builtin_command_def Let_def alloc_cmd_def new_command_def\<close>)
qed

lemma cm_wf_init: "cm_wf (cm_init w)"
  by (simp add: cm_wf_def cm_init_def wf_work_def is_heap_def running_def bases_def dom_def)

lemma cm_wf_worker_step:
  assumes "cm_wf m" and "worker_step call m = Some r"
  shows "\<exists>m'. r = Return m' \<and> cm_wf m'"
proof (cases "worker_state m")
  case WIdle
  then have "work_queue m \<noteq> []" "r = worker_pick call m"
    using assms(2) by (auto simp: worker_step_def split: if_splits)
  then show ?thesis using cm_wf_pick [OF assms(1) WIdle] by metis
next
  case (WRan p e)
  then show ?thesis
    using cm_wf_finish [OF assms(1) WRan] assms(2) by (auto simp: worker_step_def)
qed

lemma cm_wf_step: "cm_step call m m1 \<Longrightarrow> cm_wf m \<Longrightarrow> cm_wf m1"
proof (induction rule: cm_step.induct)
  case (step_add m name h)
  then show ?case
    by (rule cm_wf_same) (simp_all add: add_command_def frame)
next
  case (step_submit name dat qid cb m m1 p b)
  then show ?case by (simp add: cm_wf_submit)
next
  case (step_submit_fail name dat qid cb m m1 e)
  then have "m1 = m\<lparr>command_counter := command_counter m + 1\<rparr>"
    by (auto dest: make_command_cases)
  then show ?case
    using step_submit_fail.prems by (auto simp: frame intro: cm_wf_same)
next
  case (step_create sz dat qid m m1 p)
  then show ?case
    by (auto simp: execute_create_queue_def split: prod.splits intro: cm_wf_builtin)
next
  case (step_destroy dat qid m m1 p)
  then show ?case
    by (auto simp: execute_destroy_queue_def split: prod.splits intro: cm_wf_builtin)
next
  case (step_shutdown m dat)
  then show ?case
    by (auto simp: cm_shutdown_def split: prod.splits intro: cm_wf_builtin)
next
  case (step_worker m m1)
  then show ?case by (auto dest: cm_wf_worker_step)
next
  case (step_poll i timeout m m1 res)
  then show ?case by (simp add: cm_wf_poll)
next
  case (step_game m p c m1)
  then show ?case using cm_wf_game by blast
qed

lemma cm_wf_exec: "cm_exec call m ps m1 \<Longrightarrow> cm_wf m \<Longrightarrow> cm_wf m1"
  by (induction rule: cm_exec.induct) (auto dest: cm_wf_step)

section \<open>Every command runs at most once\<close>

lemma worker_step_started:
  assumes wf: "cm_wf m" and st: "worker_step call m = Some (Return m1)"
  shows "next_addr m \<le> next_addr m1 \<and> distinct (started m m1)
    \<and> set (work_queue m1) \<union> set (started m m1) \<subseteq> set (work_queue m)
    \<and> set (work_queue m1) \<inter> set (started m m1) = {}"
proof (cases "worker_state m")
  case WIdle
  then have ne: "work_queue m \<noteq> []" and pk: "worker_pick call m = Return m1"
    using st by (auto simp: worker_step_def split: if_splits)
  from cm_wf_pick [OF wf WIdle ne, of call] pk obtain p B where "picked m p B m1"
    by (metis outcome.inject(1))
  note m1 = this [unfolded picked_def]
  have "started m m1 = (if bd_type B = USER then [p] else [])"
    using WIdle m1 by (auto simp: started_def)
  with m1 show ?thesis by auto
next
  case (WRan p e)
  then show ?thesis
    using cm_wf_finish [OF wf WRan] st by (auto simp: worker_step_def started_def)
qed

end
