(* ===== verification/Command_Properties.thy ===== *)
theory Command_Properties
  imports Command_Steps
begin

text \<open>
  What the invariant of \<open>Command_Steps\<close> gives about the command manager: commands run at
  most once and in priority order, the worker never dies and drains its queue, blocking
  callers are released, results reach the queue of the client that asked for them, and the
  behaviour around shutdown and asynchronous errors.
\<close>

section \<open>At most once\<close>

text \<open>What a step of any thread does to the work queue.\<close>

lemma cm_step_queue:
  assumes "cm_step call m m1" and "cm_wf m"
  shows "next_addr m \<le> next_addr m1 \<and> distinct (started m m1)
    \<and> set (work_queue m1) \<union> set (started m m1) \<subseteq> set (work_queue m) \<union> {next_addr m..<next_addr m1}
    \<and> set (work_queue m1) \<inter> set (started m m1) = {}"
  using assms
proof (cases rule: cm_step.cases)
  case (step_worker)
  then show ?thesis using worker_step_started [OF assms(2)] by blast
next
  case (step_poll i timeout res)
  then show ?thesis
    using cm_wf_poll [OF assms(2) step_poll] by (auto simp: started_def split: worker_pc.splits)
next
  case (step_game p c)
  then show ?thesis
    using cm_wf_game [OF assms(2) step_game(3)] by (auto simp: started_def split: worker_pc.splits)
qed (auto simp: started_def add_command_def enqueue_command_def upd_cmd_def make_builtin_command_def
      alloc_cmd_def execute_create_queue_def execute_destroy_queue_def cm_shutdown_def Let_def
      split: worker_pc.splits dest!: make_command_cases)

lemma exec_fresh:
  assumes "cm_exec call m0 ps m" and "cm_wf m0"
  shows "distinct ps \<and> set ps \<inter> set (work_queue m) = {} \<and> set ps \<subseteq> {..<next_addr m}"
  using assms
proof (induction rule: cm_exec.induct)
  case (exec_refl m)
  then show ?case by simp
next
  case (exec_step m ps m1 m2)
  have wf: "cm_wf m1" using exec_step cm_wf_exec by blast
  then have "set (work_queue m1) \<subseteq> {..<next_addr m1}"
    by (force simp: cm_wf_def wf_work_def)
  with cm_step_queue [OF exec_step.hyps(2) wf] exec_step.IH [OF exec_step.prems]
  show ?case by (auto simp: subset_iff disjoint_iff) (meson atLeastLessThan_iff leD)+
qed

text \<open>C2: Whatever the interleaving of the clients, the worker and the game thread, and
  whatever the handlers do, the worker starts the handler of a command at most once.\<close>

theorem commands_run_once:
  assumes "cm_exec call (cm_init w) ps m"
  shows "distinct ps"
  using exec_fresh [OF assms cm_wf_init] by simp

text \<open>A small run to evaluate: one handler that does nothing, two commands of one client.\<close>

definition demo_call :: "(unit, unit, unit) interp" where
  "demo_call h p w c = (w, c, None)"

definition demo_submit :: "(unit, unit, unit) manager \<Rightarrow> (unit, unit, unit) manager" where
  "demo_submit m = (case make_command ''x'' () 7 None m of
     (m1, Return p) \<Rightarrow> enqueue_command p (upd_cmd p (\<lambda>c. c\<lparr>discard_result := False\<rparr>) m1)
   | (m1, _) \<Rightarrow> m1)"

definition demo_worker :: "(unit, unit, unit) manager \<Rightarrow> (unit, unit, unit) manager" where
  "demo_worker m = (case worker_step demo_call m of Some (Return m1) \<Rightarrow> m1 | _ \<Rightarrow> m)"

definition demo_start :: "(unit, unit, unit) manager" where
  "demo_start = add_command ''x'' () (cm_init ())"

definition demo_queued :: "(unit, unit, unit) manager" where
  "demo_queued = demo_submit (demo_submit demo_start)"

lemma demo_submit_step: "cm_step demo_call m (demo_submit m)"
proof -
  obtain m1 r where r: "make_command ''x'' () 7 None m = (m1, r)" by fastforce
  show ?thesis
    using make_command_cases [OF r] r
    by (auto simp: demo_submit_def intro: step_submit step_submit_fail)
qed

lemma demo_worker_step:
  "cm_wf m \<Longrightarrow> worker_step demo_call m \<noteq> None \<Longrightarrow> cm_step demo_call m (demo_worker m)"
  using cm_wf_worker_step [of m demo_call] by (auto simp: demo_worker_def intro!: step_worker)

lemma demo_exec_queued: "cm_exec demo_call (cm_init ()) [] demo_queued"
proof -
  have 1: "cm_exec demo_call (cm_init ()) [] (demo_start)"
    using exec_step [OF exec_refl step_add, of demo_call "cm_init ()" "''x''" "()"]
    by (simp add: demo_start_def started_def cm_init_def add_command_def)
  have idle: "started m (demo_submit m) = []" for m
    using make_command_cases [of "''x''" "()" 7 None m]
    by (auto simp: started_def demo_submit_def enqueue_command_def upd_cmd_def split: prod.splits outcome.splits worker_pc.splits)
  show ?thesis
    unfolding demo_queued_def
    using exec_step [OF exec_step [OF 1 demo_submit_step] demo_submit_step] by (simp add: idle)
qed

lemma demo_exec:
  "cm_exec demo_call (cm_init ()) [1, 0] (demo_worker (demo_worker (demo_worker demo_queued)))"
proof -
  let ?w = demo_worker
  note wf = cm_wf_exec [OF _ cm_wf_init]
  have e1: "cm_exec demo_call (cm_init ()) ([] @ started demo_queued (?w demo_queued)) (?w demo_queued)"
    by (rule exec_step [OF demo_exec_queued demo_worker_step]) (rule wf [OF demo_exec_queued], code_simp)
  have "started demo_queued (?w demo_queued) = [1]" by code_simp
  note e1 = e1 [unfolded this]
  have e2: "cm_exec demo_call (cm_init ()) (([] @ [1]) @ started (?w demo_queued) (?w (?w demo_queued))) (?w (?w demo_queued))"
    by (rule exec_step [OF e1 demo_worker_step]) (rule wf [OF e1], code_simp)
  have "started (?w demo_queued) (?w (?w demo_queued)) = []" by code_simp
  note e2 = e2 [unfolded this]
  have e3: "cm_exec demo_call (cm_init ()) ((([] @ [1]) @ []) @ started (?w (?w demo_queued)) (?w (?w (?w demo_queued)))) (?w (?w (?w demo_queued)))"
    by (rule exec_step [OF e2 demo_worker_step]) (rule wf [OF e2], code_simp)
  have "started (?w (?w demo_queued)) (?w (?w (?w demo_queued))) = [0]" by code_simp
  with e3 show ?thesis by simp
qed

theorem commands_run_once_witness:
  "cm_exec demo_call (cm_init ()) [1, 0] (demo_worker (demo_worker (demo_worker demo_queued)))
     \<and> distinct [1 :: cmd_ptr, 0]"
  using demo_exec commands_run_once [OF demo_exec] by simp

section \<open>Priorities and progress of the worker\<close>

lemma reachable_wf: "cm_exec call (cm_init w) ps m \<Longrightarrow> cm_wf m"
  by (rule cm_wf_exec [OF _ cm_wf_init])

text \<open>In every reachable state the worker, when it takes a command, takes one of least
  type: queue destruction before queue creation before shutdown before user commands; and
  the command is removed from the queue.\<close>

lemma worker_takes_most_urgent:
  assumes "cm_exec call (cm_init w) ps m" and "worker_state m = WIdle" and "work_queue m \<noteq> []"
  shows "\<exists>p m'. wq_top (work_queue m) = Return p \<and> worker_pick call m = Return m'
    \<and> (\<forall>q \<in> set (work_queue m). prio (store m) p \<le> prio (store m) q)
    \<and> set (work_queue m') = set (work_queue m) - {p}"
proof -
  from cm_wf_pick [OF reachable_wf [OF assms(1)] assms(2,3), of call] obtain p B m' where
    "worker_pick call m = Return m'" "picked m p B m'" by metis
  then show ?thesis by (auto simp: picked_def prio_bases)
qed

text \<open>The worker alone: first the command it is in, then one command after the other.\<close>

lemma worker_run_add:
  "worker_run call a m = Return m1 \<Longrightarrow> worker_run call b m1 = Return m2 \<Longrightarrow>
     worker_run call (a + b) m = Return m2"
proof (induction a arbitrary: m)
  case 0
  then show ?case by simp
next
  case (Suc a)
  show ?case
  proof (cases "worker_step call m")
    case None
    then have "m1 = m" using Suc.prems by simp
    then show ?thesis using Suc.prems None by (cases b) auto
  next
    case (Some r)
    then obtain m' where r: "r = Return m'" using Suc.prems by (cases r) auto
    then have "worker_run call a m' = Return m1" using Suc.prems Some by simp
    then have "worker_run call (a + b) m' = Return m2" using Suc by blast
    then show ?thesis using Some r by simp
  qed
qed

lemma worker_run_finish:
  assumes "cm_wf m"
  obtains n m' where "n \<le> 1" "worker_run call n m = Return m'" "worker_finish m = Return m'" "cm_wf m'"
    "worker_state m' = WIdle" "work_queue m' = work_queue m" "active m' = active m" "bases m' = bases m"
proof (cases "worker_state m")
  case WIdle
  then show ?thesis using that [of 0 m] assms by (simp add: worker_finish_def)
next
  case (WRan p e)
  from cm_wf_finish [OF assms WRan] obtain m' where "worker_finish m = Return m'" "cm_wf m'"
    "worker_state m' = WIdle" "work_queue m' = work_queue m" "active m' = active m"
    "bases m' = bases m" by blast
  then show ?thesis using that [of 1 m'] WRan by (simp add: worker_step_def)
qed

lemma worker_run_pick:
  assumes "worker_state m = WIdle" and "active m" and "work_queue m \<noteq> []"
    and "worker_pick call m = Return m'"
  shows "worker_run call 1 m = Return m'"
  using assms by (simp add: worker_step_def)

text \<open>A queued command that creates or destroys a queue is reached.\<close>

lemma builtin_reached:
  assumes "cm_wf m" and "worker_state m = WIdle" and "active m" and "p \<in> set (work_queue m)"
    and "bases m p = Some B" and "bd_type B \<in> {CREATE_QUEUE, DESTROY_QUEUE}"
  shows "\<exists>n \<le> length (work_queue m). \<exists>m'. worker_run call n m = Return m' \<and> wait_over p m'"
  using assms
proof (induction "length (work_queue m)" arbitrary: m)
  case 0
  then show ?case by simp
next
  case (Suc k)
  from Suc.hyps(2) have ne: "work_queue m \<noteq> []" by auto
  from cm_wf_pick [OF Suc.prems(1,2) ne, of call] obtain q C m1 where
    pk: "worker_pick call m = Return m1" "cm_wf m1" and q: "picked m q C m1" by metis
  note q = q [unfolded picked_def]
  have "base_prio (bases m) q \<le> 2"
    using q Suc.prems(4-6) by (fastforce simp: base_prio_def)
  then have C: "bd_type C \<in> {CREATE_QUEUE, DESTROY_QUEUE}"
    using q by (cases "bd_type C") (auto simp: base_prio_def)
  note one = worker_run_pick [OF Suc.prems(2,3) ne pk(1)]
  show ?case
  proof (cases "q = p")
    case True
    then have "wait_over p m1" using q C by auto
    with one Suc.hyps(2) show ?thesis by (intro exI [of _ 1]) auto
  next
    case False
    then have "\<exists>n \<le> length (work_queue m1). \<exists>m'. worker_run call n m1 = Return m' \<and> wait_over p m'"
      using Suc.hyps(1) [of m1] Suc q pk(2) C by auto
    then obtain n m' where "n \<le> length (work_queue m1)" "worker_run call n m1 = Return m'"
      "wait_over p m'" by blast
    moreover have "worker_run call (1 + n) m = Return m'"
      using worker_run_add [OF one calculation(2)] .
    ultimately show ?thesis using q by (metis Suc_le_mono plus_1_eq_Suc)
  qed
qed

text \<open>A thread blocked in \<open>execute_create_queue\<close> or \<open>execute_destroy_queue\<close> is released:
  while the manager is active, the worker publishes the result code of the built-in command
  after at most one step for each queued command and one for the command it is executing,
  however many user commands are queued and whatever the handlers do.\<close>

lemma builtin_command_completes:
  assumes "cm_exec call (cm_init w) ps m" and "active m" and "p \<in> set (work_queue m)"
    and "store m p = Some c" and "cmd_type c \<in> {CREATE_QUEUE, DESTROY_QUEUE}"
  shows "\<exists>n \<le> Suc (length (work_queue m)). \<exists>m'. worker_run call n m = Return m' \<and> wait_over p m'"
proof -
  have wf: "cm_wf m" using assms(1) by (rule reachable_wf)
  obtain k m1 where k: "k \<le> 1" "worker_run call k m = Return m1" "cm_wf m1" "worker_state m1 = WIdle"
    "work_queue m1 = work_queue m" "active m1 = active m" "bases m1 = bases m"
    by (rule worker_run_finish [OF wf, of call]) blast
  have "bases m1 p = Some (base_data c)" using assms(4) k(7) by (simp add: bases_def)
  from builtin_reached [OF k(3,4) _ _ this, of call] assms k obtain n m' where
    n: "n \<le> length (work_queue m)" "worker_run call n m1 = Return m'" "wait_over p m'" by auto
  from worker_run_add [OF k(2) n(2)] n k(1) show ?thesis
    by (intro exI [of _ "k + n"]) auto
qed

definition demo_create :: "(unit, unit, unit) manager" where
  "demo_create = fst (execute_create_queue () 7 32 demo_queued)"

lemma demo_exec_create: "cm_exec demo_call (cm_init ()) [] demo_create"
proof -
  have "cm_step demo_call demo_queued demo_create"
    by (rule step_create [of 32 "()" 7 demo_queued _ "snd (execute_create_queue () 7 32 demo_queued)"])
      (simp_all add: demo_create_def)
  from exec_step [OF demo_exec_queued this] show ?thesis
    by (simp add: started_def demo_create_def execute_create_queue_def make_builtin_command_def
        alloc_cmd_def enqueue_command_def Let_def split: worker_pc.splits)
qed

text \<open>The reference: a command executed as a whole, with its result at the end of the queue of its client.\<close>

definition append_result :: "cmd_ptr \<Rightarrow> result_q \<Rightarrow> result_q" where
  "append_result p rq = rq\<lparr>rq_queue := (rq_queue rq)\<lparr>aq_q := (aq_q (rq_queue rq))
     \<lparr>rb_q := drop (Suc (length (ptrs rq)) - rb_max (aq_q (rq_queue rq))) (ptrs rq @ [p])\<rparr>\<rparr>\<rparr>"

definition deliver :: "cmd_ptr \<Rightarrow> ('d, 'h) command \<Rightarrow> ('d, 'h, 'w) manager \<Rightarrow> ('d, 'h, 'w) manager" where
  "deliver p c m =
     m\<lparr>pending_commands := pending_commands m @ (if pending c then [task_id c] else []),
       results_queue := (if discard_result c then results_queue m
         else (results_queue m)(queue_id c := map_option (append_result p) (results_queue m (queue_id c))))\<rparr>"

definition run_command ::
  "('d, 'h, 'w) interp \<Rightarrow> cmd_ptr \<Rightarrow> ('d, 'h, 'w) manager \<Rightarrow> ('d, 'h, 'w) manager"
where
  "run_command call p m =
     (case store m p of
        None \<Rightarrow> m
      | Some c \<Rightarrow>
          (case cmd_type c of
             CREATE_QUEUE \<Rightarrow> upd_cmd p (\<lambda>c. c\<lparr>result_code := RC_OK\<rparr>) (create_queue (queue_id c) (queue_size c) m)
           | DESTROY_QUEUE \<Rightarrow> upd_cmd p (\<lambda>c. c\<lparr>result_code := RC_OK\<rparr>) (destroy_queue (queue_id c) m)
           | SHUTDOWN \<Rightarrow> m\<lparr>active := False\<rparr>
           | USER \<Rightarrow>
               (case cmd_run call p (world m) (c\<lparr>result_code := RC_NONE\<rparr>) of
                  (w', c', e) \<Rightarrow>
                    let c1 = user_command_code e c'
                    in deliver p c1 (m\<lparr>world := w', store := (store m)(p \<mapsto> c1)\<rparr>))))"

lemma run_command_queue: "run_command call p (m\<lparr>work_queue := q\<rparr>) = (run_command call p m)\<lparr>work_queue := q\<rparr>"
  by (simp add: run_command_def create_queue_def destroy_queue_def upd_cmd_def deliver_def Let_def
      split: option.splits CommandType.splits prod.splits)

lemma run_commands_queue:
  "fold (run_command call) ps (m\<lparr>work_queue := q\<rparr>) = (fold (run_command call) ps m)\<lparr>work_queue := q\<rparr>"
  by (induction ps arbitrary: m) (simp_all add: run_command_queue)

lemma publish_deliver:
  assumes wf: "cm_wf m" and ran: "worker_state m = WRan p e" and c: "store m p = Some c"
  shows "worker_finish m = Return (deliver p (user_command_code e c)
    (m\<lparr>store := (store m)(p \<mapsto> user_command_code e c), worker_state := WIdle\<rparr>))"
proof (cases "discard_result (user_command_code e c) \<or> results_queue m (queue_id c) = None")
  case True
  then show ?thesis
    using ran c by (auto simp: worker_finish_def user_command_publish_def deliver_def Let_def fun_upd_idem)
next
  case False
  then obtain rq where rq: "results_queue m (queue_id c) = Some rq" by blast
  then have "wf_result (bases m) (set (work_queue m) \<union> running m) (queue_id c) rq"
    using wf by (simp add: cm_wf_def)
  then have "rb_wf (aq_q (rq_queue rq))" "aq_max (rq_queue rq) = 0" by (simp_all add: wf_result_def)
  from result_emplace [OF this, of p] this obtain aq where
    aq: "aq_emplace rb_ops [] p (rq_queue rq) = Some (Return aq)" "aq_max aq = aq_max (rq_queue rq)"
      "rb_max (aq_q aq) = rb_max (aq_q (rq_queue rq))"
      "rb_q (aq_q aq) = drop (Suc (length (ptrs rq)) - rb_max (aq_q (rq_queue rq))) (ptrs rq @ [p])"
    by auto
  have "append_result p rq = rq\<lparr>rq_queue := aq\<rparr>"
    using aq(2-4) by (simp add: append_result_def)
  then show ?thesis
    using False ran c rq aq(1) by (simp add: worker_finish_def user_command_publish_def deliver_def Let_def)
qed

text \<open>One command taken and, when it is a user command, finished, is the command executed as a whole.\<close>

lemma worker_run_one:
  assumes wf: "cm_wf m" and idle: "worker_state m = WIdle" and a: "active m" and ne: "work_queue m \<noteq> []"
  obtains n p q where "n \<le> 2" "worker_run call n m = Return ((run_command call p m)\<lparr>work_queue := q\<rparr>)"
    "cm_wf ((run_command call p m)\<lparr>work_queue := q\<rparr>)" "worker_state (run_command call p m) = WIdle"
    "bases (run_command call p m) = bases m" "p \<in> dom (bases m)" "mset (work_queue m) = add_mset p (mset q)"
    "\<forall>r \<in> set (work_queue m). base_prio (bases m) p \<le> base_prio (bases m) r"
    "active (run_command call p m) = (base_prio (bases m) p \<noteq> 3)"
proof -
  from cm_wf_pick [OF wf idle ne, of call] obtain p B m1 where
    pk: "worker_pick call m = Return m1" "cm_wf m1" and pd: "picked m p B m1" by metis
  note q = pd [unfolded picked_def]
  let ?q = "work_queue m1"
  have d: "distinct (work_queue m)" "distinct ?q" using wf pk(2) by (simp_all add: cm_wf_def wf_work_def)
  have ms: "mset (work_queue m) = add_mset p (mset ?q)"
    using d q by (metis distinct.simps(2) list.simps(15) mset.simps(2) set_eq_iff_mset_eq_distinct)
  from q obtain c where c: "store m p = Some c" "base_data c = B" by (auto simp: bases_def)
  have top: "wq_top (work_queue m) = Return p" using q by blast
  have p: "p \<in> dom (bases m)" "\<forall>r \<in> set (work_queue m). base_prio (bases m) p \<le> base_prio (bases m) r"
    "bases m1 = bases m" "base_prio (bases m) p = type_code (bd_type B)" "bd_type B \<noteq> SHUTDOWN \<Longrightarrow> active m1"
    using q a by (auto simp: base_prio_def)
  obtain wq where pop: "wq_pop (QueueCompare (store m)) (work_queue m) = Return wq"
    using pk(1) top by (cases "wq_pop (QueueCompare (store m)) (work_queue m)") (auto simp: worker_pick_def)
  show ?thesis
  proof (cases "bd_type B = USER")
    case True
    obtain w' c' e where r: "cmd_run call p (world m) (c\<lparr>result_code := RC_NONE\<rparr>) = (w', c', e)"
      by (metis prod_cases3)
    have m1: "m1 = m\<lparr>work_queue := wq, world := w', store := (store m)(p \<mapsto> c'), worker_state := WRan p e\<rparr>"
      using pk(1) top pop c True r by (auto simp: worker_pick_def user_command_run_def)
    have ran: "worker_state m1 = WRan p e" "store m1 p = Some c'" "work_queue m1 = wq" by (simp_all add: m1)
    let ?m2 = "(run_command call p m)\<lparr>work_queue := ?q\<rparr>"
    have "worker_finish m1 = Return ?m2"
      unfolding publish_deliver [OF pk(2) ran(1,2)]
      by (simp add: m1) (use c True r idle in \<open>simp add: run_command_def deliver_def Let_def\<close>)
    with cm_wf_finish [OF pk(2) ran(1)] have fin: "worker_finish m1 = Return ?m2" "cm_wf ?m2" "worker_state ?m2 = WIdle"
      "active ?m2 = active m1" "bases ?m2 = bases m1" by auto
    have "worker_run call (1 + 1) m = Return ?m2"
      by (rule worker_run_add [OF worker_run_pick [OF idle a ne pk(1)]])
        (use fin(1) ran in \<open>simp add: worker_step_def\<close>)
    from that [of "1 + 1" ?q p, OF _ this fin(2)] fin(3-5) p ms True show ?thesis by (simp add: frame)
  next
    case False
    have eq: "m1 = (run_command call p m)\<lparr>work_queue := ?q\<rparr>"
      using pk(1) top pop c False
      by (cases "bd_type B") (auto simp: worker_pick_def run_command_def create_queue_def destroy_queue_def upd_cmd_def)
    have off: "bd_type B = SHUTDOWN \<Longrightarrow> \<not> active m1"
      using pk(1) top pop c by (auto simp: worker_pick_def)
    have w: "worker_state (run_command call p m) = worker_state m1" "bases (run_command call p m) = bases m1"
      "active (run_command call p m) = active m1"
      using arg_cong [where f = worker_state, OF eq] arg_cong [where f = bases, OF eq] arg_cong [where f = active, OF eq]
      by (simp_all add: frame)
    have "worker_state m1 = WIdle" using q False by blast
    moreover have "active m1 = (type_code (bd_type B) \<noteq> 3)" using p(5) off False by (cases "bd_type B") simp_all
    moreover have "worker_run call 1 m = Return ((run_command call p m)\<lparr>work_queue := ?q\<rparr>)"
      using worker_run_pick [OF idle a ne pk(1)] by (subst eq [symmetric])
    moreover have "cm_wf ((run_command call p m)\<lparr>work_queue := ?q\<rparr>)" using pk(2) by (subst eq [symmetric])
    ultimately show ?thesis using that [of 1 ?q p] p ms w by simp
  qed
qed

text \<open>The worker executes the commands of the queue as a whole, one after the other, the most urgent ones first.\<close>

lemma worker_executes:
  assumes "cm_wf m" and "worker_state m = WIdle" and "active m"
    and "\<forall>q \<in> set (work_queue m). base_prio (bases m) q \<noteq> 3"
  shows "\<exists>n \<le> 2 * length (work_queue m). \<exists>qs. mset qs = mset (work_queue m)
    \<and> sorted (map (base_prio (bases m)) qs)
    \<and> worker_run call n m = Return ((fold (run_command call) qs m)\<lparr>work_queue := []\<rparr>)
    \<and> worker_state (fold (run_command call) qs m) = WIdle \<and> active (fold (run_command call) qs m)"
  using assms
proof (induction "length (work_queue m)" arbitrary: m)
  case 0
  then show ?case by (intro exI [of _ 0]) auto
next
  case (Suc k)
  from Suc.hyps(2) have ne: "work_queue m \<noteq> []" by auto
  obtain n p q where
    n: "n \<le> 2" "worker_run call n m = Return ((run_command call p m)\<lparr>work_queue := q\<rparr>)"
    "cm_wf ((run_command call p m)\<lparr>work_queue := q\<rparr>)" "worker_state (run_command call p m) = WIdle"
    "bases (run_command call p m) = bases m" "mset (work_queue m) = add_mset p (mset q)"
    "\<forall>r \<in> set (work_queue m). base_prio (bases m) p \<le> base_prio (bases m) r"
    "active (run_command call p m) = (base_prio (bases m) p \<noteq> 3)"
    by (rule worker_run_one [OF Suc.prems(1-3) ne, of call])
  let ?m = "(run_command call p m)\<lparr>work_queue := q\<rparr>"
  have s: "set (work_queue m) = insert p (set q)" "length (work_queue m) = Suc (length q)"
    using n(6) by (metis set_mset_add_mset_insert set_mset_mset, metis size_add_mset size_mset)
  from Suc.hyps(1) [of ?m] Suc.hyps(2) Suc.prems(4) n s obtain j qs where
    j: "j \<le> 2 * length q" "mset qs = mset q" "sorted (map (base_prio (bases m)) qs)"
      "worker_run call j ?m = Return ((fold (run_command call) qs ?m)\<lparr>work_queue := []\<rparr>)"
      "worker_state (fold (run_command call) qs ?m) = WIdle" "active (fold (run_command call) qs ?m)"
    by (auto simp: frame)
  have "set qs = set q" using j(2) by (metis set_mset_mset)
  then have "sorted (map (base_prio (bases m)) (p # qs))" using j(3) n(7) s by simp
  with worker_run_add [OF n(2) j(4)] j n(1,6) s show ?case
    by (intro exI [of _ "n + j"] conjI exI [of _ "p # qs"]) (simp_all add: run_commands_queue)
qed

text \<open>C9: As long as no shutdown is queued, the worker executes every queued command, the most urgent ones
  first: it finishes the command it is in, and then, after at most two steps for each command, the manager is in the state
  that results from executing the commands of the queue as a whole in that order (\<open>run_command\<close>: the queue is created or destroyed, or
  the handler is called and its result delivered). Then the queue is empty, and the worker is idle and
  still active, whatever the handlers threw.\<close>

theorem worker_drains_queue:
  assumes "cm_exec call (cm_init w) ps m" and "active m"
    and "\<forall>q \<in> set (work_queue m). prio (store m) q \<noteq> type_code SHUTDOWN"
  shows "\<exists>n \<le> 2 * length (work_queue m) + 1. \<exists>m1 qs. worker_finish m = Return m1
    \<and> mset qs = mset (work_queue m) \<and> sorted (map (prio (store m)) qs)
    \<and> worker_run call n m = Return ((fold (run_command call) qs m1)\<lparr>work_queue := []\<rparr>)
    \<and> worker_state (fold (run_command call) qs m1) = WIdle \<and> active (fold (run_command call) qs m1)"
proof -
  obtain k m1 where k: "k \<le> 1" "worker_run call k m = Return m1" "worker_finish m = Return m1" "cm_wf m1"
    "worker_state m1 = WIdle" "work_queue m1 = work_queue m" "active m1 = active m" "bases m1 = bases m"
    by (rule worker_run_finish [OF reachable_wf [OF assms(1)], of call])
  from worker_executes [OF k(4,5), of call] assms(2,3) k obtain n qs where
    n: "n \<le> 2 * length (work_queue m)" "mset qs = mset (work_queue m)" "sorted (map (base_prio (bases m)) qs)"
      "worker_run call n m1 = Return ((fold (run_command call) qs m1)\<lparr>work_queue := []\<rparr>)"
      "worker_state (fold (run_command call) qs m1) = WIdle" "active (fold (run_command call) qs m1)"
    by (auto simp: prio_bases)
  from worker_run_add [OF k(2) n(4)] n k(1,3) show ?thesis
    by (intro exI [of _ "k + n"] conjI exI [of _ m1] exI [of _ qs]) (simp_all add: prio_bases)
qed

theorem worker_drains_queue_witness:
  "length (work_queue demo_create) = 3 \<and>
    (\<exists>n \<le> 7. \<exists>m1 qs. worker_finish demo_create = Return m1 \<and> mset qs = mset (work_queue demo_create)
    \<and> worker_run demo_call n demo_create = Return ((fold (run_command demo_call) qs m1)\<lparr>work_queue := []\<rparr>)
    \<and> active (fold (run_command demo_call) qs m1))"
proof -
  have "length (work_queue demo_create) = 3" "active demo_create"
    "\<forall>q \<in> set (work_queue demo_create). prio (store demo_create) q \<noteq> type_code SHUTDOWN"
    by code_simp+
  with worker_drains_queue [OF demo_exec_create] show ?thesis by auto
qed

lemma worker_stops:
  assumes "cm_wf m" and "worker_state m = WIdle" and "active m"
    and "p \<in> set (work_queue m)" and "base_prio (bases m) p = 3"
  shows "\<exists>n \<le> 2 * length (work_queue m). \<exists>qs r q. mset (work_queue m) = mset qs + add_mset r (mset q)
    \<and> (\<forall>x \<in> set qs. base_prio (bases m) x < 3) \<and> base_prio (bases m) r = 3
    \<and> (\<forall>x \<in> set q. 3 \<le> base_prio (bases m) x)
    \<and> worker_run call n m = Return ((fold (run_command call) qs m)\<lparr>active := False, work_queue := q\<rparr>)
    \<and> worker_state (fold (run_command call) qs m) = WIdle"
  using assms
proof (induction "length (work_queue m)" arbitrary: m)
  case 0
  then show ?case by simp
next
  case (Suc k)
  from Suc.hyps(2) have ne: "work_queue m \<noteq> []" by auto
  obtain n r q where
    n: "n \<le> 2" "worker_run call n m = Return ((run_command call r m)\<lparr>work_queue := q\<rparr>)"
    "cm_wf ((run_command call r m)\<lparr>work_queue := q\<rparr>)" "worker_state (run_command call r m) = WIdle"
    "bases (run_command call r m) = bases m" "r \<in> dom (bases m)" "mset (work_queue m) = add_mset r (mset q)"
    "\<forall>x \<in> set (work_queue m). base_prio (bases m) r \<le> base_prio (bases m) x"
    "active (run_command call r m) = (base_prio (bases m) r \<noteq> 3)"
    by (rule worker_run_one [OF Suc.prems(1-3) ne, of call])
  let ?m = "(run_command call r m)\<lparr>work_queue := q\<rparr>"
  have s: "set (work_queue m) = insert r (set q)" "length (work_queue m) = Suc (length q)"
    using n(7) by (metis set_mset_add_mset_insert set_mset_mset, metis size_add_mset size_mset)
  have le: "base_prio (bases m) r \<le> 3" using Suc.prems(4,5) n(8) by force
  show ?case
  proof (cases "base_prio (bases m) r = 3")
    case True
    obtain c where c: "store m r = Some c" using n(6) by (auto simp: bases_def)
    with True have "cmd_type c = SHUTDOWN" by (cases "cmd_type c") (simp_all add: base_prio_def bases_def)
    with c have "run_command call r m = m\<lparr>active := False\<rparr>" by (simp add: run_command_def)
    then have "worker_run call n m = Return (m\<lparr>active := False, work_queue := q\<rparr>)" using n(2) by simp
    moreover have "\<forall>x \<in> set q. 3 \<le> base_prio (bases m) x" using n(8) s True by simp
    ultimately show ?thesis
      using True n(1,7) s Suc.prems(2) by (intro exI [of _ n] conjI exI [of _ "[]"] exI [of _ r] exI [of _ q]) simp_all
  next
    case False
    then have "p \<in> set q" using Suc.prems(4,5) s by auto
    with Suc.hyps(1) [of ?m] Suc.hyps(2) Suc.prems(5) n s False obtain j qs t u where
      j: "j \<le> 2 * length q" "mset q = mset qs + add_mset t (mset u)" "\<forall>x \<in> set qs. base_prio (bases m) x < 3"
        "base_prio (bases m) t = 3" "\<forall>x \<in> set u. 3 \<le> base_prio (bases m) x"
        "worker_run call j ?m = Return ((fold (run_command call) qs ?m)\<lparr>active := False, work_queue := u\<rparr>)"
        "worker_state (fold (run_command call) qs ?m) = WIdle" by (auto simp: frame)
    with worker_run_add [OF n(2) j(6)] n(1,7) le False s show ?thesis
      by (intro exI [of _ "n + j"] conjI exI [of _ "r # qs"] exI [of _ t] exI [of _ u]) (simp_all add: run_commands_queue)
  qed
qed

text \<open>C18: Shutting down: with a shutdown command queued the worker leaves its loop, so the join
  in \<open>shutdown\<close> returns. By then it has finished the command it was in and has executed, as a whole and one after the
  other, exactly the queued commands that create or destroy queues (\<open>qs\<close>), so that the state of the manager is the one these
  commands lead to. Every user command is left in the queue, because a shutdown is more urgent, and is never executed.\<close>

theorem shutdown_terminates_worker:
  assumes "cm_exec call (cm_init w) ps m" and "active m" and "p \<in> set (work_queue m)"
    and "prio (store m) p = type_code SHUTDOWN"
  shows "\<exists>n \<le> 2 * length (work_queue m) + 1. \<exists>m1 qs r q m'. worker_finish m = Return m1
    \<and> mset (work_queue m) = mset qs + add_mset r (mset q)
    \<and> (\<forall>x \<in> set qs. prio (store m) x < type_code SHUTDOWN) \<and> prio (store m) r = type_code SHUTDOWN
    \<and> (\<forall>x \<in> set q. type_code SHUTDOWN \<le> prio (store m) x)
    \<and> m' = (fold (run_command call) qs m1)\<lparr>active := False, work_queue := q\<rparr>
    \<and> worker_run call n m = Return m' \<and> worker_step call m' = None"
proof -
  obtain k m1 where k: "k \<le> 1" "worker_run call k m = Return m1" "worker_finish m = Return m1" "cm_wf m1"
    "worker_state m1 = WIdle" "work_queue m1 = work_queue m" "active m1 = active m" "bases m1 = bases m"
    by (rule worker_run_finish [OF reachable_wf [OF assms(1)], of call])
  from worker_stops [OF k(4,5), of p call] assms k obtain n qs r q where
    n: "n \<le> 2 * length (work_queue m)" "mset (work_queue m) = mset qs + add_mset r (mset q)"
      "\<forall>x \<in> set qs. base_prio (bases m) x < 3" "base_prio (bases m) r = 3" "\<forall>x \<in> set q. 3 \<le> base_prio (bases m) x"
      "worker_run call n m1 = Return ((fold (run_command call) qs m1)\<lparr>active := False, work_queue := q\<rparr>)"
      "worker_state (fold (run_command call) qs m1) = WIdle" by (auto simp: prio_bases)
  from worker_run_add [OF k(2) n(6)] n k(1,3) show ?thesis
    by (intro exI [of _ "k + n"] conjI exI [of _ m1] exI [of _ qs] exI [of _ r] exI [of _ q]
        exI [of _ "(fold (run_command call) qs m1)\<lparr>active := False, work_queue := q\<rparr>"])
      (simp_all add: prio_bases worker_step_def)
qed

definition demo_shutdown :: "(unit, unit, unit) manager" where
  "demo_shutdown = cm_shutdown () demo_create"

lemma demo_exec_shutdown: "cm_exec demo_call (cm_init ()) [] demo_shutdown"
proof -
  have "cm_step demo_call demo_create demo_shutdown" by (simp add: demo_shutdown_def step_shutdown)
  from exec_step [OF demo_exec_create this] show ?thesis
    by (simp add: started_def demo_shutdown_def cm_shutdown_def make_builtin_command_def
        alloc_cmd_def enqueue_command_def Let_def split: worker_pc.splits)
qed

theorem shutdown_terminates_worker_witness:
  "length (work_queue demo_shutdown) = 4 \<and>
    (\<exists>n \<le> 9. \<exists>m1 qs q m'. worker_finish demo_shutdown = Return m1
    \<and> m' = (fold (run_command demo_call) qs m1)\<lparr>active := False, work_queue := q\<rparr>
    \<and> worker_run demo_call n demo_shutdown = Return m' \<and> worker_step demo_call m' = None)"
proof -
  have "length (work_queue demo_shutdown) = 4" "active demo_shutdown" "3 \<in> set (work_queue demo_shutdown)"
    "prio (store demo_shutdown) 3 = type_code SHUTDOWN" by code_simp+
  with shutdown_terminates_worker [OF demo_exec_shutdown, of 3] show ?thesis by auto
qed

text \<open>Once the worker has left its loop nothing completes a built-in command any more.\<close>

definition abandoned :: "cmd_ptr \<Rightarrow> ('d, 'h, 'w) manager \<Rightarrow> bool" where
  "abandoned p m \<longleftrightarrow> \<not> active m \<and> worker_state m = WIdle
     \<and> (\<exists>c. store m p = Some c \<and> result_code c = RC_NONE \<and> async_handler c = None)"

lemma abandoned_step:
  assumes "cm_step call m m1" and "cm_wf m" and "abandoned p m"
  shows "abandoned p m1 \<and> started m m1 = []"
proof -
  have old: "p \<noteq> next_addr m" using assms(2,3) by (auto simp: abandoned_def cm_wf_def bases_def dom_def)
  show ?thesis
    using assms(1)
  proof (cases rule: cm_step.cases)
    case step_worker
    then show ?thesis using assms(3) by (simp add: abandoned_def worker_step_def)
  next
    case (step_poll i timeout res)
    then show ?thesis
      using cm_wf_poll [OF assms(2) step_poll] assms(3) by (simp add: abandoned_def started_def)
  next
    case (step_game q c)
    then have "q \<noteq> p" using assms(3) by (auto simp: abandoned_def)
    then show ?thesis
      using cm_wf_game [OF assms(2) step_game(3)] assms(3) by (simp add: abandoned_def started_def)
  qed (use assms(3) old in \<open>auto simp: abandoned_def started_def add_command_def enqueue_command_def
      upd_cmd_def make_builtin_command_def alloc_cmd_def execute_create_queue_def
      execute_destroy_queue_def cm_shutdown_def Let_def dest!: make_command_cases\<close>)
qed

lemma abandoned_exec:
  "cm_exec call m ps m1 \<Longrightarrow> cm_wf m \<Longrightarrow> abandoned p m \<Longrightarrow> abandoned p m1 \<and> ps = []"
  by (induction rule: cm_exec.induct) (auto dest: abandoned_step cm_wf_exec)

text \<open>A client that calls \<open>execute_create_queue\<close> after the worker has left its loop waits
  for ever: in no later state is the result code of its command set, whatever the other
  threads do. (The wait in the source has no timeout and does not look at \<open>active_\<close>.)\<close>

lemma create_queue_after_shutdown_blocks:
  assumes "cm_exec call (cm_init w) ps m" and "\<not> active m" and "worker_state m = WIdle"
    and "0 < unat (ucast sz :: u32)" and "execute_create_queue dat qid sz m = (m1, p)"
    and "cm_exec call m1 qs m2"
  shows "\<not> wait_over p m2 \<and> qs = []"
proof -
  have "abandoned p m1"
    using assms(2,3,5) by (auto simp: abandoned_def execute_create_queue_def make_builtin_command_def
        alloc_cmd_def enqueue_command_def new_command_def Let_def)
  moreover have "cm_wf m1"
    using cm_wf_step [OF step_create [OF assms(4,5)] reachable_wf [OF assms(1)]] .
  ultimately have "abandoned p m2 \<and> qs = []" using abandoned_exec [OF assms(6)] by blast
  then show ?thesis by (auto simp: abandoned_def wait_over_def)
qed

definition demo_stopped :: "(unit, unit, unit) manager" where
  "demo_stopped = demo_worker (cm_shutdown () (cm_init ()))"

lemma demo_exec_stopped: "cm_exec demo_call (cm_init ()) [] demo_stopped"
proof -
  let ?m = "cm_shutdown () (cm_init ()) :: (unit, unit, unit) manager"
  have 1: "cm_exec demo_call (cm_init ()) ([] @ started (cm_init ()) ?m) ?m"
    by (rule exec_step [OF exec_refl step_shutdown])
  have "started (cm_init ()) ?m = []" by code_simp
  note 1 = 1 [unfolded this]
  have 2: "cm_exec demo_call (cm_init ()) (([] @ []) @ started ?m (demo_worker ?m)) (demo_worker ?m)"
    by (rule exec_step [OF 1 demo_worker_step]) (rule reachable_wf [OF 1], code_simp)
  have "started ?m (demo_worker ?m) = []" by code_simp
  with 2 show ?thesis by (simp add: demo_stopped_def)
qed

section \<open>Results\<close>

text \<open>Only a command whose handler has been run gets into a result queue.\<close>

definition ran_only :: "cmd_ptr set \<Rightarrow> ('d, 'h, 'w) manager \<Rightarrow> bool" where
  "ran_only P m \<longleftrightarrow> running m \<subseteq> P \<and> (\<forall>i rq. results_queue m i = Some rq \<longrightarrow> set (ptrs rq) \<subseteq> P)"

lemma ran_only_mono: "ran_only P m \<Longrightarrow> P \<subseteq> Q \<Longrightarrow> ran_only Q m"
  unfolding ran_only_def by blast

lemma ran_only_same:
  "ran_only P m \<Longrightarrow> worker_state m1 = worker_state m \<Longrightarrow> results_queue m1 = results_queue m \<Longrightarrow> ran_only P m1"
  by (simp add: ran_only_def running_def)

lemma set_append_result: "set (ptrs (append_result p rq)) \<subseteq> insert p (set (ptrs rq))"
proof -
  have "set (ptrs (append_result p rq)) \<subseteq> set (ptrs rq @ [p])"
    by (simp add: append_result_def del: drop_append set_append) (rule set_drop_subset)
  then show ?thesis by simp
qed

lemma ran_only_worker:
  assumes wf: "cm_wf m" and st: "worker_step call m = Some (Return m1)" and ran: "ran_only P m"
  shows "ran_only (P \<union> set (started m m1)) m1"
proof (cases "worker_state m")
  case WIdle
  then have pk: "worker_pick call m = Return m1"
    using st by (auto simp: worker_step_def split: if_splits)
  then obtain p wq c where c: "wq_top (work_queue m) = Return p" "wq_pop (QueueCompare (store m)) (work_queue m) = Return wq"
    "store m p = Some c" by (auto simp: worker_pick_def Let_def split: option.splits)
  have old: "set (ptrs rq) \<subseteq> P" if "results_queue m i = Some rq" for i rq
    using that ran unfolding ran_only_def by blast
  have "set (ptrs rq) \<subseteq> P" if "results_queue m1 i = Some rq" for i rq
    using that pk c
    by (cases "cmd_type c") (auto simp: worker_pick_def user_command_run_def create_queue_def destroy_queue_def
        upd_cmd_def aq_new_def rb_new_def Let_def dest!: old split: prod.splits if_splits)
  moreover have "running m1 \<subseteq> set (started m m1)"
    using WIdle by (simp add: running_def started_def split: worker_pc.splits)
  ultimately show ?thesis by (auto simp: ran_only_def)
next
  case (WRan p e)
  with wf obtain c where c: "store m p = Some c" by (auto simp: cm_wf_def running_def bases_def)
  from publish_deliver [OF wf WRan c] st WRan have
    m1: "m1 = deliver p (user_command_code e c) (m\<lparr>store := (store m)(p \<mapsto> user_command_code e c), worker_state := WIdle\<rparr>)"
    by (simp add: worker_step_def)
  have "p \<in> P" using ran WRan by (simp add: ran_only_def running_def)
  then have "set (ptrs rq) \<subseteq> P" if "results_queue m1 i = Some rq" for i rq
    using that ran set_append_result unfolding m1 ran_only_def deliver_def
    by (fastforce split: if_splits)
  moreover have "running m1 = {}" by (simp add: running_def m1 deliver_def)
  ultimately show ?thesis unfolding ran_only_def by blast
qed

lemma ran_only_step:
  assumes "cm_step call m m1" and "cm_wf m" and "ran_only P m"
  shows "ran_only (P \<union> set (started m m1)) m1"
  using assms(1)
proof (cases rule: cm_step.cases)
  case step_worker
  then show ?thesis using ran_only_worker assms by blast
next
  case (step_poll i timeout res)
  then obtain rq where rq: "results_queue m i = Some rq" by (auto simp: flush_results_def split: option.splits)
  then have "rb_wf (aq_q (rq_queue rq))" using assms(2) by (auto simp: cm_wf_def wf_result_def)
  from flush_results_eq [OF rq refl, of timeout "\<lambda>m. m" rq] this rq step_poll obtain aq where
    "worker_state m1 = worker_state m" "results_queue m1 = (results_queue m)(i \<mapsto> rq\<lparr>rq_queue := aq\<rparr>)"
    "rb_q (aq_q aq) = rev (filter (\<lambda>p. \<not> not_pending m p) (ptrs rq))" by auto
  then have "ran_only P m1" using assms(3) rq by (auto simp: ran_only_def running_def)
  then show ?thesis by (rule ran_only_mono) simp
next
  case (step_game p c)
  then have "worker_state m1 = worker_state m" "results_queue m1 = results_queue m"
    by (auto simp: game_run_async_def split: if_splits option.splits prod.splits)
  then show ?thesis by (intro ran_only_mono [OF ran_only_same [OF assms(3)]]) simp_all
qed (rule ran_only_mono [OF ran_only_same [OF assms(3)]]; auto simp: add_command_def enqueue_command_def upd_cmd_def
      make_builtin_command_def alloc_cmd_def execute_create_queue_def execute_destroy_queue_def cm_shutdown_def Let_def
      dest!: make_command_cases)+

lemma exec_ran_only: "cm_exec call m0 ps m \<Longrightarrow> cm_wf m0 \<Longrightarrow> ran_only {} m0 \<Longrightarrow> ran_only (set ps) m"
  by (induction rule: cm_exec.induct) (auto dest: ran_only_step cm_wf_exec)


lemma publish_result:
  assumes wf: "cm_wf m" and "worker_state m = WRan p e" and "store m p = Some c"
  shows "\<exists>m'. worker_finish m = Return m' \<and> worker_state m' = WIdle
    \<and> store m' p = Some (user_command_code e c)
    \<and> (\<forall>i. i \<noteq> queue_id c \<or> discard_result c \<or> results_queue m i = None \<longrightarrow>
          results_queue m' i = results_queue m i)
    \<and> (\<forall>rq. \<not> discard_result c \<and> results_queue m (queue_id c) = Some rq \<longrightarrow>
          (\<exists>rq'. results_queue m' (queue_id c) = Some rq' \<and> rq_obj rq' = rq_obj rq
             \<and> ptrs rq' = drop (Suc (length (ptrs rq)) - rb_max (aq_q (rq_queue rq))) (ptrs rq @ [p])
             \<and> last (ptrs rq') = p))"
proof -
  have d: "discard_result (user_command_code e c) = discard_result c"
    by (simp add: user_command_code_def set_error_def split: option.splits)
  have fin: "worker_finish m = user_command_publish p e c m"
    using assms by (simp add: worker_finish_def)
  show ?thesis
  proof (cases "\<not> discard_result c \<and> results_queue m (queue_id c) \<noteq> None")
    case False
    then show ?thesis by (auto simp: fin user_command_publish_def Let_def d)
  next
    case True
    then obtain rq where rq: "results_queue m (queue_id c) = Some rq" by blast
    then have w: "wf_result (bases m) (set (work_queue m) \<union> running m) (queue_id c) rq"
      using wf by (simp add: cm_wf_def)
    then have w': "rb_wf (aq_q (rq_queue rq))" "aq_max (rq_queue rq) = 0"
      by (simp_all add: wf_result_def)
    from result_emplace [OF this, of p] obtain aq where
      aq: "aq_emplace rb_ops [] p (rq_queue rq) = Some (Return aq)"
        "rb_q (aq_q aq) = drop (Suc (length (ptrs rq)) - rb_max (aq_q (rq_queue rq))) (ptrs rq @ [p])"
      by blast
    have "Suc (length (ptrs rq)) - rb_max (aq_q (rq_queue rq)) < length (ptrs rq @ [p])"
      using w' by (simp add: rb_wf_def)
    then have "last (rb_q (aq_q aq)) = p" unfolding aq(2) by (metis last_drop last_snoc)
    then show ?thesis
      using True rq aq by (auto simp: fin user_command_publish_def Let_def d)
  qed
qed

text \<open>What the worker publishes for a user command whose handler it has run: the code is
  \<open>OK\<close>, or \<open>ERROR\<close> with the message of the exception the handler threw; the result goes to
  the end of the queue of the client that asked for it, the oldest results making room; no
  other queue changes; a result whose queue does not exist, or that is to be discarded, is
  dropped.\<close>

lemma user_command_published:
  assumes "cm_exec call (cm_init w) ps m" and "worker_state m = WRan p e" and "store m p = Some c"
  shows "\<exists>m'. worker_finish m = Return m' \<and> worker_state m' = WIdle
    \<and> store m' p = Some (user_command_code e c)
    \<and> (\<forall>i. i \<noteq> queue_id c \<or> discard_result c \<or> results_queue m i = None \<longrightarrow>
          results_queue m' i = results_queue m i)
    \<and> (\<forall>rq. \<not> discard_result c \<and> results_queue m (queue_id c) = Some rq \<longrightarrow>
          (\<exists>rq'. results_queue m' (queue_id c) = Some rq' \<and> rq_obj rq' = rq_obj rq
             \<and> ptrs rq' = drop (Suc (length (ptrs rq)) - rb_max (aq_q (rq_queue rq))) (ptrs rq @ [p])
             \<and> last (ptrs rq') = p))"
  using assms(2,3) by (rule publish_result [OF reachable_wf [OF assms(1)]])

text \<open>C4: A poll returns every finished result, newest first, and leaves exactly the commands
  whose asynchronous part is still pending, so that no result is lost or returned twice. The
  ids of the returned commands are removed from the list of pending tasks.\<close>

theorem flush_returns_finished:
  assumes "cm_exec call (cm_init w) ps m" and "results_queue m i = Some rq"
  shows "\<exists>m' rq'. flush_results i timeout (\<lambda>m. m) m = (m', Return (rev (filter (not_pending m) (ptrs rq))))
    \<and> results_queue m' = (results_queue m)(i \<mapsto> rq') \<and> rq_obj rq' = rq_obj rq
    \<and> ptrs rq' = rev (filter (\<lambda>p. \<not> not_pending m p) (ptrs rq))
    \<and> pending_commands m' = filter
         (\<lambda>t. t \<notin> ptr_task_id m ` {p \<in> set (ptrs rq). not_pending m p}) (pending_commands m)
    \<and> store m' = store m"
proof -
  have "wf_result (bases m) (set (work_queue m) \<union> running m) i rq"
    using reachable_wf [OF assms(1)] assms(2) by (simp add: cm_wf_def)
  then have "rb_wf (aq_q (rq_queue rq))" by (simp add: wf_result_def)
  from flush_results_eq [OF assms(2) refl, of timeout "\<lambda>m. m" rq] this assms(2) show ?thesis by fastforce
qed

text \<open>The run above continued until both results are stored; \<open>demo_ran\<close> is one of the states
  in between.\<close>

definition demo_ran :: "(unit, unit, unit) manager" where
  "demo_ran = demo_worker (demo_worker demo_create)"

definition demo_done :: "(unit, unit, unit) manager" where
  "demo_done = demo_worker (demo_worker (demo_worker demo_ran))"

lemma demo_reach_worker:
  assumes "\<exists>ps. cm_exec demo_call (cm_init ()) ps m"
  shows "\<exists>ps. cm_exec demo_call (cm_init ()) ps (demo_worker m)"
proof (cases "worker_step demo_call m = None")
  case True
  then show ?thesis using assms by (simp add: demo_worker_def)
next
  case False
  from assms obtain ps where ps: "cm_exec demo_call (cm_init ()) ps m" ..
  from exec_step [OF ps demo_worker_step [OF reachable_wf [OF ps] False]] show ?thesis by blast
qed

lemma demo_reach_ran: "\<exists>ps. cm_exec demo_call (cm_init ()) ps demo_ran"
  unfolding demo_ran_def using demo_exec_create by (intro demo_reach_worker) blast

lemma demo_reach_done: "\<exists>ps. cm_exec demo_call (cm_init ()) ps demo_done"
  unfolding demo_done_def by (intro demo_reach_worker demo_reach_ran)

lemma demo_done_queue: "\<exists>rq. results_queue demo_done 7 = Some rq \<and> ptrs rq = [1, 0]"
proof -
  have "map_option ptrs (results_queue demo_done 7) = Some [1, 0]" by code_simp
  then show ?thesis by auto
qed


theorem flush_returns_finished_witness:
  "\<exists>m' rq'. flush_results 7 0 (\<lambda>m. m) demo_done = (m', Return [0, 1])
     \<and> results_queue m' 7 = Some rq' \<and> ptrs rq' = []"
proof -
  obtain ps where ps: "cm_exec demo_call (cm_init ()) ps demo_done" using demo_reach_done ..
  obtain rq where rq: "results_queue demo_done 7 = Some rq" "ptrs rq = [1, 0]" using demo_done_queue by blast
  have "not_pending demo_done 0" "not_pending demo_done 1" by code_simp+
  with flush_returns_finished [OF ps rq(1), of 0] rq show ?thesis by auto
qed

section \<open>Asynchronous commands\<close>

text \<open>A race in the handling of asynchronous commands: when the game thread runs the
  asynchronous part of a command before the worker has published it, and that part throws,
  the error is lost. The published result is \<open>OK\<close>, although the error message has been set.\<close>

lemma async_error_overwritten:
  assumes "cm_exec call (cm_init w) ps m" and "worker_state m = WRan p None"
    and "store m p = Some c" and "async_handler c = Some h"
    and "call h p (world m) c = (w', c1, Some x)"
  shows "\<exists>m1 m2 c2. game_run_async call p m = Return m1 \<and> worker_finish m1 = Return m2
    \<and> store m2 p = Some c2 \<and> result_code c2 = RC_OK \<and> error_message c2 = what x \<and> \<not> pending c2"
proof -
  let ?c1 = "(set_error (what x) (c1\<lparr>base_data := base_data c\<rparr>))\<lparr>pending := False\<rparr>"
  let ?m1 = "m\<lparr>world := w', store := (store m)(p \<mapsto> ?c1)\<rparr>"
  have wf: "cm_wf m" using assms(1) by (rule reachable_wf)
  have g: "game_run_async call p m = Return ?m1"
    using assms by (auto simp: game_run_async_def owned_def run_async_handler_def invoke_def)
  with wf have wf1: "cm_wf ?m1" by (auto dest: cm_wf_game)
  have ran: "worker_state ?m1 = WRan p None" using assms(2) by simp
  from cm_wf_finish [OF wf1 ran] obtain m2 where m2: "worker_finish ?m1 = Return m2" by blast
  have "store m2 p = Some (?c1\<lparr>result_code := RC_OK\<rparr>)"
    using m2 ran by (auto simp: worker_finish_def user_command_publish_def user_command_code_def Let_def
        split: if_splits option.splits)
  then show ?thesis
    using g m2 by (intro exI [of _ ?m1] exI [of _ m2] exI [of _ "?c1\<lparr>result_code := RC_OK\<rparr>"])
      (simp add: set_error_def)
qed

text \<open>A handler (\<open>False\<close>) that leaves its work to an asynchronous part (\<open>True\<close>) that throws.\<close>

definition async_call :: "(unit, bool, unit) interp" where
  "async_call h p w c =
     (if h then (w, c, Some (runtime_error ''boom'')) else (w, set_async_handler True c, None))"

definition async_ran :: "(unit, bool, unit) manager" where
  "async_ran =
     (case make_command ''x'' () 7 None (add_command ''x'' False (cm_init ())) of
        (m1, Return p) \<Rightarrow>
          (case worker_step async_call (enqueue_command p (upd_cmd p (\<lambda>c. c\<lparr>discard_result := True\<rparr>) m1)) of
             Some (Return m2) \<Rightarrow> m2
           | _ \<Rightarrow> m1)
      | (m1, _) \<Rightarrow> m1)"

lemma async_reach_ran: "\<exists>ps. cm_exec async_call (cm_init ()) ps async_ran"
proof -
  let ?m0 = "add_command ''x'' False (cm_init ()) :: (unit, bool, unit) manager"
  have 0: "\<exists>ps. cm_exec async_call (cm_init ()) ps ?m0"
    by (rule exI) (rule exec_step [OF exec_refl step_add])
  obtain m1 where m1: "make_command ''x'' () 7 None ?m0 = (m1, Return 0)"
    by (auto simp: make_command_def map_at_def add_command_def cm_init_def alloc_cmd_def Let_def)
  let ?m1 = "enqueue_command 0 (upd_cmd 0 (\<lambda>c. c\<lparr>discard_result := True\<rparr>) m1)"
  from 0 obtain qs where 1: "cm_exec async_call (cm_init ()) qs ?m1"
    using exec_step [OF _ step_submit [OF m1]] by blast
  have "m1 = fst (make_command ''x'' () 7 None ?m0)" using m1 by simp
  then have "worker_step async_call ?m1 \<noteq> None"
    by (simp add: worker_step_def enqueue_command_def wq_push_def sift_up.simps make_command_def map_at_def upd_cmd_def
        add_command_def cm_init_def alloc_cmd_def Let_def)
  then obtain m2 where m2: "worker_step async_call ?m1 = Some (Return m2)"
    using cm_wf_worker_step [OF reachable_wf [OF 1]] by blast
  have "async_ran = m2" by (simp add: async_ran_def m1 m2)
  with exec_step [OF 1 step_worker [OF m2]] show ?thesis by blast
qed

lemma async_ran_command:
  obtains c where "store async_ran 0 = Some c" "async_handler c = Some True" "pending c"
    "discard_result c"
proof -
  have "map_option (\<lambda>c. (async_handler c, pending c, discard_result c)) (store async_ran 0) =
      Some (Some True, True, True)" by code_simp
  then show ?thesis using that by auto
qed

text \<open>The game thread keeps a raw pointer to an asynchronous command. When the result of
  the command is to be discarded, or its queue no longer exists, nobody owns the command
  once the worker has published it, and the game thread then runs into a dangling pointer.\<close>

lemma dropped_async_command_dangles:
  assumes "cm_exec call (cm_init w) ps m" and "worker_state m = WRan p e" and "store m p = Some c"
    and "discard_result c \<or> results_queue m (queue_id c) = None"
  shows "\<exists>m'. worker_finish m = Return m' \<and> game_run_async call p m' = Undefined"
proof -
  have wf: "cm_wf m" using assms(1) by (rule reachable_wf)
  have "running m = {p}" using assms(2) by (simp add: running_def)
  with wf have free: "p \<notin> set (work_queue m)"
    "\<And>i rq. results_queue m i = Some rq \<Longrightarrow> p \<notin> set (ptrs rq)"
    by (auto simp: cm_wf_def wf_result_def)
  have "discard_result (user_command_code e c) = discard_result c"
    by (simp add: user_command_code_def set_error_def split: option.splits)
  then have "\<exists>m'. worker_finish m = Return m' \<and> worker_state m' = WIdle
      \<and> work_queue m' = work_queue m \<and> results_queue m' = results_queue m"
    using assms(2-4) by (auto simp: worker_finish_def user_command_publish_def Let_def)
  with free show ?thesis by (auto simp: game_run_async_def owned_def)
qed

text \<open>\<open>flush_results\<close> unlocks the map of result queues before it waits, but goes on using a
  reference into it: when the queue is destroyed during the wait, the behaviour is undefined.\<close>

lemma flush_races_with_destroy:
  assumes "results_queue m i = Some rq" and "ptrs rq = []" and "0 < timeout"
  shows "snd (flush_results i timeout (destroy_queue i) m) = Undefined"
  using assms by (simp add: flush_results_def aq_empty_def aq_size_def rb_ops_def rb_size_def
      destroy_queue_def Let_def)

end
