(* ===== verification/Protocol.thy ===== *)
theory Protocol
  imports Prelude
begin

text \<open>
  \<^verbatim>\<open>src/src/protocol/{helpers,protocol}.{hpp,cpp}\<close> and \<^verbatim>\<open>src/src/util_string.{hpp,cpp}\<close>: message
  envelopes, repeated fields, and the files of length-prefixed messages that record a game.

  Protocol buffers are a library. A message is a value of a type \<open>'m\<close>, and the operations
  of the library are parameters: \<open>pack\<close> and \<open>unpack\<close> (\<open>Any::PackFrom\<close>, \<open>Any::UnpackTo\<close>),
  \<open>ser\<close> (\<open>SerializeTo...\<close>), \<open>parse\<close> (\<open>ParseFromCodedStream\<close>), and the varint coding of a
  length. A repeated field is a list.
\<close>

section \<open>Strings\<close>

definition to_bytes :: "string \<Rightarrow> vecu8" where
  "to_bytes s = map of_char s"

definition to_string :: "vecu8 \<Rightarrow> string" where
  "to_string bs = map (\<lambda>b. char_of (unat b)) bs"

text \<open>\<open>split_string\<close> for a delimiter of one character that is not special in a regular
  expression. The token iterator does not yield an empty last token after a delimiter, but
  yields one token for a string without delimiters.\<close>

fun split_go :: "char \<Rightarrow> string \<Rightarrow> string \<Rightarrow> bool \<Rightarrow> string list" where
  "split_go d [] tok seen = (if seen \<and> tok = [] then [] else [rev tok])"
| "split_go d (c # cs) tok seen =
     (if c = d then rev tok # split_go d cs [] True else split_go d cs (c # tok) seen)"

definition split_string :: "string \<Rightarrow> char \<Rightarrow> string list" where
  "split_string s d = split_go d s [] False"

lemma split_go_last:
  "d \<notin> set tok \<Longrightarrow> d \<notin> set b \<Longrightarrow> b \<noteq> [] \<Longrightarrow>
     split_go d (a @ d # b) tok seen \<noteq> [] \<and> last (split_go d (a @ d # b) tok seen) = b"
proof (induction a arbitrary: tok seen)
  case Nil
  have "split_go d b t s = [rev t @ b]" if "t @ b \<noteq> []" for t s
    using Nil.prems(2) that by (induction b arbitrary: t) auto
  from this [of "[]"] show ?case using Nil.prems by simp
next
  case (Cons c a)
  show ?case
  proof (cases "c = d")
    case True
    then show ?thesis using Cons.IH [of "[]" True] Cons.prems by simp
  next
    case False
    then show ?thesis using Cons.IH [of "c # tok" seen] Cons.prems by simp
  qed
qed

section \<open>Envelopes\<close>

record any =
  type_url :: string
  payload :: vecu8

definition message_type :: "any \<Rightarrow> string" where
  "message_type a = last (split_string (type_url a) CHR ''/'')"

datatype ResponseCode = RESPONSE_OK | RESPONSE_ERROR

record Response =
  code :: ResponseCode
  body :: any

datatype proto_command_type =
    CLIENT_COMMAND | POLL | POLL_BLOCKING | PROTO_SHUTDOWN | UNKNOWN_TYPE int

record proto_command =
  command_type :: proto_command_type
  command_any :: any
  blocking :: bool

definition from_any ::
  "(any \<Rightarrow> 'm option) \<Rightarrow> string \<Rightarrow> any \<Rightarrow> 'm outcome"
where
  "from_any unpack target a =
     (case unpack a of
        Some m \<Rightarrow> Return m
      | None \<Rightarrow> Raise (runtime_error
          (''Could not unpack message from '' @ type_url a @ '' to '' @ target)))"

definition to_vecu8 :: "('m \<Rightarrow> vecu8 option) \<Rightarrow> ('m \<Rightarrow> string) \<Rightarrow> 'm \<Rightarrow> vecu8 outcome" where
  "to_vecu8 ser name_of m =
     (case ser m of
        Some bs \<Rightarrow> Return bs
      | None \<Rightarrow> Raise (protocol_error (''failed to serialize message '' @ name_of m)))"

definition make_response :: "('m \<Rightarrow> any option) \<Rightarrow> 'm \<Rightarrow> ResponseCode \<Rightarrow> Response outcome" where
  "make_response pack m c =
     (case pack m of
        Some a \<Rightarrow> Return \<lparr>code = c, body = a\<rparr>
      | None \<Rightarrow> Raise (runtime_error ''Could not pack message body''))"

definition create_command ::
  "('m \<Rightarrow> any option) \<Rightarrow> 'm \<Rightarrow> proto_command_type \<Rightarrow> proto_command outcome"
where
  "create_command pack m t =
     (case pack m of
        Some a \<Rightarrow> Return \<lparr>command_type = t, command_any = a, blocking = False\<rparr>
      | None \<Rightarrow> Raise (protocol_error ''packing message failed''))"

text \<open>\<open>from_json\<close> and \<open>create_command_message\<close>: the JSON reader of the library is a
  parameter that says whether it succeeded. \<open>create_command_message\<close> ignores that status.\<close>

definition from_json :: "(string \<Rightarrow> 'm \<Rightarrow> bool \<times> 'm) \<Rightarrow> vecu8 \<Rightarrow> 'm \<Rightarrow> bool \<times> 'm" where
  "from_json json bytes m = json (to_string bytes) m"

definition create_command_message ::
  "(string \<Rightarrow> 'm \<Rightarrow> bool \<times> 'm) \<Rightarrow> ('m \<Rightarrow> 'm) \<Rightarrow> ('m \<Rightarrow> 'm \<Rightarrow> 'm) \<Rightarrow> 'm \<Rightarrow> string \<Rightarrow> 'm"
where
  "create_command_message json get_args set_args m args =
     (if args = [] then m else set_args (snd (json args (get_args m))) m)"

text \<open>\<open>MessageBuilder\<close>: \<open>pool\<close> gives a new message of a type of the pool. Together with \<open>create_command_message\<close> it
  makes the commands of the command line tool.\<close>

definition MessageBuilder :: "(string \<Rightarrow> 'm option) \<Rightarrow> string \<Rightarrow> 'm outcome" where
  "MessageBuilder pool name =
     (case pool name of None \<Rightarrow> Raise (runtime_error (''no such message '' @ name)) | Some m \<Rightarrow> Return m)"

definition build_command ::
  "(string \<Rightarrow> 'm option) \<Rightarrow> (string \<Rightarrow> 'm \<Rightarrow> bool \<times> 'm) \<Rightarrow> ('m \<Rightarrow> 'm) \<Rightarrow> ('m \<Rightarrow> 'm \<Rightarrow> 'm) \<Rightarrow> string \<Rightarrow> string \<Rightarrow> 'm outcome"
where
  "build_command pool json get_args set_args name args =
     obind (MessageBuilder pool name) (\<lambda>m. Return (create_command_message json get_args set_args m args))"

text \<open>Reflection: the fields that are set, in the order of their numbers, and access to a message that is the value of a
  field. \<open>rf_set\<close> is \<open>MutableMessage\<close> followed by \<open>CopyFrom\<close>.\<close>

record ('m, 'f, 'v) reflection =
  rf_ListFields :: "'m \<Rightarrow> 'f list"
  rf_name :: "'f \<Rightarrow> string"
  rf_GetMessage :: "'m \<Rightarrow> 'f \<Rightarrow> 'v"
  rf_set :: "'f \<Rightarrow> 'v \<Rightarrow> 'm \<Rightarrow> 'm"

definition find_set_fields :: "('m, 'f, 'v) reflection \<Rightarrow> 'm \<Rightarrow> 'f list" where
  "find_set_fields R m = rf_ListFields R m"

definition copy_field :: "('m, 'f, 'v) reflection \<Rightarrow> 'm \<Rightarrow> 'm \<Rightarrow> 'f \<Rightarrow> 'm" where
  "copy_field R dst src f = rf_set R f (rf_GetMessage R src f) dst"

section \<open>Repeated fields\<close>

text \<open>\<open>Add()\<close> appends a default message \<open>d\<close>.\<close>

fun fill_repeated :: "'m \<Rightarrow> nat \<Rightarrow> 'm list \<Rightarrow> 'm list" where
  "fill_repeated d 0 dst = dst"
| "fill_repeated d (Suc n) dst = fill_repeated d n (dst @ [d])"

definition fill_repeated_empty :: "'m \<Rightarrow> nat \<Rightarrow> 'm list \<Rightarrow> 'm list" where
  "fill_repeated_empty d n dst = fill_repeated d n []"

text \<open>\<open>truncate\<close>: \<open>DeleteSubrange\<close> requires a non-negative start.\<close>

definition truncate_field :: "int \<Rightarrow> 'm list \<Rightarrow> ('m list \<times> bool) outcome" where
  "truncate_field n dst =
     (if n < int (length dst)
      then (if n < 0 then Undefined else Return (take (nat n) dst, True))
      else Return (dst, False))"

text \<open>\<open>init_arrays\<close>: make a repeated field as long as an array of the game.\<close>

definition init_arrays :: "'m \<Rightarrow> nat \<Rightarrow> 'm list \<Rightarrow> 'm list" where
  "init_arrays d n dst = (if length dst \<noteq> n then fill_repeated_empty d n dst else dst)"

lemma fill_repeated_eq [simp]: "fill_repeated d n dst = dst @ replicate n d"
  by (induction n arbitrary: dst) (auto simp: replicate_append_same)

lemma fill_repeated_empty_eq [simp]: "fill_repeated_empty d n dst = replicate n d"
  by (simp add: fill_repeated_empty_def)

lemma length_init_arrays [simp]: "length (init_arrays d n dst) = n"
  by (simp add: init_arrays_def)

lemma truncate_field_Return [simp]: "truncate_field (int n) dst = Return (take n dst, n < length dst)"
  by (simp add: truncate_field_def)

section \<open>Files of messages\<close>

text \<open>
  A file is a list of bytes. \<open>varint\<close> codes a length, \<open>rdvarint\<close> reads one. \<open>parse\<close> reads a
  message from exactly the bytes of the limit into an existing message and says whether it
  succeeded. The bytes that remain after a failed parse are not used by any caller.
\<close>

definition write_message ::
  "(u32 \<Rightarrow> vecu8) \<Rightarrow> ('m \<Rightarrow> vecu8 option) \<Rightarrow> ('m \<Rightarrow> nat) \<Rightarrow> 'm \<Rightarrow> vecu8 \<Rightarrow> vecu8 \<times> bool"
where
  "write_message varint ser byte_size m out =
     (let out1 = out @ varint (of_nat (byte_size m))
      in case ser m of None \<Rightarrow> (out1, False) | Some bs \<Rightarrow> (out1 @ bs, True))"

definition read_message ::
  "(vecu8 \<Rightarrow> (u32 \<times> vecu8) option) \<Rightarrow> (vecu8 \<Rightarrow> 'm \<Rightarrow> bool \<times> 'm) \<Rightarrow> 'm \<Rightarrow> vecu8
     \<Rightarrow> bool \<times> 'm \<times> vecu8"
where
  "read_message rdvarint parse m inp =
     (case rdvarint inp of
        None \<Rightarrow> (False, m, inp)
      | Some (n, rest) \<Rightarrow>
          (case parse (take (unat n) rest) m of (ok, m') \<Rightarrow> (ok, m', drop (unat n) rest)))"

text \<open>\<open>MessageOstream::write\<close>: without a stream nothing is written. The gzip stream is
  transparent: reading it back gives the bytes that were written to it.\<close>

record message_ostream =
  os :: "vecu8 option"
  gzip :: bool

definition mo_write ::
  "(u32 \<Rightarrow> vecu8) \<Rightarrow> ('m \<Rightarrow> vecu8 option) \<Rightarrow> ('m \<Rightarrow> nat) \<Rightarrow> 'm \<Rightarrow> message_ostream
     \<Rightarrow> message_ostream \<times> bool"
where
  "mo_write varint ser byte_size m st =
     (case os st of
        None \<Rightarrow> (st, False)
      | Some out \<Rightarrow> (case write_message varint ser byte_size m out of
            (out', ok) \<Rightarrow> (st\<lparr>os := Some out'\<rparr>, ok)))"

fun mo_write_all ::
  "(u32 \<Rightarrow> vecu8) \<Rightarrow> ('m \<Rightarrow> vecu8 option) \<Rightarrow> ('m \<Rightarrow> nat) \<Rightarrow> 'm list \<Rightarrow> message_ostream
     \<Rightarrow> message_ostream"
where
  "mo_write_all varint ser byte_size [] st = st"
| "mo_write_all varint ser byte_size (m # ms) st =
     mo_write_all varint ser byte_size ms (fst (mo_write varint ser byte_size m st))"

text \<open>\<open>MessageIstream::read\<close>.\<close>

record message_istream =
  is_data :: "vecu8 option"
  is_gzip :: bool

definition mi_read ::
  "(vecu8 \<Rightarrow> (u32 \<times> vecu8) option) \<Rightarrow> (vecu8 \<Rightarrow> 'm \<Rightarrow> bool \<times> 'm) \<Rightarrow> 'm \<Rightarrow> message_istream
     \<Rightarrow> bool \<times> 'm \<times> message_istream"
where
  "mi_read rdvarint parse m st =
     (case is_data st of
        None \<Rightarrow> (False, m, st)
      | Some inp \<Rightarrow> (case read_message rdvarint parse m inp of (ok, m', rest) \<Rightarrow> (ok, m', st\<lparr>is_data := Some rest\<rparr>)))"

text \<open>\<open>dump_messages\<close>: the loop and the messages its callback is called with. It ends when a
  read fails; the callback is called after the failing read too.\<close>

partial_function (option) dump_loop ::
  "('m \<Rightarrow> 's \<Rightarrow> bool \<times> 'm \<times> 's) \<Rightarrow> 'm \<Rightarrow> 's \<Rightarrow> 'm list option"
where
  "dump_loop rd m inp =
     (case rd m inp of (ok, m', rest) \<Rightarrow>
        if ok then Option.bind (dump_loop rd m' rest) (\<lambda>ms. Some (m' # ms)) else Some [m'])"

definition dump_messages ::
  "(string \<Rightarrow> 'm option) \<Rightarrow> (vecu8 \<Rightarrow> (u32 \<times> vecu8) option) \<Rightarrow> (vecu8 \<Rightarrow> 'm \<Rightarrow> bool \<times> 'm) \<Rightarrow> string \<Rightarrow> vecu8
     \<Rightarrow> 'm list outcome option"
where
  "dump_messages pool rdvarint parse type_name file_bytes =
     (case MessageBuilder pool type_name of
        Return m \<Rightarrow> map_option Return (dump_loop (mi_read rdvarint parse) m \<lparr>is_data = Some file_bytes, is_gzip = True\<rparr>)
      | Raise e \<Rightarrow> Some (Raise e)
      | Undefined \<Rightarrow> Some Undefined)"

lemma dump_loop_stop:
  "rd m inp = (False, m', rest) \<Longrightarrow> dump_loop rd m inp = Some [m']"
  by (subst dump_loop.simps) simp

lemma dump_loop_next:
  "rd m inp = (True, m', rest) \<Longrightarrow> dump_loop rd m inp = map_option ((#) m') (dump_loop rd m' rest)"
  by (subst dump_loop.simps) (simp add: map_option_case Option.bind_def split: option.splits)

text \<open>What a sequence of writes leaves in the file.\<close>

lemma mo_write_all_os:
  assumes "\<And>m. m \<in> set ms \<Longrightarrow> ser m = Some (enc m)"
  shows "os st = Some out \<Longrightarrow> os (mo_write_all varint ser size_of ms st) =
    Some (out @ concat (map (\<lambda>m. varint (of_nat (size_of m)) @ enc m) ms))"
  using assms
proof (induction ms arbitrary: st out)
  case Nil
  then show ?case by simp
next
  case (Cons m ms)
  then have "os (fst (mo_write varint ser size_of m st)) =
      Some (out @ varint (of_nat (size_of m)) @ enc m)"
    by (simp add: mo_write_def write_message_def Let_def)
  from Cons.IH [OF this] Cons.prems show ?case by simp
qed

lemma mi_read_Some:
  "is_data st = Some inp \<Longrightarrow> mi_read rdvarint parse m st =
     (case read_message rdvarint parse m inp of (ok, m', rest) \<Rightarrow> (ok, m', st\<lparr>is_data := Some rest\<rparr>))"
  by (simp add: mi_read_def)

lemma dump_written:
  assumes rt: "\<And>n rest. rdvarint (varint n @ rest) = Some (n, rest)" and eof: "rdvarint [] = None"
    and par: "\<And>m old. m \<in> set ms \<Longrightarrow> parse (enc m) old = (True, m)"
    and len: "\<And>m. m \<in> set ms \<Longrightarrow> size_of m = length (enc m) \<and> length (enc m) < 2 ^ 32"
    and st: "is_data st = Some (concat (map (\<lambda>m. varint (of_nat (size_of m)) @ enc m) ms))"
  shows "dump_loop (mi_read rdvarint parse) m0 st = Some (ms @ [last (m0 # ms)])"
  using par len st
proof (induction ms arbitrary: m0 st)
  case Nil
  show ?case
    by (subst dump_loop_stop [where m' = m0]) (use Nil.prems(3) in \<open>simp_all add: mi_read_Some read_message_def eof\<close>)
next
  case (Cons m ms)
  let ?rest = "concat (map (\<lambda>m. varint (of_nat (size_of m)) @ enc m) ms)"
  have "unat (of_nat (length (enc m)) :: u32) = length (enc m)"
    using Cons.prems(2) [of m] by (simp add: unat_of_nat)
  then have "read_message rdvarint parse m0 ((varint (of_nat (size_of m)) @ enc m) @ ?rest) = (True, m, ?rest)"
    using Cons.prems by (simp add: read_message_def rt)
  then have "mi_read rdvarint parse m0 st = (True, m, st\<lparr>is_data := Some ?rest\<rparr>)"
    using Cons.prems(3) by (simp add: mi_read_Some)
  moreover have "dump_loop (mi_read rdvarint parse) m (st\<lparr>is_data := Some ?rest\<rparr>) = Some (ms @ [last (m # ms)])"
    using Cons.IH [of "st\<lparr>is_data := Some ?rest\<rparr>" m] Cons.prems by simp
  ultimately show ?case by (simp add: dump_loop_next)
qed

text \<open>C19: A record file can be replayed: \<open>dump_messages\<close> terminates on every file that \<open>MessageOstream::write\<close> has
  written and calls its callback with exactly the recorded messages, in order; the last one (or an empty message, for an empty
  file) is passed once more, after the read that fails at the end of the file.\<close>

theorem record_replayed:
  assumes "\<And>n rest. rdvarint (varint n @ rest) = Some (n, rest)" and "rdvarint [] = None"
    and "\<And>m. m \<in> set ms \<Longrightarrow> ser m = Some (enc m)" and "\<And>m old. m \<in> set ms \<Longrightarrow> parse (enc m) old = (True, m)"
    and "\<And>m. m \<in> set ms \<Longrightarrow> size_of m = length (enc m) \<and> length (enc m) < 2 ^ 32"
    and "pool type_name = Some fresh"
  shows "\<exists>file_bytes. os (mo_write_all varint ser size_of ms \<lparr>os = Some [], gzip = True\<rparr>) = Some file_bytes
    \<and> dump_messages pool rdvarint parse type_name file_bytes = Some (Return (ms @ [last (fresh # ms)]))"
proof -
  let ?b = "concat (map (\<lambda>m. varint (of_nat (size_of m)) @ enc m) ms)"
  have w: "os (mo_write_all varint ser size_of ms \<lparr>os = Some [], gzip = True\<rparr>) = Some ?b"
    using mo_write_all_os [of ms ser enc _ "[]" varint size_of] assms(3) by simp
  have "dump_loop (mi_read rdvarint parse) fresh \<lparr>is_data = Some ?b, is_gzip = True\<rparr> = Some (ms @ [last (fresh # ms)])"
    by (rule dump_written [OF assms(1,2,4,5)]) simp_all
  then show ?thesis using w assms(6) by (simp add: dump_messages_def MessageBuilder_def)
qed

text \<open>Lengths in unary, messages that are their own bytes.\<close>

definition demo_varint :: "u32 \<Rightarrow> vecu8" where
  "demo_varint n = replicate (unat n) 1 @ [0]"

definition demo_rdvarint :: "vecu8 \<Rightarrow> (u32 \<times> vecu8) option" where
  "demo_rdvarint bs =
     (if 0 \<in> set bs then Some (of_nat (length (takeWhile (\<lambda>b. b \<noteq> 0) bs)), tl (dropWhile (\<lambda>b. b \<noteq> 0) bs)) else None)"

lemma demo_varint_roundtrip: "demo_rdvarint (demo_varint n @ rest) = Some (n, rest)"
proof -
  have "takeWhile (\<lambda>b. b \<noteq> 0) (replicate k (1 :: u8) @ 0 # rest) = replicate k 1"
    "dropWhile (\<lambda>b. b \<noteq> 0) (replicate k (1 :: u8) @ 0 # rest) = 0 # rest" for k
    by (induction k) simp_all
  then show ?thesis by (simp add: demo_rdvarint_def demo_varint_def)
qed

theorem record_replayed_witness:
  "\<exists>file_bytes. os (mo_write_all demo_varint Some length [[1, 2], [], [3]] \<lparr>os = Some [], gzip = True\<rparr>) = Some file_bytes
    \<and> dump_messages (\<lambda>_. Some []) demo_rdvarint (\<lambda>b old. (True, b)) ''Msg'' file_bytes =
        Some (Return [[1, 2], [], [3], [3]])"
proof -
  have "\<exists>file_bytes. os (mo_write_all demo_varint Some length [[1, 2], [], [3]] \<lparr>os = Some [], gzip = True\<rparr>) = Some file_bytes
    \<and> dump_messages (\<lambda>_. Some []) demo_rdvarint (\<lambda>b old. (True, b)) ''Msg'' file_bytes =
        Some (Return ([[1, 2], [], [3]] @ [last ([] # [[1, 2], [], [3]])]))"
    by (rule record_replayed [where enc = "\<lambda>b. b", OF demo_varint_roundtrip]) (auto simp: demo_rdvarint_def)
  then show ?thesis by simp
qed

end
