(* ===== verification/Instrumentation_Service.thy ===== *)
theory Instrumentation_Service
  imports Command_Properties Protocol
begin

text \<open>
  \<^verbatim>\<open>src/src/instrumentation_service.{hpp,cpp}\<close>: the service that turns the messages of a client
  connection into commands of the command manager and the results into responses.

  The command data is \<open>ISArg\<close>, the message of the command. The service owns a command
  manager; storage and hooks belong to the \<open>'w\<close> that command handlers see. Parameters stand
  for the protocol buffer library (\<open>pack\<close>, \<open>ser\<close>, \<open>parse_cmd\<close>, \<open>json_cmd\<close>, \<open>unpack_poll\<close>,
  \<open>to_json\<close>) and for what other threads do while a poll waits (\<open>env\<close>).
\<close>

section \<open>Messages\<close>

record ISArg =
  arg_msg :: any

record cmd_result =
  command_id :: u64
  res_message :: any
  res_code :: ResponseCode
  res_error :: string

record poll_args =
  poll_queue_id :: u64
  poll_timeout :: u32

text \<open>The bodies a response can have.\<close>

datatype reply =
    RunCommandAck (ack_id: u64) (ack_queue_id: u64)
  | PollResults "cmd_result list"
  | TextResponse string

text \<open>Constants of \<^verbatim>\<open>config.hpp\<close>.\<close>

definition POLL_BLOCKING_TIMEOUT :: duration_t where
  "POLL_BLOCKING_TIMEOUT = 5 / 2"

definition POLL_RESULTS_TIMEOUT :: duration_t where
  "POLL_RESULTS_TIMEOUT = 1"

definition RESULT_QUEUE_SIZE :: u64 where
  "RESULT_QUEUE_SIZE = 32"

section \<open>Operations\<close>

type_synonym ('h, 'w) service = "(ISArg, 'h, 'w) manager"

text \<open>A socket id is an \<open>int\<close>; it is converted to the 64-bit id of a queue.\<close>

definition sock_queue :: "32 word \<Rightarrow> u64" where
  "sock_queue socket_id = scast socket_id"

definition result_msg :: "('h, 'w) service \<Rightarrow> cmd_ptr \<Rightarrow> cmd_result" where
  "result_msg m p =
     (case store m p of
        None \<Rightarrow> \<lparr>command_id = 0, res_message = \<lparr>type_url = [], payload = []\<rparr>, res_code = RESPONSE_OK,
                 res_error = []\<rparr>
      | Some item \<Rightarrow>
          \<lparr>command_id = task_id item, res_message = arg_msg (command_data item),
           res_code = (if result_code item = RC_ERROR then RESPONSE_ERROR else RESPONSE_OK),
           res_error = (if result_code item = RC_ERROR then error_message item else [])\<rparr>)"

text \<open>The results are taken from the back of the vector.\<close>

fun poll_loop :: "('h, 'w) service \<Rightarrow> cmd_ptr list \<Rightarrow> cmd_result list" where
  "poll_loop m results =
     (if results = [] then [] else result_msg m (last results) # poll_loop m (butlast results))"

declare poll_loop.simps [simp del]

definition service_flush ::
  "u64 \<Rightarrow> duration_t \<Rightarrow> (('h, 'w) service \<Rightarrow> ('h, 'w) service) \<Rightarrow> ('h, 'w) service
     \<Rightarrow> ('h, 'w) service \<times> reply outcome"
where
  "service_flush qid delay env m =
     (case flush_results qid delay env m of
        (m1, Return results) \<Rightarrow> (m1, Return (PollResults (poll_loop m1 results)))
      | (m1, Raise e) \<Rightarrow> (m1, Raise e)
      | (m1, Undefined) \<Rightarrow> (m1, Undefined))"

text \<open>\<open>handle_cmd\<close>; the handle of the command is its pointer.\<close>

definition handle_cmd ::
  "u64 \<Rightarrow> proto_command \<Rightarrow> bool \<Rightarrow> 'h option \<Rightarrow> ('h, 'w) service
     \<Rightarrow> ('h, 'w) service \<times> (cmd_ptr \<times> reply) outcome"
where
  "handle_cmd qid cmd discard done_cb m =
     (let name = last (split_string (type_url (command_any cmd)) CHR ''/'')
      in case make_command name \<lparr>arg_msg = command_any cmd\<rparr> qid done_cb m of
           (m1, Return p) \<Rightarrow>
             (enqueue_command p (upd_cmd p (\<lambda>c. c\<lparr>discard_result := discard\<rparr>) m1),
              Return (p, RunCommandAck (ptr_task_id m1 p) qid))
         | (m1, Raise e) \<Rightarrow> (m1, Raise e)
         | (m1, Undefined) \<Rightarrow> (m1, Undefined))"

text \<open>The request parsed from the bytes of a message, and whether it was JSON.\<close>

definition parse_request ::
  "(vecu8 \<Rightarrow> proto_command option) \<Rightarrow> (vecu8 \<Rightarrow> proto_command option) \<Rightarrow> vecu8
     \<Rightarrow> proto_command outcome \<times> bool"
where
  "parse_request parse_cmd json_cmd bytes =
     (case parse_cmd bytes of
        Some cmd \<Rightarrow> (Return cmd, False)
      | None \<Rightarrow>
          (case json_cmd bytes of
             Some cmd \<Rightarrow> (Return cmd, True)
           | None \<Rightarrow> (Raise (runtime_error ''Message parse error''), False)))"

text \<open>The timeout of a blocking poll. \<open>IsInitialized\<close> of a message without required fields is
  true, so the default is never used.\<close>

definition poll_duration :: "poll_args \<Rightarrow> duration_t" where
  "poll_duration a = of_nat (unat (poll_timeout a)) / 1000"

definition poll_queue :: "32 word \<Rightarrow> poll_args \<Rightarrow> u64" where
  "poll_queue socket_id a =
     (if poll_queue_id a > 0 then poll_queue_id a else sock_queue socket_id)"

text \<open>\<open>process_request\<close> after parsing. \<open>on_shutdown\<close> is the callback of the constructor.\<close>

definition run_request ::
  "(any \<Rightarrow> poll_args) \<Rightarrow> (('h, 'w) service \<Rightarrow> ('h, 'w) service \<times> string outcome) option
     \<Rightarrow> (('h, 'w) service \<Rightarrow> ('h, 'w) service) \<Rightarrow> 32 word \<Rightarrow> proto_command \<Rightarrow> ('h, 'w) service
     \<Rightarrow> ('h, 'w) service \<times> reply outcome"
where
  "run_request unpack_poll on_shutdown env socket_id cmd m =
     (case command_type cmd of
        CLIENT_COMMAND \<Rightarrow>
          (case handle_cmd (sock_queue socket_id) cmd False None m of
             (m1, Return (p, ack)) \<Rightarrow>
               (if blocking cmd
                then service_flush (sock_queue socket_id) POLL_BLOCKING_TIMEOUT env m1
                else (m1, Return ack))
           | (m1, Raise e) \<Rightarrow> (m1, Raise e)
           | (m1, Undefined) \<Rightarrow> (m1, Undefined))
      | POLL \<Rightarrow> service_flush (sock_queue socket_id) POLL_RESULTS_TIMEOUT env m
      | POLL_BLOCKING \<Rightarrow>
          (let a = unpack_poll (command_any cmd)
           in service_flush (poll_queue socket_id a) (poll_duration a) env m)
      | PROTO_SHUTDOWN \<Rightarrow>
          (case on_shutdown of
             None \<Rightarrow> (m, Raise bad_function_call)
           | Some f \<Rightarrow> (case f m of
               (m1, r) \<Rightarrow> (m1, obind r (\<lambda>s. Return (TextResponse s)))))
      | UNKNOWN_TYPE t \<Rightarrow> (m, Raise (runtime_error (''unknown command: '' @ show_int t))))"

definition process_request ::
  "(reply \<Rightarrow> any option) \<Rightarrow> (any \<Rightarrow> poll_args)
     \<Rightarrow> (('h, 'w) service \<Rightarrow> ('h, 'w) service \<times> string outcome) option
     \<Rightarrow> (('h, 'w) service \<Rightarrow> ('h, 'w) service) \<Rightarrow> 32 word \<Rightarrow> proto_command outcome \<Rightarrow> ('h, 'w) service
     \<Rightarrow> ('h, 'w) service \<times> Response outcome"
where
  "process_request pack unpack_poll on_shutdown env socket_id req m =
     (case req of
        Return cmd \<Rightarrow>
          (case run_request unpack_poll on_shutdown env socket_id cmd m of
             (m1, r) \<Rightarrow> (m1, obind r (\<lambda>b. make_response pack b RESPONSE_OK)))
      | Raise e \<Rightarrow> (m, Raise e)
      | Undefined \<Rightarrow> (m, Undefined))"

definition service_on_shutdown ::
  "(('h, 'w) service \<Rightarrow> ('h, 'w) service \<times> string outcome) option \<Rightarrow> ('h, 'w) service
     \<Rightarrow> ('h, 'w) service \<times> string outcome"
where
  "service_on_shutdown f m = (case f of None \<Rightarrow> (m, Return []) | Some g \<Rightarrow> g m)"

text \<open>\<open>on_receive_bytes\<close>: every exception becomes an error response.\<close>

definition answer ::
  "(reply \<Rightarrow> any option) \<Rightarrow> Response outcome \<Rightarrow> Response outcome"
where
  "answer pack r =
     (case r of
        Return resp \<Rightarrow> Return (resp\<lparr>code := RESPONSE_OK\<rparr>)
      | Raise e \<Rightarrow> make_response pack (TextResponse (what e)) RESPONSE_ERROR
      | Undefined \<Rightarrow> Undefined)"

definition on_receive_bytes ::
  "(reply \<Rightarrow> any option) \<Rightarrow> (Response \<Rightarrow> vecu8 option) \<Rightarrow> (Response \<Rightarrow> string)
     \<Rightarrow> (vecu8 \<Rightarrow> proto_command option) \<Rightarrow> (vecu8 \<Rightarrow> proto_command option) \<Rightarrow> (any \<Rightarrow> poll_args)
     \<Rightarrow> (('h, 'w) service \<Rightarrow> ('h, 'w) service \<times> string outcome) option
     \<Rightarrow> (('h, 'w) service \<Rightarrow> ('h, 'w) service) \<Rightarrow> 32 word \<Rightarrow> vecu8 \<Rightarrow> ('h, 'w) service
     \<Rightarrow> ('h, 'w) service \<times> vecu8 outcome"
where
  "on_receive_bytes pack ser to_json parse_cmd json_cmd unpack_poll on_shutdown env socket_id bytes m =
     (case parse_request parse_cmd json_cmd bytes of
        (req, is_json) \<Rightarrow>
          (case process_request pack unpack_poll on_shutdown env socket_id req m of
             (m1, r) \<Rightarrow>
               (m1, obind (answer pack r) (\<lambda>R.
                  if is_json then Return (to_bytes (to_json R))
                  else to_vecu8 ser (\<lambda>_. ''ra2yrproto.Response'') R))))"

text \<open>\<open>on_accept\<close> and \<open>on_close\<close>, up to the wait for the worker.\<close>

definition on_accept ::
  "ISArg \<Rightarrow> 32 word \<Rightarrow> ('h, 'w) service \<Rightarrow> ('h, 'w) service \<times> cmd_ptr"
where
  "on_accept dflt socket_id m = execute_create_queue dflt (sock_queue socket_id) RESULT_QUEUE_SIZE m"

definition on_close ::
  "ISArg \<Rightarrow> 32 word \<Rightarrow> ('h, 'w) service \<Rightarrow> ('h, 'w) service \<times> cmd_ptr"
where
  "on_close dflt socket_id m = execute_destroy_queue dflt (sock_queue socket_id) m"

text \<open>\<open>create\<close> registers the commands after the constructor has started the worker.\<close>

fun add_commands :: "(string \<times> 'h) list \<Rightarrow> ('h, 'w) service \<Rightarrow> ('h, 'w) service" where
  "add_commands [] m = m"
| "add_commands ((name, fn) # cs) m = add_commands cs (add_command name fn m)"

definition service_create ::
  "'w \<Rightarrow> (('h, 'w) service \<Rightarrow> ('h, 'w) service) option \<Rightarrow> (string \<times> 'h) list \<Rightarrow> ('h, 'w) service outcome"
where
  "service_create w extra_init commands =
     obind (cm_start (cm_init w)) (\<lambda>m.
       Return (add_commands commands (case extra_init of None \<Rightarrow> m | Some f \<Rightarrow> f m)))"

section \<open>Lemmas\<close>

lemma poll_loop_rev [simp]: "poll_loop m results = map (result_msg m) (rev results)"
  by (induction results rule: rev_induct) (simp_all add: poll_loop.simps)

lemma handlers_add_commands:
  "handlers (add_commands cs m) = handlers m ++ map_of (rev cs)"
  by (induction cs m rule: add_commands.induct) (auto simp: add_command_def fun_eq_iff map_add_def split: option.splits)

lemma unat_queue_size: "unat (ucast RESULT_QUEUE_SIZE :: u32) = 32"
  by (simp add: RESULT_QUEUE_SIZE_def)

lemma handle_cmd_step:
  assumes "handle_cmd qid cmd discard cb m = (m1, r)" and "r \<noteq> Undefined"
  shows "cm_step call m m1"
  using assms
  by (auto simp: handle_cmd_def Let_def split: prod.splits outcome.splits
      intro: step_submit step_submit_fail)

lemma on_accept_step: "on_accept dflt s m = (m1, p) \<Longrightarrow> cm_step call m m1"
  by (rule step_create [of RESULT_QUEUE_SIZE]) (simp_all add: on_accept_def unat_queue_size)

lemma on_close_step: "on_close dflt s m = (m1, p) \<Longrightarrow> cm_step call m m1"
  by (rule step_destroy) (simp add: on_close_def)

lemma wq_push_single [simp]: "wq_push cmp p [] = [p]"
  by (simp add: wq_push_def sift_up.simps)

lemma wq_pop_single [simp]: "wq_pop cmp [p] = Return []"
  by (simp add: wq_pop_def)

lemma wq_top_single [simp]: "wq_top [p] = Return p"
  by (simp add: wq_top_def)

text \<open>A command on an idle worker: it is acknowledged, executed in two steps, and its result is the only
  one that the next poll of the queue returns, with or without a timeout.\<close>

lemma command_runs:
  assumes reach: "cm_exec call (cm_init w) ps m"
    and idle: "worker_state m = WIdle" "active m" "work_queue m = []"
    and queue: "results_queue m (sock_queue s) = Some rq" "ptrs rq = []"
    and handler: "handlers m (message_type (command_any cmd)) = Some h"
    and run: "\<And>p c. call h p (world m) c = (w', c\<lparr>command_data := d\<rparr>, e)"
  shows "\<exists>m1 m2 i. handle_cmd (sock_queue s) cmd False None m = (m1, Return (next_addr m, RunCommandAck i (sock_queue s)))
    \<and> worker_run call 2 m1 = Return m2 \<and> world m2 = w'
    \<and> (\<forall>delay env. \<exists>m3. service_flush (sock_queue s) delay env m2 =
        (m3, Return (PollResults [\<lparr>command_id = i, res_message = arg_msg d,
           res_code = (if e = None then RESPONSE_OK else RESPONSE_ERROR),
           res_error = (case e of None \<Rightarrow> [] | Some x \<Rightarrow> what x)\<rparr>])) \<and> world m3 = w')"
proof -
  let ?q = "sock_queue s" and ?p = "next_addr m" and ?i = "ucast (command_counter m + 1) :: u64"
  let ?B = "\<lparr>bd_name = message_type (command_any cmd), bd_queue_id = ?q, bd_task_id = ?i,
    bd_queue_size = 0, bd_type = USER\<rparr>"
  let ?c = "(new_command ?B (Some h) \<lparr>arg_msg = command_any cmd\<rparr> None)\<lparr>discard_result := False\<rparr>"
  let ?m1 = "m\<lparr>command_counter := command_counter m + 1, store := (store m)(?p \<mapsto> ?c),
    next_addr := Suc ?p, work_queue := [?p]\<rparr>"
  have h: "handle_cmd ?q cmd False None m = (?m1, Return (?p, RunCommandAck ?i ?q))"
    using handler idle(3) by (simp add: handle_cmd_def make_command_def map_at_def alloc_cmd_def
        enqueue_command_def upd_cmd_def ptr_task_id_def message_type_def new_command_def Let_def)
  let ?c2 = "user_command_code e (?c\<lparr>command_data := d\<rparr>)"
  let ?m2 = "?m1\<lparr>work_queue := [], world := w', store := (store m)(?p \<mapsto> ?c\<lparr>command_data := d\<rparr>),
    worker_state := WRan ?p e\<rparr>"
  have pick: "worker_pick call ?m1 = Return ?m2"
    by (simp add: worker_pick_def user_command_run_def cmd_run_def invoke_def run new_command_def
        split: option.splits)
  have wq: "wf_result (bases m) (set (work_queue m) \<union> running m) ?q rq"
    using reachable_wf [OF reach] queue(1) by (simp add: cm_wf_def)
  then have rb: "rb_wf (aq_q (rq_queue rq))" "aq_max (rq_queue rq) = 0" by (simp_all add: wf_result_def)
  from result_emplace [OF this, of ?p] queue(2) rb(1) obtain aq where
    aq: "aq_emplace rb_ops [] ?p (rq_queue rq) = Some (Return aq)" "rb_wf (aq_q aq)" "rb_q (aq_q aq) = [?p]"
    by (auto simp: rb_wf_def)
  let ?m3 = "?m2\<lparr>store := (store m)(?p \<mapsto> ?c2), worker_state := WIdle,
    results_queue := (results_queue m)(?q \<mapsto> rq\<lparr>rq_queue := aq\<rparr>)\<rparr>"
  have fin: "worker_finish ?m2 = Return ?m3"
    using queue aq(1) by (cases e) (simp_all add: worker_finish_def user_command_publish_def Let_def
        user_command_code_def new_command_def set_error_def)
  obtain m3 where m3: "m3 = ?m3" by blast
  have two: "worker_run call 2 ?m1 = Return m3"
    using idle pick fin by (simp add: numeral_2_eq_2 worker_step_def m3)
  have st3: "store m3 ?p = Some ?c2" "results_queue m3 ?q = Some (rq\<lparr>rq_queue := aq\<rparr>)" "world m3 = w'"
    by (simp_all add: m3)
  have np: "not_pending m3 ?p"
    using st3(1)
    by (simp add: not_pending_def user_command_code_def new_command_def set_error_def split: option.splits)
  have "\<exists>m4. service_flush ?q delay env m3 =
        (m4, Return (PollResults [\<lparr>command_id = ?i, res_message = arg_msg d,
           res_code = (if e = None then RESPONSE_OK else RESPONSE_ERROR),
           res_error = (case e of None \<Rightarrow> [] | Some x \<Rightarrow> what x)\<rparr>])) \<and> world m4 = w'" for delay env
  proof -
    have "\<not> aq_empty rb_ops (rq_queue (rq\<lparr>rq_queue := aq\<rparr>))"
      using aq(3) by (simp add: aq_empty_def aq_size_def rb_ops_def rb_size_def)
    from flush_results_eq [OF st3(2), of m3 delay env] this st3(2) aq(2,3) np obtain m4 where
      fl: "flush_results ?q delay env m3 = (m4, Return [?p])" and st: "store m4 = store m3" "world m4 = world m3" by auto
    have "result_msg m4 ?p = \<lparr>command_id = ?i, res_message = arg_msg d,
        res_code = (if e = None then RESPONSE_OK else RESPONSE_ERROR),
        res_error = (case e of None \<Rightarrow> [] | Some x \<Rightarrow> what x)\<rparr>"
      using st(1) st3(1)
      by (cases e) (simp_all add: result_msg_def user_command_code_def new_command_def set_error_def)
    then show ?thesis using st(2) st3(3) by (simp add: service_flush_def fl)
  qed
  then show ?thesis using h two st3(3) by blast
qed

section \<open>Properties\<close>


text \<open>A connected client, to evaluate the theorem on: \<open>echo_call\<close> replaces the data of the
  command by a fixed answer.\<close>

definition echo_data :: ISArg where
  "echo_data = \<lparr>arg_msg = \<lparr>type_url = ''x/Pong'', payload = [1, 2]\<rparr>\<rparr>"

definition echo_call :: "(ISArg, unit, unit) interp" where
  "echo_call h p w c = (w, c\<lparr>command_data := echo_data\<rparr>, None)"

definition echo_service :: "(unit, unit) service" where
  "echo_service =
     (case worker_run echo_call 1 (fst (on_accept echo_data 3 (add_command ''Ping'' () (cm_init ())))) of
        Return m \<Rightarrow> m | _ \<Rightarrow> cm_init ())"

lemma echo_reach: "\<exists>ps. cm_exec echo_call (cm_init ()) ps echo_service"
proof -
  let ?m0 = "add_command ''Ping'' () (cm_init ()) :: (unit, unit) service"
  obtain m1 p where m1: "on_accept echo_data 3 ?m0 = (m1, p)" by fastforce
  obtain qs where qs: "cm_exec echo_call (cm_init ()) qs m1"
    using exec_step [OF exec_step [OF exec_refl step_add] on_accept_step [OF m1]] by blast
  have "worker_step echo_call (fst (on_accept echo_data 3 ?m0)) \<noteq> None" by code_simp
  then have "worker_step echo_call m1 \<noteq> None" unfolding m1 by simp
  then obtain m2 where m2: "worker_step echo_call m1 = Some (Return m2)"
    using cm_wf_worker_step [OF reachable_wf [OF qs]] by blast
  then have "echo_service = m2" by (simp add: echo_service_def m1)
  with exec_step [OF qs step_worker [OF m2]] show ?thesis by blast
qed


lemma flush_reachable:
  assumes "cm_exec call (cm_init w) ps m"
  shows "(\<exists>m1 res. flush_results i t (\<lambda>m. m) m = (m1, Return res) \<and> store m1 = store m
      \<and> cm_step call m m1) \<or> (\<exists>e. flush_results i t (\<lambda>m. m) m = (m, Raise e))"
proof (cases "results_queue m i")
  case None
  then show ?thesis by (simp add: flush_results_def)
next
  case (Some rq)
  have "wf_result (bases m) (set (work_queue m) \<union> running m) i rq"
    using reachable_wf [OF assms] Some by (simp add: cm_wf_def)
  then have "rb_wf (aq_q (rq_queue rq))" by (simp add: wf_result_def)
  from flush_results_eq [OF Some refl, of t "\<lambda>m. m" rq] this Some obtain m1 res where
    f: "flush_results i t (\<lambda>m. m) m = (m1, Return res)" "store m1 = store m" by fastforce
  with step_poll [OF f(1)] show ?thesis by blast
qed

text \<open>A poll reports the finished results in the order in which they were completed,
  oldest first: the queue hands them out newest first, and the service takes them from the
  back.\<close>

lemma poll_in_completion_order:
  assumes "cm_exec call (cm_init w) ps m" and "results_queue m i = Some rq"
  shows "\<exists>m'. service_flush i t (\<lambda>m. m) m =
    (m', Return (PollResults (map (result_msg m) (filter (not_pending m) (ptrs rq)))))"
proof -
  have "wf_result (bases m) (set (work_queue m) \<union> running m) i rq"
    using reachable_wf [OF assms(1)] assms(2) by (simp add: cm_wf_def)
  then have "rb_wf (aq_q (rq_queue rq))" by (simp add: wf_result_def)
  from flush_results_eq [OF assms(2) refl, of t "\<lambda>m. m" rq] this assms(2) obtain m1 where
    f: "flush_results i t (\<lambda>m. m) m = (m1, Return (rev (filter (not_pending m) (ptrs rq))))"
      "store m1 = store m" by fastforce
  have "result_msg m1 = result_msg m" using f(2) by (simp add: result_msg_def fun_eq_iff)
  then show ?thesis by (simp add: service_flush_def f(1))
qed

lemma service_flush_reachable:
  assumes "cm_exec call (cm_init w) qs m1"
  shows "\<exists>m2 r. service_flush i t (\<lambda>m. m) m1 = (m2, r) \<and> r \<noteq> Undefined
    \<and> (\<exists>qs. cm_exec call (cm_init w) qs m2)"
  using flush_reachable [OF assms, of i t]
proof (elim disjE exE conjE)
  fix m2 res
  assume "flush_results i t (\<lambda>m. m) m1 = (m2, Return res)" "cm_step call m1 m2"
  with exec_step [OF assms] show ?thesis by (auto simp: service_flush_def)
qed (use assms in \<open>auto simp: service_flush_def\<close>)

lemma run_request_reachable:
  assumes reach: "cm_exec call (cm_init w) ps m"
    and sd: "\<forall>f m. sd = Some f \<longrightarrow> (\<exists>t. f m = (m, Return t))"
  shows "\<exists>m1 r. run_request unpack_poll sd (\<lambda>m. m) socket_id cmd m = (m1, r) \<and> r \<noteq> Undefined
    \<and> (\<exists>qs. cm_exec call (cm_init w) qs m1)"
proof (cases "command_type cmd")
  case CLIENT_COMMAND
  obtain m1 r where h: "handle_cmd (sock_queue socket_id) cmd False None m = (m1, r)" by fastforce
  have r: "r \<noteq> Undefined"
    using h make_command_cases by (fastforce simp: handle_cmd_def Let_def split: prod.splits outcome.splits)
  have e: "cm_exec call (cm_init w) (ps @ started m m1) m1"
    by (rule exec_step [OF reach handle_cmd_step [OF h r]])
  with service_flush_reachable [OF e] h r show ?thesis
    by (cases r) (auto simp: run_request_def CLIENT_COMMAND)
next
  case PROTO_SHUTDOWN
  show ?thesis
  proof (cases sd)
    case None
    then show ?thesis using reach by (auto simp: run_request_def PROTO_SHUTDOWN)
  next
    case (Some f)
    from sd this obtain t where "f m = (m, Return t)" by blast
    then show ?thesis using reach Some by (auto simp: run_request_def PROTO_SHUTDOWN)
  qed
qed (use service_flush_reachable [OF reach] reach in \<open>auto simp: run_request_def Let_def\<close>)

lemma process_request_reachable:
  assumes reach: "cm_exec call (cm_init w) ps m" and req: "req \<noteq> Undefined"
    and sd: "\<forall>f m. sd = Some f \<longrightarrow> (\<exists>t. f m = (m, Return t))"
  shows "\<exists>m1 r. process_request pack unpack_poll sd (\<lambda>m. m) socket_id req m = (m1, r)
      \<and> r \<noteq> Undefined \<and> (\<exists>qs. cm_exec call (cm_init w) qs m1)"
proof (cases req)
  case (Return cmd)
  obtain m1 r where r: "run_request unpack_poll sd (\<lambda>m. m) socket_id cmd m = (m1, r)"
    "r \<noteq> Undefined" "\<exists>qs. cm_exec call (cm_init w) qs m1"
    using run_request_reachable [OF reach sd] by metis
  have "make_response pack b c \<noteq> Undefined" for b c
    by (simp add: make_response_def split: option.splits)
  with r show ?thesis by (cases r) (auto simp: process_request_def Return)
qed (use reach req in \<open>auto simp: process_request_def\<close>)

text \<open>Robustness against arbitrary input. Whatever bytes a client sends, in every
  reachable state of the service: the behaviour is defined, and the service is in a reachable
  state again, so all invariants continue to hold. The bytes are answered (with an error response when the
  request cannot be parsed, names an unknown command or polls a queue that does not exist), provided that
  replies can be packed and serialised.\<close>

lemma receive_reachable:
  assumes reach: "cm_exec call (cm_init w) ps m"
    and sd: "\<forall>f m. sd = Some f \<longrightarrow> (\<exists>t. f m = (m, Return t))"
  shows "\<exists>m1 r qs. on_receive_bytes pack ser to_json parse_cmd json_cmd unpack_poll sd (\<lambda>m. m) socket_id bytes m = (m1, r)
    \<and> cm_exec call (cm_init w) qs m1 \<and> r \<noteq> Undefined
    \<and> ((\<forall>x. pack x \<noteq> None) \<and> (\<forall>R. ser R \<noteq> None) \<longrightarrow> (\<exists>out. r = Return out))"
proof -
  obtain req is_json where pr: "parse_request parse_cmd json_cmd bytes = (req, is_json)" by fastforce
  have req: "req \<noteq> Undefined"
    using pr by (auto simp: parse_request_def split: option.splits)
  from process_request_reachable [OF reach req sd] obtain m1 r qs where p: "process_request pack unpack_poll sd (\<lambda>m. m) socket_id req m = (m1, r)"
    "r \<noteq> Undefined" "cm_exec call (cm_init w) qs m1" by metis
  let ?out = "obind (answer pack r) (\<lambda>R. if is_json then Return (to_bytes (to_json R))
    else to_vecu8 ser (\<lambda>_. ''ra2yrproto.Response'') R)"
  have "?out \<noteq> Undefined \<and> ((\<forall>x. pack x \<noteq> None) \<and> (\<forall>R. ser R \<noteq> None) \<longrightarrow> (\<exists>out. ?out = Return out))"
    using p(2) by (cases r) (auto simp: answer_def make_response_def to_vecu8_def split: option.splits)
  with p pr show ?thesis by (auto simp: on_receive_bytes_def)
qed

text \<open>The functions of the message library that the service uses.\<close>

record service_lib =
  sv_pack :: "reply \<Rightarrow> any option"
  sv_serialize :: "Response \<Rightarrow> vecu8 option"
  sv_to_json :: "Response \<Rightarrow> string"
  sv_parse :: "vecu8 \<Rightarrow> proto_command option"
  sv_json :: "vecu8 \<Rightarrow> proto_command option"
  sv_poll_args :: "any \<Rightarrow> poll_args"

end
