(* ===== verification/Game_State.thy ===== *)
theory Game_State
  imports Protocol
begin

text \<open>
  The data that the program reads from the game and the messages it writes.

  The classes of the game (\<open>ObjectClass\<close>, \<open>CellClass\<close>, ...) come from a library of headers, the
  messages (\<open>ra2yrproto::ra2yr::Object\<close>, ...) are generated. Both are records of the fields that
  \<^verbatim>\<open>src/src/ra2\<close> and the commands use. A sub-message that can be absent is an option; a pointer is
  its address, 0 for null; enumerations that are only passed through are integers. A message
  field keeps its value until it is set, because the program reuses messages.
\<close>

section \<open>Enumerations\<close>

datatype AbstractType =
    ABSTRACT_TYPE_NONE | ABSTRACT_TYPE_UNIT | ABSTRACT_TYPE_AIRCRAFT | ABSTRACT_TYPE_BUILDING
  | ABSTRACT_TYPE_INFANTRY | ABSTRACT_TYPE_OVERLAY | ABSTRACT_TYPE_UNITTYPE
  | ABSTRACT_TYPE_AIRCRAFTTYPE | ABSTRACT_TYPE_BUILDINGTYPE | ABSTRACT_TYPE_INFANTRYTYPE
  | ABSTRACT_TYPE_OVERLAYTYPE | ABSTRACT_TYPE_OTHER int

text \<open>The class of a game object, as \<open>WhatAmI\<close> reports it.\<close>

datatype AbsID =
    UnitAbs | BuildingAbs | InfantryAbs | AircraftAbs | CellAbs
  | BuildingTypeAbs | AircraftTypeAbs | InfantryTypeAbs | UnitTypeAbs | OverlayTypeAbs
  | OtherAbs int

datatype EventType =
    EV_SELL | EV_SELLCELL | EV_PLACE | EV_PRODUCE | EV_MEGAMISSION | EV_MEGAMISSION_F | EV_DEPLOY | EV_OTHER u8

datatype Mission =
    Mission_None | Mission_Construction | Mission_Move | Mission_Capture | Mission_Attack
  | Mission_AttackMove | Mission_Stop

datatype UnitAction =
    UNIT_ACTION_DEPLOY | UNIT_ACTION_SELL | UNIT_ACTION_SELL_CELL | UNIT_ACTION_SELECT
  | UNIT_ACTION_MOVE | UNIT_ACTION_CAPTURE | UNIT_ACTION_ATTACK | UNIT_ACTION_ATTACK_MOVE
  | UNIT_ACTION_REPAIR | UNIT_ACTION_STOP | UNIT_ACTION_OTHER int

text \<open>\<open>LAND_TYPE_Tiberium\<close> is a constant of the schema.\<close>

type_synonym LandType = int

section \<open>Coordinates\<close>

record Coordinates =
  co_x :: int
  co_y :: int
  co_z :: int

record CellStruct =
  cell_X :: int
  cell_Y :: int

section \<open>Messages\<close>

record Object =
  pointer_self :: u32
  object_type :: AbstractType
  health :: int
  selected :: bool
  in_limbo :: bool
  on_map :: bool
  coordinates :: "Coordinates option"
  destination :: "Coordinates option"
  current_mission :: int
  pointer_house :: u32
  pointer_initial_owner :: u32
  pointer_technotypeclass :: u32
  deployed :: bool
  deploying :: bool

definition Object_default :: Object where
  "Object_default =
     \<lparr>pointer_self = 0, object_type = ABSTRACT_TYPE_NONE, health = 0, selected = False, in_limbo = False,
      on_map = False, coordinates = None, destination = None, current_mission = 0, pointer_house = 0,
      pointer_initial_owner = 0, pointer_technotypeclass = 0, deployed = False, deploying = False\<rparr>"

record ObjectTypeClass =
  tc_pointer_self :: u32
  tc_name :: string
  tc_array_index :: int
  tc_type :: AbstractType
  tc_cost :: int
  tc_soylent :: int
  tc_prerequisites :: "int list"
  tc_required_houses :: u32
  tc_forbidden_houses :: u32
  tc_owner_flags :: u32
  tc_tech_level :: int
  tc_build_limit :: int
  tc_naval :: bool
  tc_stolen_allied :: bool
  tc_stolen_soviet :: bool
  tc_stolen_third :: bool
  tc_strength :: int
  tc_armor_type :: int
  tc_power_drain :: int
  tc_power_bonus :: int
  tc_is_base_defense :: bool
  tc_wall :: bool
  tc_build_category :: int

definition ObjectTypeClass_default :: ObjectTypeClass where
  "ObjectTypeClass_default =
     \<lparr>tc_pointer_self = 0, tc_name = [], tc_array_index = 0, tc_type = ABSTRACT_TYPE_NONE, tc_cost = 0,
      tc_soylent = 0, tc_prerequisites = [], tc_required_houses = 0, tc_forbidden_houses = 0,
      tc_owner_flags = 0, tc_tech_level = 0, tc_build_limit = 0, tc_naval = False,
      tc_stolen_allied = False, tc_stolen_soviet = False, tc_stolen_third = False, tc_strength = 0,
      tc_armor_type = 0, tc_power_drain = 0, tc_power_bonus = 0, tc_is_base_defense = False,
      tc_wall = False, tc_build_category = 0\<rparr>"

record TargetClass =
  m_id :: int
  m_rtti :: int

record Production =
  pr_rtti_id :: int
  pr_heap_id :: int
  pr_is_naval :: bool

record PlaceMsg =
  pl_rtti_type :: int
  pl_heap_id :: int
  pl_is_naval :: bool
  pl_location :: Coordinates

record MegaMissionMsg =
  mm_whom :: TargetClass
  mm_mission :: int
  mm_target :: TargetClass
  mm_destination :: TargetClass
  mm_follow :: TargetClass
  mm_is_planning_event :: bool

record MegaMissionFMsg =
  mf_whom :: TargetClass
  mf_mission :: int
  mf_target :: TargetClass
  mf_destination :: TargetClass
  mf_speed :: int
  mf_max_speed :: int

record Event =
  event_type :: EventType
  is_executed :: bool
  ev_house_index :: int
  ev_frame :: u32
  ev_timing :: u32
  production :: "Production option"
  place :: "PlaceMsg option"
  sell_cell :: "Coordinates option"
  mega_mission :: "MegaMissionMsg option"
  mega_mission_f :: "MegaMissionFMsg option"

definition Event_default :: Event where
  "Event_default =
     \<lparr>event_type = EV_OTHER 0, is_executed = False, ev_house_index = 0, ev_frame = 0, ev_timing = 0,
      production = None, place = None, sell_cell = None, mega_mission = None, mega_mission_f = None\<rparr>"

record House =
  h_array_index :: int
  h_current_player :: bool
  h_defeated :: bool
  h_is_game_over :: bool
  h_is_loser :: bool
  h_is_winner :: bool
  h_money :: int
  h_power_drain :: int
  h_power_output :: int
  h_start_credits :: int
  h_self :: u32
  h_name :: string
  h_type_array_index :: int
  h_allied_infiltrated :: bool
  h_soviet_infiltrated :: bool
  h_third_infiltrated :: bool
  h_is_human_player :: bool

definition House_default :: House where
  "House_default =
     \<lparr>h_array_index = 0, h_current_player = False, h_defeated = False, h_is_game_over = False,
      h_is_loser = False, h_is_winner = False, h_money = 0, h_power_drain = 0, h_power_output = 0,
      h_start_credits = 0, h_self = 0, h_name = [], h_type_array_index = 0,
      h_allied_infiltrated = False, h_soviet_infiltrated = False, h_third_infiltrated = False,
      h_is_human_player = False\<rparr>"

record Factory =
  f_object :: u32
  f_owner :: u32
  f_progress_timer :: int
  f_on_hold :: bool
  f_completed :: bool
  f_queued_objects :: "u32 list"

definition Factory_default :: Factory where
  "Factory_default = \<lparr>f_object = 0, f_owner = 0, f_progress_timer = 0, f_on_hold = False,
     f_completed = False, f_queued_objects = []\<rparr>"

text \<open>The message of a map cell; of its objects only the first is ever set.\<close>

record CellMsg =
  c_land_type :: LandType
  c_radiation_level :: rat
  c_height :: int
  c_level :: int
  c_overlay_data :: int
  c_tiberium_value :: int
  c_shrouded :: bool
  c_passability :: u32
  c_index :: int
  c_objects :: "u32 list"
  c_wall_owner_index :: int
  c_overlay_type_index :: int

definition CellMsg_default :: CellMsg where
  "CellMsg_default =
     \<lparr>c_land_type = 0, c_radiation_level = 0, c_height = 0, c_level = 0, c_overlay_data = 0,
      c_tiberium_value = 0, c_shrouded = False, c_passability = 0, c_index = 0, c_objects = [],
      c_wall_owner_index = 0, c_overlay_type_index = 0\<rparr>"

record MapData =
  md_width :: int
  md_height :: int
  md_cells :: "CellMsg list"

record EventLists =
  el_out_list :: "Event list"
  el_do_list :: "Event list"
  el_megamission_list :: "Event list"

record EventListsSnapshot =
  es_lists :: "EventLists list"
  es_frame :: "u32 list"

record PrerequisiteGroups =
  pg_proc :: "int list"
  pg_tech :: "int list"
  pg_radar :: "int list"
  pg_barracks :: "int list"
  pg_factory :: "int list"
  pg_power :: "int list"

datatype LoadStage = STAGE_INITIAL | STAGE_LOADING | STAGE_INGAME | STAGE_EXIT_GAME

record GameState =
  objects :: "Object list"
  houses :: "House list"
  factories :: "Factory list"
  object_types :: "ObjectTypeClass list"
  prereq_groups :: PrerequisiteGroups
  out_list :: "Event list"
  do_list :: "Event list"
  megamission_list :: "Event list"
  cells_difference :: "CellMsg list"
  current_frame :: u32
  stage :: LoadStage
  crc :: u32
  tech_level :: int
  load_progresses :: "rat list"

definition GameState_default :: GameState where
  "GameState_default =
     \<lparr>objects = [], houses = [], factories = [], object_types = [],
      prereq_groups = \<lparr>pg_proc = [], pg_tech = [], pg_radar = [], pg_barracks = [], pg_factory = [],
        pg_power = []\<rparr>,
      out_list = [], do_list = [], megamission_list = [], cells_difference = [], current_frame = 0,
      stage = STAGE_INITIAL, crc = 0, tech_level = 0, load_progresses = []\<rparr>"

text \<open>\<open>StorageValue\<close>: what the service keeps of the game.\<close>

record StorageValue =
  sv_game_state :: GameState
  sv_initial_game_state :: GameState
  sv_map_data :: MapData
  sv_event_buffer :: EventListsSnapshot
  sv_load_state :: "rat list"

definition StorageValue_default :: StorageValue where
  "StorageValue_default =
     \<lparr>sv_game_state = GameState_default, sv_initial_game_state = GameState_default,
      sv_map_data = \<lparr>md_width = 0, md_height = 0, md_cells = []\<rparr>,
      sv_event_buffer = \<lparr>es_lists = [], es_frame = []\<rparr>, sv_load_state = []\<rparr>"

text \<open>Cell coordinates are 16 bits wide, house indices of events 8 bits.\<close>

definition to_i16 :: "int \<Rightarrow> int" where
  "to_i16 x = sint (word_of_int x :: 16 word)"

definition to_i8 :: "int \<Rightarrow> int" where
  "to_i8 x = sint (word_of_int x :: 8 word)"

text \<open>The result of an operation on \<open>int\<close>, which must fit 32 bits.\<close>

definition i32 :: "int \<Rightarrow> int outcome" where
  "i32 x = (if - (2 ^ 31) \<le> x \<and> x < 2 ^ 31 then Return x else Undefined)"

lemma i32_ok: "- (2 ^ 31) \<le> x \<Longrightarrow> x < 2 ^ 31 \<Longrightarrow> i32 x = Return x"
  by (simp add: i32_def)

lemma i32_Return_iff [simp]: "i32 x = Return y \<longleftrightarrow> y = x \<and> - (2 ^ 31) \<le> x \<and> x < 2 ^ 31"
  by (auto simp: i32_def)

end
