(* ===== verification/Class_Parser.thy ===== *)
theory Class_Parser
  imports Game_State
begin

text \<open>
  \<^verbatim>\<open>src/src/ra2/state_parser.cpp\<close>: the parsers that copy game objects, type classes, houses and
  factories into messages. A parser writes into an existing message.

  What the game reports through calls (\<open>WhatAmI\<close>, the coordinates of a destination cell) is part
  of the record of the object; a call that fails raises an exception.
\<close>

section \<open>Objects\<close>

record dest_object =
  d_what :: "AbsID outcome"
  d_coord :: Coordinates

record game_object =
  g_addr :: u32
  g_what :: "AbsID outcome"
  g_Health :: int
  g_IsSelected :: bool
  g_InLimbo :: bool
  g_IsOnMap :: bool
  g_Location :: Coordinates
  g_CurrentMission :: int
  g_Owner :: u32
  g_InitialOwner :: u32
  g_Destination :: "dest_object option"
  g_Type :: u32
  g_Deployed :: bool
  g_IsDeploying :: bool

definition CP_Object :: "game_object \<Rightarrow> Object \<Rightarrow> Object" where
  "CP_Object P T =
     (let T1 = T\<lparr>health := g_Health P, selected := g_IsSelected P, in_limbo := g_InLimbo P,
               on_map := g_IsOnMap P\<rparr>
      in if g_IsOnMap P \<or> object_type T1 = ABSTRACT_TYPE_OVERLAY
         then T1\<lparr>coordinates := Some (g_Location P)\<rparr> else T1)"

definition CP_Mission :: "game_object \<Rightarrow> Object \<Rightarrow> Object" where
  "CP_Mission P T = (CP_Object P T)\<lparr>current_mission := g_CurrentMission P\<rparr>"

definition CP_Radio :: "game_object \<Rightarrow> Object \<Rightarrow> Object" where
  "CP_Radio P T = CP_Mission P T"

definition CP_Techno :: "game_object \<Rightarrow> Object \<Rightarrow> Object" where
  "CP_Techno P T =
     (CP_Radio P T)\<lparr>pointer_house := g_Owner P, pointer_initial_owner := g_InitialOwner P\<rparr>"

definition CP_Foot :: "game_object \<Rightarrow> Object \<Rightarrow> Object \<times> unit outcome" where
  "CP_Foot P T =
     (let T1 = CP_Techno P T
      in case g_Destination P of
           None \<Rightarrow> (T1, Return ())
         | Some d \<Rightarrow>
             (case d_what d of
                Return t \<Rightarrow>
                  (if t = CellAbs then (T1\<lparr>destination := Some (d_coord d)\<rparr>, Return ())
                   else (T1, Return ()))
              | Raise e \<Rightarrow> (T1, Raise e)
              | Undefined \<Rightarrow> (T1, Undefined)))"

definition set_type_class :: "u32 \<Rightarrow> AbstractType \<Rightarrow> Object \<Rightarrow> Object" where
  "set_type_class ttc t T = T\<lparr>object_type := t, pointer_technotypeclass := ttc\<rparr>"

text \<open>Run the rest of a parser unless an exception is under way.\<close>

definition and_then :: "Object \<times> unit outcome \<Rightarrow> (Object \<Rightarrow> Object) \<Rightarrow> Object \<times> unit outcome" where
  "and_then r f = (case r of (T, Return _) \<Rightarrow> (f T, Return ()) | (T, x) \<Rightarrow> (T, x))"

definition CP_Aircraft :: "game_object \<Rightarrow> Object \<Rightarrow> Object \<times> unit outcome" where
  "CP_Aircraft P T = and_then (CP_Foot P T) (set_type_class (g_Type P) ABSTRACT_TYPE_AIRCRAFT)"

definition CP_Unit :: "game_object \<Rightarrow> Object \<Rightarrow> Object \<times> unit outcome" where
  "CP_Unit P T =
     and_then (CP_Foot P T) (\<lambda>T1.
       (set_type_class (g_Type P) ABSTRACT_TYPE_UNIT T1)\<lparr>deployed := g_Deployed P, deploying := g_IsDeploying P\<rparr>)"

definition CP_Building :: "game_object \<Rightarrow> Object \<Rightarrow> Object \<times> unit outcome" where
  "CP_Building P T = (set_type_class (g_Type P) ABSTRACT_TYPE_BUILDING (CP_Techno P T), Return ())"

definition CP_Infantry :: "game_object \<Rightarrow> Object \<Rightarrow> Object \<times> unit outcome" where
  "CP_Infantry P T = and_then (CP_Foot P T) (set_type_class (g_Type P) ABSTRACT_TYPE_INFANTRY)"

definition CP_parse :: "game_object \<Rightarrow> Object \<Rightarrow> Object \<times> unit outcome" where
  "CP_parse P T =
     (let T1 = T\<lparr>pointer_self := g_addr P\<rparr>
      in case g_what P of
           Return t \<Rightarrow>
             (if t = UnitAbs then CP_Unit P T1
              else if t = BuildingAbs then CP_Building P T1
              else if t = InfantryAbs then CP_Infantry P T1
              else if t = AircraftAbs then CP_Aircraft P T1
              else (T1, Return ()))
         | Raise e \<Rightarrow> (T1, Raise e)
         | Undefined \<Rightarrow> (T1, Undefined))"

text \<open>\<open>try_get_message\<close>: make room for one more message, ten at a time.\<close>

definition try_get_message :: "'m \<Rightarrow> 'm list \<Rightarrow> nat \<Rightarrow> 'm list" where
  "try_get_message d f index = (if length f < index + 1 then fill_repeated d 10 f else f)"

text \<open>\<open>parse_object_array\<close>: after an exception the next object is parsed into the same
  message.\<close>

fun parse_object_array :: "game_object list \<Rightarrow> Object list \<Rightarrow> nat \<Rightarrow> (Object list \<times> nat) outcome" where
  "parse_object_array [] dst j = Return (dst, j)"
| "parse_object_array (P # Ps) dst j =
     (let dst1 = try_get_message Object_default dst j
      in case map_at (\<lambda>i. if i < length dst1 then Some (dst1 ! i) else None) j of
           Return m \<Rightarrow>
             (case CP_parse P m of
                (T, Return _) \<Rightarrow> parse_object_array Ps (dst1[j := T]) (Suc j)
              | (T, Raise e) \<Rightarrow> parse_object_array Ps (dst1[j := T]) j
              | (T, Undefined) \<Rightarrow> Undefined)
         | Raise e \<Rightarrow> Raise e
         | Undefined \<Rightarrow> Undefined)"

definition parse_Objects :: "game_object list \<Rightarrow> GameState \<Rightarrow> GameState outcome" where
  "parse_Objects technos G =
     obind (parse_object_array technos (objects G) 0) (\<lambda>(H, j).
     obind (truncate_field (int j) H) (\<lambda>(H', _). Return (G\<lparr>objects := H'\<rparr>)))"

section \<open>Type classes\<close>

record type_object =
  t_addr :: u32
  t_what :: "AbsID outcome"
  t_Name :: string
  t_ArrayIndex :: int
  t_Armor :: int
  t_Cost :: int
  t_Soylent :: int
  t_Prerequisite :: "int list"
  t_RequiredHouses :: u32
  t_ForbiddenHouses :: u32
  t_OwnerFlags :: u32
  t_TechLevel :: int
  t_BuildLimit :: int
  t_Naval :: bool
  t_StolenAllied :: bool
  t_StolenSoviet :: bool
  t_StolenThird :: bool
  t_Strength :: int
  t_PowerDrain :: int
  t_PowerBonus :: int
  t_IsBaseDefense :: bool
  t_Wall :: bool
  t_BuildCat :: int

definition TC_AbstractType :: "type_object \<Rightarrow> ObjectTypeClass \<Rightarrow> ObjectTypeClass" where
  "TC_AbstractType P T = T\<lparr>tc_name := t_Name P\<rparr>"

definition TC_ObjectType :: "type_object \<Rightarrow> ObjectTypeClass \<Rightarrow> ObjectTypeClass" where
  "TC_ObjectType P T = (TC_AbstractType P T)\<lparr>tc_armor_type := t_Armor P\<rparr>"

definition TC_TechnoType :: "type_object \<Rightarrow> ObjectTypeClass \<Rightarrow> ObjectTypeClass" where
  "TC_TechnoType P T =
     (TC_ObjectType P T)\<lparr>tc_cost := t_Cost P, tc_soylent := t_Soylent P,
        tc_prerequisites := fold (\<lambda>r acc. acc @ [r]) (t_Prerequisite P) [],
        tc_required_houses := t_RequiredHouses P, tc_forbidden_houses := t_ForbiddenHouses P,
        tc_owner_flags := t_OwnerFlags P, tc_tech_level := t_TechLevel P, tc_build_limit := t_BuildLimit P,
        tc_naval := t_Naval P, tc_stolen_allied := t_StolenAllied P, tc_stolen_soviet := t_StolenSoviet P,
        tc_stolen_third := t_StolenThird P, tc_strength := t_Strength P\<rparr>"

definition TC_AircraftType :: "type_object \<Rightarrow> ObjectTypeClass \<Rightarrow> ObjectTypeClass" where
  "TC_AircraftType P T =
     (TC_TechnoType P T)\<lparr>tc_array_index := t_ArrayIndex P, tc_type := ABSTRACT_TYPE_AIRCRAFTTYPE\<rparr>"

definition TC_UnitType :: "type_object \<Rightarrow> ObjectTypeClass \<Rightarrow> ObjectTypeClass" where
  "TC_UnitType P T =
     (TC_TechnoType P T)\<lparr>tc_array_index := t_ArrayIndex P, tc_type := ABSTRACT_TYPE_UNITTYPE\<rparr>"

definition TC_InfantryType :: "type_object \<Rightarrow> ObjectTypeClass \<Rightarrow> ObjectTypeClass" where
  "TC_InfantryType P T =
     (TC_TechnoType P T)\<lparr>tc_array_index := t_ArrayIndex P, tc_type := ABSTRACT_TYPE_INFANTRYTYPE\<rparr>"

definition TC_BuildingType :: "type_object \<Rightarrow> ObjectTypeClass \<Rightarrow> ObjectTypeClass" where
  "TC_BuildingType P T =
     (TC_TechnoType P T)\<lparr>tc_array_index := t_ArrayIndex P, tc_power_drain := t_PowerDrain P,
        tc_power_bonus := t_PowerBonus P, tc_type := ABSTRACT_TYPE_BUILDINGTYPE,
        tc_is_base_defense := t_IsBaseDefense P, tc_wall := t_Wall P, tc_build_category := t_BuildCat P\<rparr>"

definition TC_OverlayType :: "type_object \<Rightarrow> ObjectTypeClass \<Rightarrow> ObjectTypeClass" where
  "TC_OverlayType P T =
     (TC_ObjectType P T)\<lparr>tc_array_index := t_ArrayIndex P, tc_wall := t_Wall P, tc_strength := t_Strength P,
        tc_type := ABSTRACT_TYPE_OVERLAYTYPE\<rparr>"

definition TC_parse :: "type_object \<Rightarrow> ObjectTypeClass \<Rightarrow> ObjectTypeClass outcome" where
  "TC_parse P T =
     (let T1 = T\<lparr>tc_pointer_self := t_addr P\<rparr>
      in obind (t_what P) (\<lambda>t. Return
           (if t = BuildingTypeAbs then TC_BuildingType P T1
            else if t = AircraftTypeAbs then TC_AircraftType P T1
            else if t = InfantryTypeAbs then TC_InfantryType P T1
            else if t = UnitTypeAbs then TC_UnitType P T1
            else if t = OverlayTypeAbs then TC_OverlayType P T1
            else T1)))"

text \<open>A loop over an array of the game that parses item \<open>i\<close> into message \<open>i\<close>.\<close>

fun parse_each :: "('a \<Rightarrow> 'm \<Rightarrow> 'm outcome) \<Rightarrow> 'a list \<Rightarrow> nat \<Rightarrow> 'm list \<Rightarrow> 'm list outcome" where
  "parse_each f [] i dst = Return dst"
| "parse_each f (x # xs) i dst =
     (if i < length dst
      then obind (f x (dst ! i)) (\<lambda>m. parse_each f xs (Suc i) (dst[i := m]))
      else Raise (out_of_range ''RepeatedPtrField::at''))"

definition parse_AbstractTypeClasses ::
  "type_object list \<Rightarrow> ObjectTypeClass list \<Rightarrow> ObjectTypeClass list outcome"
where
  "parse_AbstractTypeClasses D T =
     parse_each TC_parse D 0 (init_arrays ObjectTypeClass_default (length D) T)"

section \<open>Houses, factories, prerequisites\<close>

record house_object =
  ho_addr :: u32
  ho_ArrayIndex :: int
  ho_IsInPlayerControl :: bool
  ho_Defeated :: bool
  ho_IsGameOver :: bool
  ho_IsLoser :: bool
  ho_IsWinner :: bool
  ho_Balance :: int
  ho_PowerDrain :: int
  ho_PowerOutput :: int
  ho_StartingCredits :: int
  ho_PlainName :: string
  ho_Type_ArrayIndex :: int
  ho_Side0 :: bool
  ho_Side1 :: bool
  ho_Side2 :: bool
  ho_IsHumanPlayer :: bool

definition parse_HouseClass :: "house_object \<Rightarrow> House \<Rightarrow> House" where
  "parse_HouseClass src dst =
     dst\<lparr>h_array_index := ho_ArrayIndex src, h_current_player := ho_IsInPlayerControl src,
         h_defeated := ho_Defeated src, h_is_game_over := ho_IsGameOver src, h_is_loser := ho_IsLoser src,
         h_is_winner := ho_IsWinner src, h_money := ho_Balance src, h_power_drain := ho_PowerDrain src,
         h_power_output := ho_PowerOutput src, h_start_credits := ho_StartingCredits src,
         h_self := ho_addr src, h_name := ho_PlainName src, h_type_array_index := ho_Type_ArrayIndex src,
         h_allied_infiltrated := ho_Side0 src, h_soviet_infiltrated := ho_Side1 src,
         h_third_infiltrated := ho_Side2 src, h_is_human_player := ho_IsHumanPlayer src\<rparr>"

definition parse_HouseClasses :: "house_object list \<Rightarrow> GameState \<Rightarrow> GameState outcome" where
  "parse_HouseClasses D G =
     obind (parse_each (\<lambda>s m. Return (parse_HouseClass s m)) D 0
              (init_arrays House_default (length D) (houses G)))
       (\<lambda>hs. Return (G\<lparr>houses := hs\<rparr>))"

record factory_object =
  fo_Object :: u32
  fo_Owner :: u32
  fo_Production_Value :: int
  fo_OnHold :: bool
  fo_QueuedObjects :: "u32 list"

definition PRODUCTION_STEPS :: int where
  "PRODUCTION_STEPS = 54"

definition parse_Factory :: "factory_object \<Rightarrow> Factory \<Rightarrow> Factory" where
  "parse_Factory I F =
     (let F1 = F\<lparr>f_object := fo_Object I, f_owner := fo_Owner I, f_progress_timer := fo_Production_Value I,
                 f_on_hold := fo_OnHold I\<rparr>
      in F1\<lparr>f_completed := (f_progress_timer F1 = PRODUCTION_STEPS),
            f_queued_objects := fold (\<lambda>p acc. acc @ [p]) (fo_QueuedObjects I) []\<rparr>)"

definition parse_Factories :: "factory_object list \<Rightarrow> Factory list \<Rightarrow> Factory list outcome" where
  "parse_Factories D dst =
     parse_each (\<lambda>I F. Return (parse_Factory I F)) D 0 (init_arrays Factory_default (length D) dst)"

definition parse_prerequisiteGroups ::
  "PrerequisiteGroups \<Rightarrow> PrerequisiteGroups \<Rightarrow> PrerequisiteGroups"
where
  "parse_prerequisiteGroups R T =
     \<lparr>pg_proc = pg_proc T @ pg_proc R, pg_tech = pg_tech T @ pg_tech R, pg_radar = pg_radar T @ pg_radar R,
      pg_barracks = pg_barracks T @ pg_barracks R, pg_factory = pg_factory T @ pg_factory R,
      pg_power = pg_power T @ pg_power R\<rparr>"

section \<open>Lookups\<close>

definition find_type_class ::
  "ObjectTypeClass list \<Rightarrow> AbstractType \<Rightarrow> int \<Rightarrow> ObjectTypeClass option"
where
  "find_type_class types rtti_id array_index =
     find_if (\<lambda>v. tc_array_index v = array_index \<and> tc_type v = rtti_id) types"

definition is_local :: "House list \<Rightarrow> bool" where
  "is_local H \<longleftrightarrow> length (filter h_is_human_player H) = 1"

section \<open>Parsing arrays\<close>

text \<open>A parser of one item: on valid items it succeeds and computes \<open>g\<close>. The second locale
  adds that nothing of the message's former contents survives.\<close>

locale message_parser =
  fixes f :: "'a \<Rightarrow> 'm \<Rightarrow> 'm outcome" and g :: "'a \<Rightarrow> 'm \<Rightarrow> 'm" and valid :: "'a \<Rightarrow> bool"
  assumes parses: "valid x \<Longrightarrow> f x m = Return (g x m)"
begin

lemma parse_each_from:
  assumes "\<forall>x \<in> set xs. valid x" and "length dst = i + length xs"
  shows "parse_each f xs i dst = Return (take i dst @ map2 g xs (drop i dst))"
  using assms
proof (induction xs arbitrary: i dst)
  case Nil
  then show ?case by simp
next
  case (Cons x xs)
  then have "drop i dst = dst ! i # drop (Suc i) dst" by (intro Cons_nth_drop_Suc [symmetric]) simp
  with Cons show ?case by (simp add: parses take_Suc_conv_app_nth)
qed

lemma parse_array:
  assumes "\<forall>x \<in> set xs. valid x"
  shows "parse_each f xs 0 (init_arrays d (length xs) dst) = Return (map2 g xs (init_arrays d (length xs) dst))"
  using parse_each_from [OF assms, of _ 0] by simp

end

locale overwriting_parser = message_parser +
  assumes overwrites: "g x m = g x m'"
begin

lemma parse_array_fresh:
  assumes "\<forall>x \<in> set xs. valid x"
  shows "parse_each f xs 0 (init_arrays d (length xs) dst) = Return (map (\<lambda>x. g x d) xs)"
proof -
  have "map2 g xs ys = map (\<lambda>x. g x d) xs" if "length ys = length xs" for ys
    using that by (induction xs ys rule: list_induct2') (auto intro: overwrites)
  then show ?thesis using parse_array [OF assms] by simp
qed

end

interpretation house_parser: overwriting_parser "\<lambda>s m. Return (parse_HouseClass s m)" parse_HouseClass "\<lambda>_. True"
proof unfold_locales
  show "parse_HouseClass x m = parse_HouseClass x m'" for x m m'
    by (rule House.equality) (simp_all add: parse_HouseClass_def)
qed simp

interpretation factory_parser: overwriting_parser "\<lambda>I F. Return (parse_Factory I F)" parse_Factory "\<lambda>_. True"
proof unfold_locales
  show "parse_Factory x m = parse_Factory x m'" for x m m'
    by (rule Factory.equality) (simp_all add: parse_Factory_def Let_def)
qed simp

definition TC_of :: "type_object \<Rightarrow> ObjectTypeClass \<Rightarrow> ObjectTypeClass" where
  "TC_of P T = (case TC_parse P T of Return T' \<Rightarrow> T' | _ \<Rightarrow> T)"

interpretation type_parser: message_parser TC_parse TC_of "\<lambda>P. \<exists>t. t_what P = Return t"
proof unfold_locales
  fix x :: type_object and m :: ObjectTypeClass
  assume "\<exists>t. t_what x = Return t"
  then have "\<exists>T'. TC_parse x m = Return T'"
    unfolding TC_parse_def Let_def by (elim exE) (simp only: obind.simps outcome.inject, rule exI, rule refl)
  then obtain T' where "TC_parse x m = Return T'" ..
  then show "TC_parse x m = Return (TC_of x m)" by (simp add: TC_of_def)
qed

text \<open>After \<open>parse_HouseClasses\<close> the state holds exactly one house message for each house of
  the game, in their order, with nothing left of what the messages contained before.\<close>

lemma parse_HouseClasses_exact:
  "parse_HouseClasses D G = Return (G\<lparr>houses := map (\<lambda>s. parse_HouseClass s House_default) D\<rparr>)"
  using house_parser.parse_array_fresh [of D House_default "houses G"] by (simp add: parse_HouseClasses_def)

text \<open>After \<open>parse_Factories\<close> there is one message for each factory, in order, with its queue;
  a factory is reported completed exactly when its progress is 54, and nothing of an earlier
  frame survives.\<close>

lemma parse_Factories_exact:
  "parse_Factories D dst = Return (map (\<lambda>I.
     \<lparr>f_object = fo_Object I, f_owner = fo_Owner I, f_progress_timer = fo_Production_Value I,
      f_on_hold = fo_OnHold I, f_completed = (fo_Production_Value I = 54),
      f_queued_objects = fo_QueuedObjects I\<rparr>) D)"
  using factory_parser.parse_array_fresh [of D Factory_default dst]
  by (simp add: parse_Factories_def parse_Factory_def Factory_default_def PRODUCTION_STEPS_def Let_def
      fold_snoc)

section \<open>Parsing objects\<close>

text \<open>The calls into the game behave (they may raise exceptions).\<close>

definition tame :: "game_object \<Rightarrow> bool" where
  "tame P \<longleftrightarrow> g_what P \<noteq> Undefined \<and> (\<forall>d. g_Destination P = Some d \<longrightarrow> d_what d \<noteq> Undefined)"

definition parse_ok :: "game_object \<Rightarrow> bool" where
  "parse_ok P \<longleftrightarrow> snd (CP_parse P Object_default) = Return ()"

fun known_class :: "AbsID \<Rightarrow> AbstractType option" where
  "known_class UnitAbs = Some ABSTRACT_TYPE_UNIT"
| "known_class BuildingAbs = Some ABSTRACT_TYPE_BUILDING"
| "known_class InfantryAbs = Some ABSTRACT_TYPE_INFANTRY"
| "known_class AircraftAbs = Some ABSTRACT_TYPE_AIRCRAFT"
| "known_class _ = None"

text \<open>The message \<open>T\<close> describes the game object \<open>P\<close>.\<close>

definition describes :: "Object \<Rightarrow> game_object \<Rightarrow> bool" where
  "describes T P \<longleftrightarrow> pointer_self T = g_addr P
     \<and> (\<forall>t k. g_what P = Return t \<and> known_class t = Some k \<longrightarrow>
          object_type T = k \<and> pointer_technotypeclass T = g_Type P
          \<and> health T = g_Health P \<and> selected T = g_IsSelected P \<and> in_limbo T = g_InLimbo P
          \<and> on_map T = g_IsOnMap P \<and> current_mission T = g_CurrentMission P
          \<and> pointer_house T = g_Owner P \<and> pointer_initial_owner T = g_InitialOwner P
          \<and> (g_IsOnMap P \<longrightarrow> coordinates T = Some (g_Location P)))"

lemmas CP_defs = CP_parse_def CP_Unit_def CP_Building_def CP_Infantry_def CP_Aircraft_def CP_Foot_def
  CP_Techno_def CP_Radio_def CP_Mission_def CP_Object_def and_then_def set_type_class_def Let_def

lemma CP_parse_snd: "snd (CP_parse P T) = snd (CP_parse P T')"
  by (cases "g_what P"; cases "g_Destination P")
    (auto simp: CP_defs split: outcome.splits)

lemma CP_parse_cases:
  assumes "tame P" and "CP_parse P T = (T', r)"
  shows "if parse_ok P then r = Return () else \<exists>e. r = Raise e"
proof -
  have r: "r = snd (CP_parse P Object_default)"
    using CP_parse_snd [of P T Object_default] assms(2) by simp
  moreover have "snd (CP_parse P Object_default) \<noteq> Undefined"
    using assms(1) by (cases "g_what P"; cases "g_Destination P") (auto simp: tame_def CP_defs split: outcome.splits)
  ultimately show ?thesis
    by (cases "snd (CP_parse P Object_default)") (auto simp: parse_ok_def)
qed

lemma CP_parse_describes:
  assumes "CP_parse P T = (T', Return ())"
  shows "describes T' P"
proof (cases "g_what P")
  case (Return t)
  then show ?thesis
    using assms by (cases t; cases "g_Destination P")
      (auto simp: CP_defs describes_def split: outcome.splits if_splits)
qed (use assms in \<open>auto simp: CP_defs\<close>)

text \<open>The loop, started at message \<open>j\<close>.\<close>

lemma parse_object_array_from:
  assumes "\<forall>P \<in> set Ps. tame P" and "j \<le> length dst"
  shows "\<exists>dst'. parse_object_array Ps dst j = Return (dst', j + length (filter parse_ok Ps))
    \<and> j + length (filter parse_ok Ps) \<le> length dst' \<and> take j dst' = take j dst
    \<and> list_all2 describes (take (length (filter parse_ok Ps)) (drop j dst')) (filter parse_ok Ps)"
  using assms
proof (induction Ps arbitrary: dst j)
  case Nil
  then show ?case by simp
next
  case (Cons P Ps)
  let ?d1 = "try_get_message Object_default dst j"
  have j: "j < length ?d1" and tk: "take j ?d1 = take j dst"
    using Cons.prems(2) by (simp_all add: try_get_message_def)
  obtain T r where T: "CP_parse P (?d1 ! j) = (T, r)" by fastforce
  have tame: "tame P" "\<forall>P \<in> set Ps. tame P" using Cons.prems(1) by simp_all
  show ?case
  proof (cases "parse_ok P")
    case True
    then have r: "r = Return ()" using CP_parse_cases [OF tame(1) T] by simp
    obtain d' where d': "parse_object_array Ps (?d1[j := T]) (Suc j) = Return (d', Suc j + length (filter parse_ok Ps))"
      "Suc j + length (filter parse_ok Ps) \<le> length d'" "take (Suc j) d' = take (Suc j) (?d1[j := T])"
      "list_all2 describes (take (length (filter parse_ok Ps)) (drop (Suc j) d')) (filter parse_ok Ps)"
      using Cons.IH [OF tame(2), of "Suc j" "?d1[j := T]"] j by auto
    have "j < length d'" using d'(2) by simp
    then have dj: "drop j d' = d' ! j # drop (Suc j) d'" by (rule Cons_nth_drop_Suc [symmetric])
    have "d' ! j = T" using d'(3) j by (metis lessI nth_list_update_eq nth_take)
    moreover have "take j d' = take j dst"
      using arg_cong [OF d'(3), of "take j"] tk by (simp add: min_def)
    ultimately show ?thesis
      using True d' T r j CP_parse_describes [of P "?d1 ! j" T]
      by (auto simp: Let_def map_at_def dj)
  next
    case False
    then obtain e where r: "r = Raise e" using CP_parse_cases [OF tame(1) T] by auto
    from Cons.IH [OF tame(2), of j "?d1[j := T]"] j tk show ?thesis
      using False T r by (auto simp: Let_def map_at_def)
  qed
qed

text \<open>After \<open>parse_Objects\<close> the state holds exactly one message for each game object that
  could be parsed, in the order of the game's array: an object whose parsing throws leaves no
  message, and the surplus messages of an earlier frame are removed. Each message describes
  its object: identity, and for units, buildings, infantry and aircraft their type, owner,
  health, mission and status, and the coordinates of an object that is on the map.\<close>

lemma parse_Objects_describes:
  assumes "\<forall>P \<in> set technos. tame P"
  shows "\<exists>H. parse_Objects technos G = Return (G\<lparr>objects := H\<rparr>)
    \<and> list_all2 describes H (filter parse_ok technos)"
  using parse_object_array_from [OF assms, of 0 "objects G"] by (auto simp: parse_Objects_def)

definition demo_unit :: "u32 \<Rightarrow> AbsID outcome \<Rightarrow> bool \<Rightarrow> game_object" where
  "demo_unit a t m =
     \<lparr>g_addr = a, g_what = t, g_Health = 100, g_IsSelected = False, g_InLimbo = \<not> m, g_IsOnMap = m,
      g_Location = \<lparr>co_x = 1, co_y = 2, co_z = 3\<rparr>, g_CurrentMission = 5, g_Owner = 7, g_InitialOwner = 7,
      g_Destination = None, g_Type = 9, g_Deployed = False, g_IsDeploying = False\<rparr>"

definition demo_state :: GameState where
  "demo_state = GameState_default"

text \<open>Messages are reused between frames and only set fields are overwritten: a game object
  that is not on the map and has no destination is reported with the coordinates and the
  destination of whatever object was reported in the same message before.\<close>

lemma parse_keeps_stale_position:
  assumes "g_what P = Return t" and "known_class t \<noteq> None" and "\<not> g_IsOnMap P" and "g_Destination P = None"
    and "object_type T \<noteq> ABSTRACT_TYPE_OVERLAY"
  shows "\<exists>T'. CP_parse P T = (T', Return ()) \<and> coordinates T' = coordinates T \<and> destination T' = destination T
    \<and> pointer_self T' = g_addr P \<and> \<not> on_map T'"
  using assms by (cases t) (auto simp: CP_defs)

end
