(* ===== verification/Event_List.thy ===== *)
theory Event_List
  imports Class_Parser
begin

unbundle bit_operations_syntax

text \<open>
  \<^verbatim>\<open>src/src/ra2/event_list.{hpp,cpp}\<close> and the event parsers of \<^verbatim>\<open>src/src/ra2/state_parser.cpp\<close>: the
  ring buffers of network events of the game, searching them, and recording snapshots.
\<close>

section \<open>Events of the game\<close>

record place_data =
  pd_RTTIType :: int
  pd_HeapID :: int
  pd_IsNaval :: bool
  pd_Location :: CellStruct

record mega_data =
  md_Whom :: TargetClass
  md_Mission :: int
  md_Target :: TargetClass
  md_Destination :: TargetClass
  md_Follow :: TargetClass
  md_IsPlanningEvent :: bool
  md_Speed :: int
  md_MaxSpeed :: int

text \<open>The union \<open>Data\<close>: its readings as the different kinds of events.\<close>

record event_data =
  ed_SellCell :: CellStruct
  ed_Place :: place_data
  ed_Production :: Production
  ed_MegaMission :: mega_data
  ed_MegaMission_F :: mega_data

record EventClass =
  e_Type :: EventType
  e_IsExecuted :: bool
  e_HouseIndex :: int
  e_Frame :: u32
  e_Data :: event_data

section \<open>Event lists\<close>

record EventEntry =
  ee_e :: EventClass
  ee_timing :: int
  ee_index :: int

record EventListCtx =
  ec_count :: int
  ec_head :: int
  ec_tail :: int
  ec_list :: "EventClass list"
  ec_timings :: "int list"
  ec_length :: int

datatype EventListType = OUT_LIST | DO_LIST | MEGAMISSION_LIST | INVALID_LIST int

text \<open>The three lists of the game.\<close>

record event_lists =
  gl_OutList :: EventListCtx
  gl_DoList :: EventListCtx
  gl_MegaMissionList :: EventListCtx

definition from_eventlist :: "event_lists \<Rightarrow> EventListType \<Rightarrow> EventListCtx outcome" where
  "from_eventlist L t =
     (case t of
        OUT_LIST \<Rightarrow> Return (gl_OutList L)
      | DO_LIST \<Rightarrow> Return (gl_DoList L)
      | MEGAMISSION_LIST \<Rightarrow> Return (gl_MegaMissionList L)
      | INVALID_LIST _ \<Rightarrow> Raise (runtime_error ''Invalid EventList type''))"

definition get_event :: "EventListCtx \<Rightarrow> int \<Rightarrow> EventEntry outcome" where
  "get_event C i =
     (let ix = (ec_head C + i) AND (ec_length C - 1)
      in if 0 \<le> ix \<and> nat ix < length (ec_list C) \<and> nat ix < length (ec_timings C)
         then Return \<lparr>ee_e = ec_list C ! nat ix, ee_timing = ec_timings C ! nat ix, ee_index = i\<rparr>
         else Undefined)"

text \<open>\<open>convert_event\<close>: \<open>idx\<close> is the difference of the two pointers in elements, \<open>sz\<close> the size of an
  event in bytes.\<close>

definition convert_event :: "EventListCtx \<Rightarrow> nat \<Rightarrow> nat \<Rightarrow> EventEntry outcome" where
  "convert_event C sz idx =
     (let ix = idx div sz
      in if ix < length (ec_list C) \<and> ix < length (ec_timings C)
         then Return \<lparr>ee_e = ec_list C ! ix, ee_timing = ec_timings C ! ix, ee_index = int ix\<rparr>
         else Undefined)"

text \<open>\<open>elist_apply\<close>: the function may change a state \<open>'s\<close> and says whether to stop; \<open>k\<close> rounds
  remain.\<close>

fun elist_loop ::
  "EventListCtx \<Rightarrow> (EventEntry \<Rightarrow> 's \<Rightarrow> ('s \<times> bool) outcome) \<Rightarrow> int \<Rightarrow> nat \<Rightarrow> 's \<Rightarrow> 's outcome"
where
  "elist_loop C fn i 0 s = Return s"
| "elist_loop C fn i (Suc k) s =
     obind (get_event C i) (\<lambda>e.
     obind (fn e s) (\<lambda>(s', stop). if stop then Return s' else elist_loop C fn (i + 1) k s'))"

definition elist_apply ::
  "EventListCtx \<Rightarrow> (EventEntry \<Rightarrow> 's \<Rightarrow> ('s \<times> bool) outcome) \<Rightarrow> 's \<Rightarrow> 's outcome"
where
  "elist_apply C fn s = elist_loop C fn 0 (nat (ec_count C)) s"

text \<open>When an event of a list counts as the event looked for.\<close>

definition event_matches :: "EventClass \<Rightarrow> EventClass \<Rightarrow> bool" where
  "event_matches E e \<longleftrightarrow> e_HouseIndex e = e_HouseIndex E \<and> e_Type e = e_Type E \<and>
     (if e_Type E = EV_SELLCELL then ed_SellCell (e_Data E) = ed_SellCell (e_Data e)
      else if e_Type E = EV_PLACE
      then pd_RTTIType (ed_Place (e_Data E)) = pd_RTTIType (ed_Place (e_Data e))
        \<and> pd_HeapID (ed_Place (e_Data E)) = pd_HeapID (ed_Place (e_Data e))
      else True)"

text \<open>\<open>EventListUtil::find\<close>; \<open>None\<close> is the entry with a null event.\<close>

definition elist_find :: "event_lists \<Rightarrow> EventListType \<Rightarrow> EventClass \<Rightarrow> EventEntry option outcome" where
  "elist_find L t E =
     obind (from_eventlist L t) (\<lambda>C.
       elist_apply C (\<lambda>e res. Return (if event_matches E (ee_e e) then (Some e, True) else (res, False))) None)"

section \<open>Event parsers\<close>

definition mega_default :: MegaMissionMsg where
  "mega_default = (let z = \<lparr>m_id = 0, m_rtti = 0\<rparr> in
     \<lparr>mm_whom = z, mm_mission = 0, mm_target = z, mm_destination = z, mm_follow = z,
      mm_is_planning_event = False\<rparr>)"

definition mega_f_default :: MegaMissionFMsg where
  "mega_f_default = (let z = \<lparr>m_id = 0, m_rtti = 0\<rparr> in
     \<lparr>mf_whom = z, mf_mission = 0, mf_target = z, mf_destination = z, mf_speed = 0, mf_max_speed = 0\<rparr>)"

definition place_default :: PlaceMsg where
  "place_default = \<lparr>pl_rtti_type = 0, pl_heap_id = 0, pl_is_naval = False,
     pl_location = \<lparr>co_x = 0, co_y = 0, co_z = 0\<rparr>\<rparr>"

definition parse_TargetClass :: "TargetClass \<Rightarrow> TargetClass \<Rightarrow> TargetClass" where
  "parse_TargetClass s d = d\<lparr>m_id := m_id s, m_rtti := m_rtti s\<rparr>"

text \<open>\<open>mutable_x()\<close>: the sub-message, created when it is absent.\<close>

definition mut :: "'m \<Rightarrow> 'm option \<Rightarrow> 'm" where
  "mut d x = (case x of None \<Rightarrow> d | Some m \<Rightarrow> m)"

definition EP_MegaMission :: "(EventType \<Rightarrow> nat) \<Rightarrow> EventClass \<Rightarrow> Event \<Rightarrow> Event outcome" where
  "EP_MegaMission num src T =
     (if e_Type src = EV_MEGAMISSION
      then (let x = ed_MegaMission (e_Data src); m = mut mega_default (mega_mission T)
            in Return (T\<lparr>mega_mission := Some (m\<lparr>
                 mm_whom := parse_TargetClass (md_Whom x) (mm_whom m), mm_mission := md_Mission x,
                 mm_target := parse_TargetClass (md_Target x) (mm_target m),
                 mm_destination := parse_TargetClass (md_Destination x) (mm_destination m),
                 mm_follow := parse_TargetClass (md_Follow x) (mm_follow m),
                 mm_is_planning_event := md_IsPlanningEvent x\<rparr>)\<rparr>))
      else if e_Type src = EV_MEGAMISSION_F
      then (let x = ed_MegaMission_F (e_Data src); m = mut mega_f_default (mega_mission_f T)
            in Return (T\<lparr>mega_mission_f := Some (m\<lparr>
                 mf_whom := parse_TargetClass (md_Whom x) (mf_whom m), mf_mission := md_Mission x,
                 mf_target := parse_TargetClass (md_Target x) (mf_target m),
                 mf_destination := parse_TargetClass (md_Destination x) (mf_destination m),
                 mf_speed := md_Speed x, mf_max_speed := md_MaxSpeed x\<rparr>)\<rparr>))
      else Raise (runtime_error (''invalid event type: '' @ show_nat (num (e_Type src)))))"

definition EP_Production :: "EventClass \<Rightarrow> Event \<Rightarrow> Event" where
  "EP_Production src T =
     (let x = ed_Production (e_Data src)
      in T\<lparr>production := Some \<lparr>pr_rtti_id = pr_rtti_id x, pr_heap_id = pr_heap_id x,
             pr_is_naval = pr_is_naval x\<rparr>\<rparr>)"

definition EP_Place :: "EventClass \<Rightarrow> Event \<Rightarrow> Event" where
  "EP_Place src T =
     (let x = ed_Place (e_Data src); d = mut place_default (place T)
      in T\<lparr>place := Some (d\<lparr>pl_rtti_type := pd_RTTIType x, pl_heap_id := pd_HeapID x,
             pl_is_naval := pd_IsNaval x,
             pl_location := (pl_location d)\<lparr>co_x := cell_X (pd_Location x), co_y := cell_Y (pd_Location x)\<rparr>\<rparr>)\<rparr>)"

definition EP_parse :: "(EventType \<Rightarrow> nat) \<Rightarrow> EventClass \<Rightarrow> u32 \<Rightarrow> Event \<Rightarrow> Event outcome" where
  "EP_parse num src time T =
     (let T1 = T\<lparr>event_type := e_Type src, is_executed := e_IsExecuted src, ev_house_index := e_HouseIndex src,
               ev_frame := e_Frame src, ev_timing := time\<rparr>
      in case e_Type src of
           EV_PRODUCE \<Rightarrow> Return (EP_Production src T1)
         | EV_PLACE \<Rightarrow> Return (EP_Place src T1)
         | EV_MEGAMISSION \<Rightarrow> EP_MegaMission num src T1
         | EV_MEGAMISSION_F \<Rightarrow> EP_MegaMission num src T1
         | _ \<Rightarrow> Return T1)"

definition parse_EventList :: "(EventType \<Rightarrow> nat) \<Rightarrow> EventListCtx \<Rightarrow> Event list \<Rightarrow> Event list outcome" where
  "parse_EventList num C dst =
     (let dst1 = (if int (length dst) \<noteq> ec_count C then fill_repeated_empty Event_default (nat (ec_count C)) dst
                  else dst)
      in elist_apply C (\<lambda>e d.
           if 0 \<le> ee_index e \<and> nat (ee_index e) < length d
           then obind (EP_parse num (ee_e e) (word_of_int (ee_timing e)) (d ! nat (ee_index e)))
                  (\<lambda>T. Return (d[nat (ee_index e) := T], False))
           else Raise (out_of_range ''RepeatedPtrField::at'')) dst1)"

text \<open>\<open>parse_EventLists\<close>: the current lists, and a bounded history of them.\<close>

definition parse_EventLists ::
  "(EventType \<Rightarrow> nat) \<Rightarrow> event_lists \<Rightarrow> nat \<Rightarrow> GameState \<Rightarrow> EventListsSnapshot
     \<Rightarrow> (GameState \<times> EventListsSnapshot) outcome"
where
  "parse_EventLists num L max_size G ES =
     obind (parse_EventList num (gl_OutList L) (out_list G)) (\<lambda>ol.
     obind (parse_EventList num (gl_DoList L) (do_list G)) (\<lambda>dl.
     obind (parse_EventList num (gl_MegaMissionList L) (megamission_list G)) (\<lambda>ml.
       let G1 = G\<lparr>out_list := ol, do_list := dl, megamission_list := ml\<rparr>;
           EL = \<lparr>el_out_list = ol, el_do_list = dl, el_megamission_list = ml\<rparr>
       in if length (es_lists ES) \<ge> max_size
          then (if es_lists ES = [] \<or> es_frame ES = [] then Undefined
                else Return (G1, \<lparr>es_lists = tl (es_lists ES) @ [EL],
                                  es_frame = tl (es_frame ES) @ [current_frame G1]\<rparr>))
          else Return (G1, \<lparr>es_lists = es_lists ES @ [EL], es_frame = es_frame ES @ [current_frame G1]\<rparr>))))"

definition EVENT_BUFFER_SIZE :: nat where
  "EVENT_BUFFER_SIZE = 600"

section \<open>Reading the ring\<close>

text \<open>A list of the game: a ring whose size is a power of two.\<close>

definition wf_ctx :: "EventListCtx \<Rightarrow> bool" where
  "wf_ctx C \<longleftrightarrow> (\<exists>k. ec_length C = 2 ^ k \<and> length (ec_list C) = 2 ^ k \<and> length (ec_timings C) = 2 ^ k
     \<and> 0 \<le> ec_head C \<and> 0 \<le> ec_count C \<and> ec_count C \<le> 2 ^ k)"

text \<open>The \<open>i\<close>th event, counted from the head.\<close>

definition ring_entry :: "EventListCtx \<Rightarrow> nat \<Rightarrow> EventEntry" where
  "ring_entry C i =
     (let ix = (nat (ec_head C) + i) mod length (ec_list C)
      in \<lparr>ee_e = ec_list C ! ix, ee_timing = ec_timings C ! ix, ee_index = int i\<rparr>)"

definition ring_entries :: "EventListCtx \<Rightarrow> EventEntry list" where
  "ring_entries C = map (ring_entry C) [0..<nat (ec_count C)]"

lemma get_event_ring:
  assumes "wf_ctx C"
  shows "get_event C (int i) = Return (ring_entry C i)"
proof -
  from assms obtain k where k: "ec_length C = 2 ^ k" "length (ec_list C) = 2 ^ k"
    "length (ec_timings C) = 2 ^ k" "0 \<le> ec_head C" by (auto simp: wf_ctx_def)
  have m: "(ec_head C + int i) AND (ec_length C - 1) = (ec_head C + int i) mod 2 ^ k"
    unfolding k(1) mask_eq_exp_minus_1 [symmetric] take_bit_eq_mask [symmetric] take_bit_eq_mod ..
  have e: "ec_head C + int i = int (nat (ec_head C) + i)" using k(4) by simp
  have ix: "(ec_head C + int i) AND (ec_length C - 1) = int ((nat (ec_head C) + i) mod 2 ^ k)"
    unfolding m unfolding e by (simp add: zmod_int del: of_nat_add)
  have "(nat (ec_head C) + i) mod 2 ^ k < 2 ^ k" by simp
  then show ?thesis unfolding get_event_def ix by (simp add: k(2,3) ring_entry_def Let_def)
qed

lemma elist_loop_find:
  assumes "wf_ctx C"
  shows "elist_loop C (\<lambda>e res. Return (if P e then (Some e, True) else (res, False))) (int i) n None =
    Return (find_if P (map (ring_entry C) [i..<i + n]))"
proof (induction n arbitrary: i)
  case 0
  then show ?case by simp
next
  case (Suc n)
  have "[i..<i + Suc n] = i # [Suc i..<Suc i + n]" by (simp add: upt_conv_Cons)
  then show ?case
    using Suc [of "Suc i"] by (simp add: get_event_ring [OF assms] add.commute del: upt_Suc)
qed

text \<open>Searching an event list of the game, for which the ring size must be a power of two,
  never reads outside the ring and finds the first matching event in the order of the ring,
  starting at its head and wrapping around.\<close>

lemma elist_find_first:
  assumes "from_eventlist L t = Return C" and "wf_ctx C"
  shows "elist_find L t E = Return (find_if (\<lambda>e. event_matches E (ee_e e)) (ring_entries C))"
  using elist_loop_find [OF assms(2), of "\<lambda>e. event_matches E (ee_e e)" 0 "nat (ec_count C)"] assms(1)
  by (simp add: elist_find_def elist_apply_def ring_entries_def)

text \<open>A ring of two events, the head at the second.\<close>

definition demo_event :: "EventType \<Rightarrow> int \<Rightarrow> EventClass" where
  "demo_event t h =
     (let z = \<lparr>m_id = 0, m_rtti = 0\<rparr>;
          mg = \<lparr>md_Whom = z, md_Mission = 0, md_Target = z, md_Destination = z, md_Follow = z,
                md_IsPlanningEvent = False, md_Speed = 0, md_MaxSpeed = 0\<rparr>
      in \<lparr>e_Type = t, e_IsExecuted = False, e_HouseIndex = h, e_Frame = 10,
          e_Data = \<lparr>ed_SellCell = \<lparr>cell_X = 0, cell_Y = 0\<rparr>,
            ed_Place = \<lparr>pd_RTTIType = 0, pd_HeapID = 0, pd_IsNaval = False,
              pd_Location = \<lparr>cell_X = 0, cell_Y = 0\<rparr>\<rparr>,
            ed_Production = \<lparr>pr_rtti_id = 1, pr_heap_id = 2, pr_is_naval = False\<rparr>,
            ed_MegaMission = mg, ed_MegaMission_F = mg\<rparr>\<rparr>)"

definition demo_ring :: EventListCtx where
  "demo_ring = \<lparr>ec_count = 2, ec_head = 1, ec_tail = 1,
     ec_list = [demo_event EV_PRODUCE 4, demo_event EV_PRODUCE 3], ec_timings = [70, 60], ec_length = 2\<rparr>"

definition demo_lists :: event_lists where
  "demo_lists = \<lparr>gl_OutList = demo_ring, gl_DoList = demo_ring, gl_MegaMissionList = demo_ring\<rparr>"

lemma demo_ring_wf: "wf_ctx demo_ring"
  unfolding wf_ctx_def by (rule exI [of _ 1]) (simp add: demo_ring_def)

lemma demo_ring_entries:
  "ring_entries demo_ring =
     [\<lparr>ee_e = demo_event EV_PRODUCE 3, ee_timing = 60, ee_index = 0\<rparr>,
      \<lparr>ee_e = demo_event EV_PRODUCE 4, ee_timing = 70, ee_index = 1\<rparr>]"
  by (simp add: ring_entries_def ring_entry_def demo_ring_def Let_def upt_rec numeral_2_eq_2)

section \<open>Parsing events\<close>

text \<open>The message \<open>T\<close> reports the event \<open>E\<close> with the given timing.\<close>

definition reports :: "Event \<Rightarrow> EventClass \<Rightarrow> u32 \<Rightarrow> bool" where
  "reports T E time \<longleftrightarrow> event_type T = e_Type E \<and> is_executed T = e_IsExecuted E
     \<and> ev_house_index T = e_HouseIndex E \<and> ev_frame T = e_Frame E \<and> ev_timing T = time
     \<and> (e_Type E = EV_PRODUCE \<longrightarrow> production T = Some (ed_Production (e_Data E)))
     \<and> (e_Type E = EV_PLACE \<longrightarrow> (\<exists>p. place T = Some p \<and> pl_rtti_type p = pd_RTTIType (ed_Place (e_Data E))
          \<and> pl_heap_id p = pd_HeapID (ed_Place (e_Data E))
          \<and> co_x (pl_location p) = cell_X (pd_Location (ed_Place (e_Data E)))
          \<and> co_y (pl_location p) = cell_Y (pd_Location (ed_Place (e_Data E)))))
     \<and> (e_Type E = EV_MEGAMISSION \<longrightarrow> (\<exists>m. mega_mission T = Some m
          \<and> mm_whom m = md_Whom (ed_MegaMission (e_Data E)) \<and> mm_mission m = md_Mission (ed_MegaMission (e_Data E))
          \<and> mm_target m = md_Target (ed_MegaMission (e_Data E))
          \<and> mm_destination m = md_Destination (ed_MegaMission (e_Data E))))"

lemma parse_TargetClass_eq [simp]: "parse_TargetClass s d = s"
  by (rule TargetClass.equality) (simp_all add: parse_TargetClass_def)

lemma EP_parse_reports: "\<exists>T'. EP_parse num E time T = Return T' \<and> reports T' E time"
proof (cases "e_Type E")
  case EV_PRODUCE
  have "\<lparr>pr_rtti_id = pr_rtti_id x, pr_heap_id = pr_heap_id x, pr_is_naval = pr_is_naval x\<rparr> = x"
    for x :: Production by simp
  then show ?thesis using EV_PRODUCE by (simp add: EP_parse_def reports_def EP_Production_def Let_def)
qed (simp_all add: EP_parse_def reports_def EP_Place_def EP_MegaMission_def Let_def)

lemma elist_loop_parse:
  fixes num :: "EventType \<Rightarrow> nat"
  defines "fn \<equiv> \<lambda>e d. if 0 \<le> ee_index e \<and> nat (ee_index e) < length d
      then obind (EP_parse num (ee_e e) (word_of_int (ee_timing e)) (d ! nat (ee_index e)))
        (\<lambda>T. Return (d[nat (ee_index e) := T], False))
      else Raise (out_of_range ''RepeatedPtrField::at'')"
  assumes "wf_ctx C" and "length d = i + n"
  shows "\<exists>d'. elist_loop C fn (int i) n d = Return d' \<and> length d' = length d
    \<and> take i d' = take i d
    \<and> (\<forall>j < n. reports (d' ! (i + j)) (ee_e (ring_entry C (i + j))) (word_of_int (ee_timing (ring_entry C (i + j)))))"
  using assms(3)
proof (induction n arbitrary: i d)
  case 0
  then show ?case by simp
next
  case (Suc n)
  let ?e = "ring_entry C i"
  have ix: "ee_index ?e = int i" by (simp add: ring_entry_def Let_def)
  obtain T where T: "EP_parse num (ee_e ?e) (word_of_int (ee_timing ?e)) (d ! i) = Return T"
    "reports T (ee_e ?e) (word_of_int (ee_timing ?e))" using EP_parse_reports by blast
  have fn: "fn ?e d = Return (d[i := T], False)" using Suc.prems by (simp add: fn_def ix T(1))
  have step: "elist_loop C fn (int i) (Suc n) d = elist_loop C fn (int (Suc i)) n (d[i := T])"
    by (simp add: get_event_ring [OF assms(2)] fn add.commute)
  obtain d' where d': "elist_loop C fn (int (Suc i)) n (d[i := T]) = Return d'" "length d' = length d"
    "take (Suc i) d' = take (Suc i) (d[i := T])"
    "\<forall>j < n. reports (d' ! (Suc i + j)) (ee_e (ring_entry C (Suc i + j)))
       (word_of_int (ee_timing (ring_entry C (Suc i + j))))"
    using Suc.IH [of "d[i := T]" "Suc i"] Suc.prems by auto
  have di: "d' ! i = T" using d'(3) Suc.prems by (metis le_add1 le_imp_less_Suc lessI nth_list_update_eq
        nth_take add_Suc_right)
  have "take i d' = take i d" using arg_cong [OF d'(3), of "take i"] by (simp add: min_def)
  moreover have "reports (d' ! (i + j)) (ee_e (ring_entry C (i + j)))
      (word_of_int (ee_timing (ring_entry C (i + j))))" if "j < Suc n" for j
  proof (cases j)
    case 0
    then show ?thesis using di T(2) by simp
  next
    case (Suc k)
    then show ?thesis using d'(4) that by (metis Suc_less_eq add_Suc_shift)
  qed
  ultimately show ?case unfolding step using d'(1,2) by auto
qed

text \<open>Parsing an event list gives one message for each queued event, in the order of the
  ring from its head, and every message reports its event: type, house, frame, timing, and
  the production, placement or mission data.\<close>

lemma parse_EventList_reports:
  assumes "wf_ctx C"
  shows "\<exists>res. parse_EventList num C dst = Return res \<and> length res = nat (ec_count C)
    \<and> list_all2 (\<lambda>T e. reports T (ee_e e) (word_of_int (ee_timing e))) res (ring_entries C)"
proof -
  have cnt: "0 \<le> ec_count C" using assms by (auto simp: wf_ctx_def)
  let ?d = "if int (length dst) \<noteq> ec_count C then fill_repeated_empty Event_default (nat (ec_count C)) dst
    else dst"
  have len: "length ?d = nat (ec_count C)" using cnt by auto
  from elist_loop_parse [OF assms, of ?d 0 "nat (ec_count C)" num] len obtain res where
    r: "parse_EventList num C dst = Return res" "length res = nat (ec_count C)"
      "\<forall>j < nat (ec_count C). reports (res ! j) (ee_e (ring_entry C j)) (word_of_int (ee_timing (ring_entry C j)))"
    by (auto simp: parse_EventList_def elist_apply_def Let_def)
  then show ?thesis by (auto simp: list_all2_conv_all_nth ring_entries_def)
qed

text \<open>The message list reports a list of queued events in order.\<close>

definition list_reports :: "Event list \<Rightarrow> EventListCtx \<Rightarrow> bool" where
  "list_reports Ts C \<longleftrightarrow> list_all2 (\<lambda>T e. reports T (ee_e e) (word_of_int (ee_timing e))) Ts (ring_entries C)"

definition history_ok :: "nat \<Rightarrow> EventListsSnapshot \<Rightarrow> bool" where
  "history_ok n ES \<longleftrightarrow> length (es_lists ES) \<le> n \<and> length (es_frame ES) = length (es_lists ES)"

lemma parse_EventLists_ok:
  assumes "wf_ctx (gl_OutList L)" "wf_ctx (gl_DoList L)" "wf_ctx (gl_MegaMissionList L)"
    and "0 < n" and "history_ok n ES"
  obtains ol dl ml ES' where "parse_EventLists num L n G ES
      = Return (G\<lparr>out_list := ol, do_list := dl, megamission_list := ml\<rparr>, ES')"
    "list_reports ol (gl_OutList L)" "list_reports dl (gl_DoList L)" "list_reports ml (gl_MegaMissionList L)"
    "history_ok n ES'"
proof -
  obtain ol dl ml where p: "parse_EventList num (gl_OutList L) (out_list G) = Return ol"
    "parse_EventList num (gl_DoList L) (do_list G) = Return dl"
    "parse_EventList num (gl_MegaMissionList L) (megamission_list G) = Return ml"
    and r: "list_reports ol (gl_OutList L)" "list_reports dl (gl_DoList L)" "list_reports ml (gl_MegaMissionList L)"
    using parse_EventList_reports [OF assms(1), of num "out_list G"]
      parse_EventList_reports [OF assms(2), of num "do_list G"]
      parse_EventList_reports [OF assms(3), of num "megamission_list G"] unfolding list_reports_def by blast
  show ?thesis
  proof (cases "length (es_lists ES) \<ge> n")
    case True
    then have "es_lists ES \<noteq> []" "es_frame ES \<noteq> []" using assms(4,5) by (auto simp: history_ok_def)
    then show ?thesis
      using that True p r assms(5) by (auto simp: parse_EventLists_def Let_def history_ok_def)
  next
    case False
    then show ?thesis
      using that p r assms(5) by (auto simp: parse_EventLists_def Let_def history_ok_def)
  qed
qed

text \<open>C22: The history of event lists is bounded: a snapshot appends the current lists with the
  current frame, the oldest entry is dropped when the bound is reached, and lists and frames
  stay aligned.\<close>

theorem event_history_bounded:
  assumes "wf_ctx (gl_OutList L)" "wf_ctx (gl_DoList L)" "wf_ctx (gl_MegaMissionList L)"
    and "0 < max_size" and "length (es_lists ES) \<le> max_size" and "length (es_frame ES) = length (es_lists ES)"
  shows "\<exists>G' ES' EL. parse_EventLists num L max_size G ES = Return (G', ES')
    \<and> es_lists ES' = drop (Suc (length (es_lists ES)) - max_size) (es_lists ES @ [EL])
    \<and> es_frame ES' = drop (Suc (length (es_lists ES)) - max_size) (es_frame ES @ [current_frame G])
    \<and> length (es_lists ES') \<le> max_size \<and> length (es_frame ES') = length (es_lists ES')
    \<and> el_out_list EL = out_list G' \<and> length (out_list G') = nat (ec_count (gl_OutList L))"
proof -
  from parse_EventList_reports [OF assms(1), of num "out_list G"]
    parse_EventList_reports [OF assms(2), of num "do_list G"]
    parse_EventList_reports [OF assms(3), of num "megamission_list G"]
  obtain ol dl ml where p: "parse_EventList num (gl_OutList L) (out_list G) = Return ol"
    "length ol = nat (ec_count (gl_OutList L))" "parse_EventList num (gl_DoList L) (do_list G) = Return dl"
    "parse_EventList num (gl_MegaMissionList L) (megamission_list G) = Return ml" by blast
  let ?EL = "\<lparr>el_out_list = ol, el_do_list = dl, el_megamission_list = ml\<rparr>"
  let ?G = "G\<lparr>out_list := ol, do_list := dl, megamission_list := ml\<rparr>"
  show ?thesis
  proof (cases "length (es_lists ES) = max_size")
    case True
    then have "es_lists ES \<noteq> []" "es_frame ES \<noteq> []" using assms(4,6) by auto
    then show ?thesis
      using True p assms(4,6) by (cases "es_lists ES"; cases "es_frame ES")
        (auto simp: parse_EventLists_def Let_def intro!: exI [of _ ?EL])
  next
    case False
    then show ?thesis
      using p assms(4-6) by (auto simp: parse_EventLists_def Let_def intro!: exI [of _ ?EL])
  qed
qed

theorem event_history_bounded_witness:
  "\<exists>G' ES' EL. parse_EventLists (\<lambda>_. 0) demo_lists 600 demo_state \<lparr>es_lists = [], es_frame = []\<rparr> = Return (G', ES')
    \<and> es_lists ES' = [EL] \<and> es_frame ES' = [0] \<and> length (el_out_list EL) = 2"
proof -
  have "wf_ctx (gl_OutList demo_lists)" "wf_ctx (gl_DoList demo_lists)" "wf_ctx (gl_MegaMissionList demo_lists)"
    by (simp_all add: demo_lists_def demo_ring_wf)
  from event_history_bounded [OF this, of 600 "\<lparr>es_lists = [], es_frame = []\<rparr>" "\<lambda>_. 0" demo_state] show ?thesis
    by (auto simp: demo_lists_def demo_ring_def demo_state_def GameState_default_def)
qed

text \<open>\<open>convert_event\<close> divides an index that is already counted in elements by the size of an
  element: for every event but the first it returns a wrong entry, index 0 for all events
  whose index is smaller than that size.\<close>

lemma convert_event_wrong_index:
  assumes "1 < sz" and "0 < idx" and "idx < length (ec_list C)" and "length (ec_timings C) = length (ec_list C)"
  shows "\<exists>e. convert_event C sz idx = Return e \<and> ee_index e \<noteq> int idx \<and> (idx < sz \<longrightarrow> ee_index e = 0)"
proof -
  have lt: "idx div sz < idx" using assms by simp
  then have "idx div sz < length (ec_list C)" using assms(3) by (rule less_trans)
  then show ?thesis using lt assms(4) by (simp add: convert_event_def Let_def)
qed

end
