(* ===== verification/State_Context.thy ===== *)
theory State_Context
  imports Event_List "HOL-Library.Signed_Division"
begin

unbundle bit_operations_syntax

text \<open>
  \<^verbatim>\<open>src/src/ra2/state_context.cpp\<close>: queries on the stored game state (objects, type classes through a
  cache, houses, factories) and the events that the service adds to the game.

  The game is a parameter: a record of the functions the code calls in it, over a state \<open>'w\<close>. Its
  checks are queries of the state, the others may change it. The type class cache maps an address
  to the position of the type class in the stored list, which is what the stored pointers denote.
\<close>

section \<open>The game\<close>

record 'w game_abi =
  ga_lists :: "'w \<Rightarrow> event_lists"
  ga_CurrentFrame :: "'w \<Rightarrow> int"
  ga_FrameSendRate :: "'w \<Rightarrow> int"
  ga_MaxAhead :: "'w \<Rightarrow> int"
  ga_CurrentPlayer :: "'w \<Rightarrow> int option"
  ga_timeGetTime :: "'w \<Rightarrow> u32"
  ga_AddEvent :: "EventClass \<Rightarrow> int \<Rightarrow> 'w \<Rightarrow> 'w \<times> bool"
  ga_Coord2Cell :: "Coordinates \<Rightarrow> CellStruct"
  ga_TryGetCellAt :: "CellStruct \<Rightarrow> 'w \<Rightarrow> u32"
  ga_GetFoundationData :: "u32 \<Rightarrow> bool \<Rightarrow> 'w \<Rightarrow> u32"
  ga_ProximityCheck :: "u32 \<Rightarrow> u32 \<Rightarrow> u32 \<Rightarrow> u32 \<Rightarrow> CellStruct \<Rightarrow> 'w \<Rightarrow> bool"
  ga_SomeCheck :: "u32 \<Rightarrow> u32 \<Rightarrow> u32 \<Rightarrow> u32 \<Rightarrow> CellStruct \<Rightarrow> 'w \<Rightarrow> bool"
  ga_CanPlaceHere :: "u32 \<Rightarrow> CellStruct \<Rightarrow> u32 \<Rightarrow> 'w \<Rightarrow> bool"
  ga_CanBuild :: "u32 \<Rightarrow> u32 \<Rightarrow> bool \<Rightarrow> bool \<Rightarrow> 'w \<Rightarrow> int"
  ga_ClickMission :: "u32 \<Rightarrow> int \<Rightarrow> u32 \<Rightarrow> u32 \<Rightarrow> u32 \<Rightarrow> 'w \<Rightarrow> 'w \<times> bool"
  ga_ClickEvent :: "u32 \<Rightarrow> u8 \<Rightarrow> 'w \<Rightarrow> 'w \<times> bool"
  ga_DeployObject :: "u32 \<Rightarrow> 'w \<Rightarrow> 'w"
  ga_SellBuilding :: "u32 \<Rightarrow> u32 \<Rightarrow> 'w \<Rightarrow> 'w"
  ga_SelectObject :: "u32 \<Rightarrow> 'w \<Rightarrow> 'w \<times> bool"
  ga_AddMessage :: "u32 \<Rightarrow> int \<Rightarrow> string \<Rightarrow> int \<Rightarrow> int \<Rightarrow> u32 \<Rightarrow> bool \<Rightarrow> 'w \<Rightarrow> 'w"

text \<open>What the generated message classes and the structures of the game say of enumerations and
  sizes: the numbers of the enumeration values, the initial contents of the data of an event, the size
  of an event in bytes, and the text form of messages.\<close>

record schema =
  sm_rtti :: "AbstractType \<Rightarrow> int"
  sm_abs :: "int \<Rightarrow> AbstractType"
  sm_data0 :: event_data
  sm_event_size :: nat
  sm_debug :: "Event \<Rightarrow> string"
  sm_debug_type :: "ObjectTypeClass \<Rightarrow> string"
  sm_mission :: "Mission \<Rightarrow> int"
  sm_action :: "UnitAction \<Rightarrow> int"
  sm_event_num :: "EventType \<Rightarrow> u8"
  sm_Buildable :: int

record 'w StateContext =
  sc_world :: 'w
  sc_sv :: StorageValue
  sc_tc_cache :: "(u32 \<times> nat) list"

definition coord_to_cell :: "'w game_abi \<Rightarrow> Coordinates \<Rightarrow> CellStruct" where
  "coord_to_cell abi c = ga_Coord2Cell abi c"

definition get_map_cell :: "'w game_abi \<Rightarrow> Coordinates \<Rightarrow> 'w \<Rightarrow> u32" where
  "get_map_cell abi c w = ga_TryGetCellAt abi (coord_to_cell abi c) w"

text \<open>\<open>DisplayClass_Passes_Proximity_Check\<close> of \<^verbatim>\<open>abi.cpp\<close> combines two checks of the game.\<close>

definition Passes_Proximity_Check :: "'w game_abi \<Rightarrow> u32 \<Rightarrow> u32 \<Rightarrow> u32 \<Rightarrow> CellStruct \<Rightarrow> 'w \<Rightarrow> bool" where
  "Passes_Proximity_Check abi p_this p_object house_index cell w =
     (let fnd = ga_GetFoundationData abi p_object True w
      in ga_ProximityCheck abi p_this p_object house_index fnd cell w
         \<and> ga_SomeCheck abi p_this p_object house_index fnd cell w)"

section \<open>Queries\<close>

fun emplace_types :: "nat \<Rightarrow> ObjectTypeClass list \<Rightarrow> (u32 \<times> nat) list \<Rightarrow> (u32 \<times> nat) list" where
  "emplace_types i [] c = c"
| "emplace_types i (t # ts) c =
     emplace_types (Suc i) ts
       (if map_of c (tc_pointer_self t) = None then c @ [(tc_pointer_self t, i)] else c)"

abbreviation sc_types :: "'w StateContext \<Rightarrow> ObjectTypeClass list" where
  "sc_types S \<equiv> object_types (sv_initial_game_state (sc_sv S))"

definition tc_cache :: "'w StateContext \<Rightarrow> 'w StateContext" where
  "tc_cache S = (if sc_tc_cache S = [] then S\<lparr>sc_tc_cache := emplace_types 0 (sc_types S) []\<rparr> else S)"

definition get_type_class :: "u32 \<Rightarrow> 'w StateContext \<Rightarrow> 'w StateContext \<times> ObjectTypeClass outcome" where
  "get_type_class address S =
     (let S1 = tc_cache S
      in (S1, case map_of (sc_tc_cache S1) address of
                None \<Rightarrow> Raise (runtime_error (''invalid type class '' @ show_nat (unat address)))
              | Some i \<Rightarrow> if i < length (sc_types S1) then Return (sc_types S1 ! i) else Undefined))"

definition current_state :: "'w StateContext \<Rightarrow> GameState" where
  "current_state S = sv_game_state (sc_sv S)"

definition find_object :: "(Object \<Rightarrow> bool) \<Rightarrow> 'w StateContext \<Rightarrow> Object option" where
  "find_object pred S = find_if pred (objects (current_state S))"

definition get_object :: "u32 \<Rightarrow> 'w StateContext \<Rightarrow> Object outcome" where
  "get_object address S =
     (case find_object (\<lambda>v. pointer_self v = address) S of
        None \<Rightarrow> Raise (runtime_error (''object '' @ show_nat (unat address) @ '' not found''))
      | Some O' \<Rightarrow> Return O')"

text \<open>\<open>get_object_entry\<close> with a predicate: the type class of every object that is looked at is
  fetched first, also of those that do not match.\<close>

fun find_entry ::
  "(Object \<times> ObjectTypeClass \<Rightarrow> bool) \<Rightarrow> Object list \<Rightarrow> 'w StateContext
     \<Rightarrow> 'w StateContext \<times> (Object \<times> ObjectTypeClass) outcome"
where
  "find_entry pred [] S = (S, Raise (runtime_error ''object not found''))"
| "find_entry pred (v # vs) S =
     sbind (get_type_class (pointer_technotypeclass v) S) (\<lambda>tc S1.
       if pred (v, tc) then (S1, Return (v, tc)) else find_entry pred vs S1)"

definition get_object_entry ::
  "(Object \<times> ObjectTypeClass \<Rightarrow> bool) \<Rightarrow> 'w StateContext \<Rightarrow> 'w StateContext \<times> (Object \<times> ObjectTypeClass) outcome"
where
  "get_object_entry pred S = find_entry pred (objects (current_state S)) S"

definition get_object_entry_at ::
  "u32 \<Rightarrow> 'w StateContext \<Rightarrow> 'w StateContext \<times> (Object \<times> ObjectTypeClass) outcome"
where
  "get_object_entry_at address S =
     sbind (S, get_object address S) (\<lambda>ob S1.
     sbind (get_type_class (pointer_technotypeclass ob) S1) (\<lambda>t S2. (S2, Return (ob, t))))"

definition get_house :: "(House \<Rightarrow> bool) \<Rightarrow> 'w StateContext \<Rightarrow> House option" where
  "get_house pred S = find_if pred (houses (current_state S))"

definition get_house_at :: "u32 \<Rightarrow> 'w StateContext \<Rightarrow> House option" where
  "get_house_at address S = get_house (\<lambda>v. h_self v = address) S"

definition current_player :: "'w StateContext \<Rightarrow> House option" where
  "current_player S = get_house h_current_player S"

definition find_factory :: "(Factory \<Rightarrow> bool) \<Rightarrow> 'w StateContext \<Rightarrow> Factory option" where
  "find_factory pred S = find_if pred (factories (current_state S))"

section \<open>Events\<close>

text \<open>The constructor of \<open>EventClass\<close>.\<close>

definition new_event :: "schema \<Rightarrow> EventType \<Rightarrow> int \<Rightarrow> u32 \<Rightarrow> EventClass" where
  "new_event sm t h fr = \<lparr>e_Type = t, e_IsExecuted = False, e_HouseIndex = h, e_Frame = fr, e_Data = sm_data0 sm\<rparr>"

definition event_query :: "schema \<Rightarrow> 'w game_abi \<Rightarrow> Event \<Rightarrow> EventClass" where
  "event_query sm abi q =
     (let E = new_event sm (event_type q) (to_i8 (ev_house_index q)) (ev_frame q)
      in if event_type q = EV_SELLCELL
         then E\<lparr>e_Type := EV_SELLCELL,
                e_Data := (e_Data E)\<lparr>ed_SellCell := coord_to_cell abi
                  (case sell_cell q of None \<Rightarrow> \<lparr>co_x = 0, co_y = 0, co_z = 0\<rparr> | Some c \<Rightarrow> c)\<rparr>\<rparr>
         else E)"

definition find_event ::
  "schema \<Rightarrow> 'w game_abi \<Rightarrow> Event \<Rightarrow> 'w StateContext \<Rightarrow> (EventEntry \<times> string) option outcome"
where
  "find_event sm abi q S =
     (let E = event_query sm abi q; L = ga_lists abi (sc_world S)
      in obind (elist_find L OUT_LIST E) (\<lambda>r1.
           case r1 of Some r \<Rightarrow> Return (Some (r, ''OutList''))
           | None \<Rightarrow> obind (elist_find L DO_LIST E) (\<lambda>r2.
               case r2 of Some r \<Rightarrow> Return (Some (r, ''DoList''))
               | None \<Rightarrow> obind (elist_find L MEGAMISSION_LIST E) (\<lambda>r3.
                   case r3 of Some r \<Rightarrow> Return (Some (r, ''MegaMissionList''))
                   | None \<Rightarrow> Return None))))"

text \<open>The frame of a new event: the arithmetic is on \<open>int\<close>, so an overflow and a zero send rate are
  undefined; the division truncates.\<close>

definition event_frame :: "'w game_abi \<Rightarrow> 'w \<Rightarrow> u32 \<Rightarrow> bool \<Rightarrow> int outcome" where
  "event_frame abi w frame_delay spoof =
     obind (i32 (ga_CurrentFrame abi w + sint frame_delay)) (\<lambda>f0.
     obind (if frame_delay = 0
            then (let fsr = ga_FrameSendRate abi w
                  in obind (i32 (fsr + ga_CurrentFrame abi w)) (\<lambda>a.
                     obind (i32 (a - 1)) (\<lambda>b.
                     obind (i32 (b + ga_MaxAhead abi w)) (\<lambda>c.
                       if fsr = 0 then Undefined else i32 ((c sdiv fsr) * fsr)))))
            else Return f0) (\<lambda>f.
       i32 (f * (if spoof then -1 else 1))))"

definition event_house :: "'w game_abi \<Rightarrow> 'w \<Rightarrow> Event \<Rightarrow> bool \<Rightarrow> int outcome" where
  "event_house abi w ev spoof =
     (if spoof then Return (to_i8 (ev_house_index ev))
      else case ga_CurrentPlayer abi w of None \<Rightarrow> Undefined | Some ix \<Rightarrow> Return (to_i8 ix))"

definition event_payload ::
  "schema \<Rightarrow> 'w game_abi \<Rightarrow> ObjectTypeClass list \<Rightarrow> Event \<Rightarrow> EventClass \<Rightarrow> EventClass outcome"
where
  "event_payload sm abi types ev E =
     (case production ev of
        Some e \<Rightarrow>
          (if find_type_class types (sm_abs sm (pr_rtti_id e)) (pr_heap_id e) = None
           then Raise (runtime_error (''invalid id: RTTI='' @ show_int (pr_rtti_id e) @ '',heap='' @ show_int (pr_heap_id e)))
           else Return (E\<lparr>e_Data := (e_Data E)\<lparr>ed_Production := e\<rparr>\<rparr>))
      | None \<Rightarrow>
          (case place ev of
             Some e \<Rightarrow>
               Return (E\<lparr>e_Data := (e_Data E)\<lparr>ed_Place :=
                 \<lparr>pd_RTTIType = pl_rtti_type e, pd_HeapID = pl_heap_id e, pd_IsNaval = pl_is_naval e,
                  pd_Location = coord_to_cell abi (pl_location e)\<rparr>\<rparr>\<rparr>)
           | None \<Rightarrow>
               (case sell_cell ev of
                  Some c \<Rightarrow> Return (E\<lparr>e_Data := (e_Data E)\<lparr>ed_SellCell := coord_to_cell abi c\<rparr>\<rparr>)
                | None \<Rightarrow> Return E)))"

text \<open>The event that is handed to the game.\<close>

definition build_event :: "schema \<Rightarrow> 'w game_abi \<Rightarrow> Event \<Rightarrow> u32 \<Rightarrow> bool \<Rightarrow> 'w StateContext \<Rightarrow> EventClass outcome" where
  "build_event sm abi ev frame_delay spoof S =
     obind (event_frame abi (sc_world S) frame_delay spoof) (\<lambda>fr.
     obind (event_house abi (sc_world S) ev spoof) (\<lambda>h.
       event_payload sm abi (sc_types S) ev (new_event sm (event_type ev) h (word_of_int fr))))"

definition check_duplicate :: "schema \<Rightarrow> 'w game_abi \<Rightarrow> Event \<Rightarrow> bool \<Rightarrow> 'w StateContext \<Rightarrow> unit outcome" where
  "check_duplicate sm abi ev filter_duplicates S =
     (if filter_duplicates
      then obind (find_event sm abi ev S) (\<lambda>me.
             case me of
               None \<Rightarrow> Return ()
             | Some (_, nm) \<Rightarrow>
                 Raise (runtime_error (''event already exists in '' @ nm @ '', src='' @ sm_debug sm ev)))
      else Return ())"

definition add_event ::
  "schema \<Rightarrow> 'w game_abi \<Rightarrow> Event \<Rightarrow> u32 \<Rightarrow> bool \<Rightarrow> bool \<Rightarrow> 'w StateContext
     \<Rightarrow> 'w StateContext \<times> EventEntry outcome"
where
  "add_event sm abi ev frame_delay spoof filter_duplicates S =
     sbind (S, check_duplicate sm abi ev filter_duplicates S) (\<lambda>_ S.
     sbind (S, build_event sm abi ev frame_delay spoof S) (\<lambda>E S.
       let (w, ok) = ga_AddEvent abi E (sint (ga_timeGetTime abi (sc_world S))) (sc_world S);
           S1 = S\<lparr>sc_world := w\<rparr>; EL = gl_OutList (ga_lists abi w)
       in (S1, if \<not> ok then Raise (runtime_error ''failed to add event'')
               else convert_event EL (sm_event_size sm) (nat ((ec_tail EL - 1) AND 127)))))"

definition place_event :: "schema \<Rightarrow> House \<Rightarrow> ObjectTypeClass \<Rightarrow> Coordinates \<Rightarrow> Event" where
  "place_event sm H T C =
     Event_default\<lparr>event_type := EV_PLACE,
       place := Some \<lparr>pl_rtti_type = sm_rtti sm (tc_type T), pl_heap_id = tc_array_index T,
                      pl_is_naval = False, pl_location = C\<rparr>,
       ev_house_index := h_array_index H\<rparr>"

definition place_building ::
  "schema \<Rightarrow> 'w game_abi \<Rightarrow> House \<Rightarrow> ObjectTypeClass \<Rightarrow> Coordinates \<Rightarrow> 'w StateContext \<Rightarrow> 'w StateContext \<times> unit outcome"
where
  "place_building sm abi H T C S =
     (let cell_s = coord_to_cell abi C
      in if \<not> Passes_Proximity_Check abi 0x87F7E8 (tc_pointer_self T) (word_of_int (h_array_index H)) cell_s (sc_world S)
         then (S, Raise (runtime_error ''Proximity check failed''))
         else if \<not> ga_CanPlaceHere abi (tc_pointer_self T) cell_s (h_self H) (sc_world S)
         then (S, Raise (runtime_error ''CanPlaceHere check failed''))
         else sbind (add_event sm abi (place_event sm H T C) 0 False True S) (\<lambda>_ S1. (S1, Return ())))"

section \<open>The type class cache\<close>

text \<open>The cache is empty or was filled from the current type classes.\<close>

definition cache_ok :: "'w StateContext \<Rightarrow> bool" where
  "cache_ok S \<longleftrightarrow> sc_tc_cache S = [] \<or> sc_tc_cache S = emplace_types 0 (sc_types S) []"

lemma emplace_types_present: "map_of c a = Some j \<Longrightarrow> map_of (emplace_types i ts c) a = Some j"
  by (induction ts arbitrary: i c) (auto simp: map_add_Some_iff)

lemma emplace_types_absent:
  assumes "map_of c a = None"
  shows "(case find_if (\<lambda>t. tc_pointer_self t = a) ts of
            None \<Rightarrow> map_of (emplace_types i ts c) a = None
          | Some t \<Rightarrow> \<exists>j < length ts. map_of (emplace_types i ts c) a = Some (i + j) \<and> ts ! j = t)"
  using assms
proof (induction ts arbitrary: i c)
  case Nil
  then show ?case by simp
next
  case (Cons t ts)
  let ?c = "if map_of c (tc_pointer_self t) = None then c @ [(tc_pointer_self t, i)] else c"
  show ?case
  proof (cases "tc_pointer_self t = a")
    case True
    then have "map_of ?c a = Some i" using Cons.prems by (simp add: map_add_def)
    then show ?thesis using True by (auto simp: emplace_types_present)
  next
    case False
    then have "map_of ?c a = None" using Cons.prems by (simp add: map_add_def)
    from Cons.IH [OF this, of "Suc i"] False show ?thesis
      by (auto split: option.splits)
  qed
qed

lemma cache_ok_tc_cache [simp]: "cache_ok (tc_cache S) \<longleftrightarrow> cache_ok S"
  by (auto simp: cache_ok_def tc_cache_def)

lemma tc_cache_frame [simp]: "sc_world (tc_cache S) = sc_world S" "sc_sv (tc_cache S) = sc_sv S"
  by (simp_all add: tc_cache_def)

lemma get_type_class_search:
  assumes "cache_ok S"
  shows "snd (get_type_class a S) =
           (case find_if (\<lambda>t. tc_pointer_self t = a) (sc_types S) of
              None \<Rightarrow> Raise (runtime_error (''invalid type class '' @ show_nat (unat a)))
            | Some t \<Rightarrow> Return t)"
    and "cache_ok (fst (get_type_class a S))" and "sc_sv (fst (get_type_class a S)) = sc_sv S"
    and "sc_world (fst (get_type_class a S)) = sc_world S"
proof -
  have c: "sc_tc_cache (tc_cache S) = emplace_types 0 (sc_types S) []"
    using assms by (auto simp: cache_ok_def tc_cache_def)
  show "snd (get_type_class a S) =
           (case find_if (\<lambda>t. tc_pointer_self t = a) (sc_types S) of
              None \<Rightarrow> Raise (runtime_error (''invalid type class '' @ show_nat (unat a)))
            | Some t \<Rightarrow> Return t)"
    using emplace_types_absent [where c = "[]" and a = a and ts = "sc_types S" and i = 0]
    by (auto simp: get_type_class_def Let_def c split: option.splits)
qed (use assms in \<open>simp_all add: get_type_class_def Let_def\<close>)

text \<open>C23: the cache of type classes is transparent. While it is empty or filled from the current list,
  a lookup returns the first type class with the given address and throws exactly when there is
  none, as a linear search would; it changes nothing but the cache, which stays consistent.\<close>

theorem get_type_class_is_search:
  assumes "cache_ok S"
  shows "snd (get_type_class a S) =
           (case find_if (\<lambda>t. tc_pointer_self t = a) (sc_types S) of
              None \<Rightarrow> Raise (runtime_error (''invalid type class '' @ show_nat (unat a)))
            | Some t \<Rightarrow> Return t)
       \<and> cache_ok (fst (get_type_class a S)) \<and> sc_sv (fst (get_type_class a S)) = sc_sv S
       \<and> sc_world (fst (get_type_class a S)) = sc_world S"
  using get_type_class_search [OF assms] by blast

section \<open>Adding events\<close>

text \<open>C24: an event without delay is scheduled for the first frame that is a multiple of the send rate
  and at least the current frame plus the network latency bound; nothing overflows while the
  numbers stay within 32 bits.\<close>

theorem event_frame_aligned:
  assumes "0 < ga_FrameSendRate abi w" and "0 \<le> ga_CurrentFrame abi w" and "0 \<le> ga_MaxAhead abi w"
    and "ga_FrameSendRate abi w + ga_CurrentFrame abi w + ga_MaxAhead abi w < 2 ^ 31"
  shows "\<exists>f. event_frame abi w 0 False = Return f \<and> ga_FrameSendRate abi w dvd f
           \<and> ga_CurrentFrame abi w + ga_MaxAhead abi w \<le> f
           \<and> f < ga_CurrentFrame abi w + ga_MaxAhead abi w + ga_FrameSendRate abi w
           \<and> event_frame abi w 0 True = Return (- f)"
proof -
  define r where "r = ga_FrameSendRate abi w"
  define b where "b = ga_CurrentFrame abi w + ga_MaxAhead abi w"
  define c where "c = r + b - 1"
  have c: "0 \<le> c" "0 < r" "c < 2 ^ 31" "0 \<le> b"
    using assms by (simp_all add: c_def r_def b_def)
  have sd: "c sdiv r = c div r"
    using c by (cases "c = 0") (simp_all add: signed_divide_int_def)
  have split: "c = (c div r) * r + c mod r" "0 \<le> c mod r" "c mod r < r"
    using c by simp_all
  have nn: "0 \<le> (c div r) * r"
    using c by (simp add: pos_imp_zdiv_nonneg_iff)
  have f: "(c div r) * r \<le> c" "b \<le> (c div r) * r" "(c div r) * r < b + r" "0 \<le> (c div r) * r"
    using split nn c_def by linarith+
  have eq: "ga_FrameSendRate abi w + ga_CurrentFrame abi w - 1 + ga_MaxAhead abi w = c"
    "ga_FrameSendRate abi w = r"
    by (simp_all add: c_def r_def b_def)
  have "event_frame abi w 0 sp =
      obind (i32 (((ga_FrameSendRate abi w + ga_CurrentFrame abi w - 1 + ga_MaxAhead abi w)
                     sdiv ga_FrameSendRate abi w) * ga_FrameSendRate abi w))
        (\<lambda>f. i32 (f * (if sp then -1 else 1)))" for sp
    using assms by (simp add: event_frame_def Let_def i32_ok)
  then have "event_frame abi w 0 sp = i32 ((c div r) * r * (if sp then -1 else 1))" for sp
    unfolding eq(1) unfolding eq(2) sd using c f by (simp add: i32_ok)
  then show ?thesis
    using f c by (intro exI [of _ "(c div r) * r"]) (simp add: r_def [symmetric] b_def [symmetric] i32_def add.commute)
qed

definition wf_lists :: "event_lists \<Rightarrow> bool" where
  "wf_lists L \<longleftrightarrow> wf_ctx (gl_OutList L) \<and> wf_ctx (gl_DoList L) \<and> wf_ctx (gl_MegaMissionList L)"

definition queued :: "event_lists \<Rightarrow> EventClass set" where
  "queued L = ee_e ` (set (ring_entries (gl_OutList L)) \<union> set (ring_entries (gl_DoList L))
                      \<union> set (ring_entries (gl_MegaMissionList L)))"

lemma elist_find_ring:
  assumes "wf_ctx C" and "from_eventlist L t = Return C"
  shows "elist_find L t E = Return (find_if (\<lambda>e. event_matches E (ee_e e)) (ring_entries C))"
  using elist_loop_find [OF assms(1), of "\<lambda>e. event_matches E (ee_e e)" 0 "nat (ec_count C)"] assms(2)
  by (simp add: elist_find_def elist_apply_def ring_entries_def)

lemma find_event_None_iff:
  assumes "wf_lists (ga_lists abi (sc_world S))"
  shows "find_event sm abi q S = Return None \<longleftrightarrow>
           (\<forall>e \<in> queued (ga_lists abi (sc_world S)). \<not> event_matches (event_query sm abi q) e)"
    and "defined (find_event sm abi q S)" and "\<And>e. find_event sm abi q S \<noteq> Raise e"
  using assms
  by (auto simp: find_event_def Let_def wf_lists_def queued_def elist_find_ring from_eventlist_def
      find_if_None_iff split: option.splits)

lemma event_payload_keeps:
  "event_payload sm abi types ev E = Return E' \<Longrightarrow>
     e_Type E' = e_Type E \<and> e_HouseIndex E' = e_HouseIndex E \<and> e_Frame E' = e_Frame E"
  by (auto simp: event_payload_def split: option.splits if_splits)

lemma build_event_D:
  assumes "build_event sm abi ev delay spoof S = Return E"
  shows "\<exists>fr. event_frame abi (sc_world S) delay spoof = Return fr \<and> e_Frame E = word_of_int fr"
    and "event_house abi (sc_world S) ev spoof = Return (e_HouseIndex E)"
    and "e_Type E = event_type ev"
  using assms by (auto simp: build_event_def new_event_def dest!: event_payload_keeps)


text \<open>The duplicate filter compares with the house index in the message, but the event is added for
  the current player. When all queued events belong to the current player and the message carries
  another house index, as every message built without one does, the filter lets every event
  through, even one that is already queued.\<close>

lemma duplicate_filter_wrong_house:
  assumes "wf_lists (ga_lists abi (sc_world S))" and "ga_CurrentPlayer abi (sc_world S) = Some ix"
    and "\<forall>e \<in> queued (ga_lists abi (sc_world S)). e_HouseIndex e = to_i8 ix"
    and "to_i8 (ev_house_index ev) \<noteq> to_i8 ix"
  shows "check_duplicate sm abi ev True S = Return ()
       \<and> (\<forall>E delay. build_event sm abi ev delay False S = Return E \<longrightarrow> e_HouseIndex E = to_i8 ix)"
proof
  have "e_HouseIndex (event_query sm abi ev) = to_i8 (ev_house_index ev)"
    by (simp add: event_query_def new_event_def Let_def)
  then have "\<forall>e \<in> queued (ga_lists abi (sc_world S)). \<not> event_matches (event_query sm abi ev) e"
    using assms(3,4) by (auto simp: event_matches_def)
  then have "find_event sm abi ev S = Return None"
    using find_event_None_iff(1) [OF assms(1)] by blast
  then show "check_duplicate sm abi ev True S = Return ()"
    by (simp add: check_duplicate_def)
  show "\<forall>E delay. build_event sm abi ev delay False S = Return E \<longrightarrow> e_HouseIndex E = to_i8 ix"
    using assms(2) build_event_D(2) [of sm abi ev _ False S] by (fastforce simp: event_house_def)
qed

section \<open>A small game\<close>

text \<open>A game whose state is its out list of four entries, the player has index 3, and every event is
  accepted at the tail.\<close>

definition demo_ctx :: "EventClass list \<Rightarrow> EventListCtx" where
  "demo_ctx es = \<lparr>ec_count = int (length es), ec_head = 0, ec_tail = int (length es),
     ec_list = take 4 (es @ replicate 4 (demo_event (EV_OTHER 0) 0)), ec_timings = [0, 0, 0, 0], ec_length = 4\<rparr>"

definition demo_abi :: "EventClass list game_abi" where
  "demo_abi =
     \<lparr>ga_lists = (\<lambda>es. \<lparr>gl_OutList = demo_ctx es, gl_DoList = demo_ctx [], gl_MegaMissionList = demo_ctx []\<rparr>),
      ga_CurrentFrame = (\<lambda>_. 101), ga_FrameSendRate = (\<lambda>_. 4), ga_MaxAhead = (\<lambda>_. 10),
      ga_CurrentPlayer = (\<lambda>_. Some 3), ga_timeGetTime = (\<lambda>_. 7),
      ga_AddEvent = (\<lambda>E t es. (es @ [E], True)),
      ga_Coord2Cell = (\<lambda>c. \<lparr>cell_X = co_x c div 256, cell_Y = co_y c div 256\<rparr>),
      ga_TryGetCellAt = (\<lambda>c es. if cell_X c = 0 then 0 else 0x700),
      ga_GetFoundationData = (\<lambda>_ _ _. 0), ga_ProximityCheck = (\<lambda>_ _ _ _ c _. cell_X c < 100),
      ga_SomeCheck = (\<lambda>_ _ _ _ _ _. True), ga_CanPlaceHere = (\<lambda>_ _ _ _. True),
      ga_CanBuild = (\<lambda>_ _ _ _ _. 1),
      ga_ClickMission = (\<lambda>p m t c n es. (es @ [demo_event EV_MEGAMISSION m], True)),
      ga_ClickEvent = (\<lambda>p e es. (es @ [demo_event (EV_OTHER e) 3], True)),
      ga_DeployObject = (\<lambda>p es. es), ga_SellBuilding = (\<lambda>p q es. es),
      ga_SelectObject = (\<lambda>p es. (es, True)), ga_AddMessage = (\<lambda>_ _ _ _ _ _ _ es. es)\<rparr>"

definition demo_schema :: schema where
  "demo_schema =
     \<lparr>sm_rtti = (\<lambda>t. if t = ABSTRACT_TYPE_BUILDINGTYPE then 7 else 0),
      sm_abs = (\<lambda>i. if i = 7 then ABSTRACT_TYPE_BUILDINGTYPE else ABSTRACT_TYPE_OTHER i),
      sm_data0 = e_Data (demo_event (EV_OTHER 0) 0), sm_event_size = 111, sm_debug = (\<lambda>_. []),
      sm_debug_type = tc_name,
      sm_mission = (\<lambda>m. case m of Mission_None \<Rightarrow> -1 | Mission_Construction \<Rightarrow> 19 | Mission_Move \<Rightarrow> 2
        | Mission_Capture \<Rightarrow> 8 | Mission_Attack \<Rightarrow> 1 | Mission_AttackMove \<Rightarrow> 27 | Mission_Stop \<Rightarrow> 13),
      sm_action = (\<lambda>_. 0), sm_event_num = (\<lambda>t. case t of EV_DEPLOY \<Rightarrow> 16 | EV_SELL \<Rightarrow> 14 | _ \<Rightarrow> 0),
      sm_Buildable = 1\<rparr>"

definition demo_type :: "u32 \<Rightarrow> int \<Rightarrow> ObjectTypeClass" where
  "demo_type p i = ObjectTypeClass_default\<lparr>tc_pointer_self := p, tc_array_index := i,
     tc_type := ABSTRACT_TYPE_BUILDINGTYPE\<rparr>"

definition demo_object :: "u32 \<Rightarrow> u32 \<Rightarrow> Object" where
  "demo_object p t = Object_default\<lparr>pointer_self := p, pointer_technotypeclass := t, current_mission := 5\<rparr>"

definition demo_house :: House where
  "demo_house = House_default\<lparr>h_array_index := 3, h_current_player := True, h_self := 0x500\<rparr>"

definition demo_sv :: StorageValue where
  "demo_sv = StorageValue_default\<lparr>
     sv_initial_game_state := GameState_default\<lparr>object_types := [demo_type 0x10 0, demo_type 0x20 1]\<rparr>,
     sv_game_state := GameState_default\<lparr>objects := [demo_object 0x100 0x10, demo_object 0x200 0x20],
       houses := [demo_house],
       factories := [Factory_default\<lparr>f_object := 0x200, f_owner := 0x500, f_completed := True\<rparr>]\<rparr>\<rparr>"

definition demo_sc :: "EventClass list \<Rightarrow> EventClass list StateContext" where
  "demo_sc es = \<lparr>sc_world = es, sc_sv = demo_sv, sc_tc_cache = []\<rparr>"

lemmas demo_state_simps = GameState_default_def StorageValue_default_def Object_default_def
  ObjectTypeClass_default_def House_default_def Factory_default_def Event_default_def
lemmas demo_sc_defs = demo_sc_def demo_sv_def demo_type_def demo_object_def demo_house_def demo_state_simps

lemma demo_types: "sc_types (demo_sc es) = [demo_type 0x10 0, demo_type 0x20 1]"
  by (simp add: demo_sc_def demo_sv_def demo_state_simps)

lemma demo_wf_ctx: "length es \<le> 4 \<Longrightarrow> wf_ctx (demo_ctx es)"
  unfolding wf_ctx_def by (rule exI [of _ 2]) (simp add: demo_ctx_def)

lemma demo_wf_lists: "length es \<le> 4 \<Longrightarrow> wf_lists (ga_lists demo_abi (sc_world (demo_sc es)))"
  by (simp add: wf_lists_def demo_abi_def demo_sc_def demo_wf_ctx)

lemma demo_queued1: "queued (ga_lists demo_abi (sc_world (demo_sc [e]))) = {e}"
  by (simp add: queued_def demo_abi_def demo_sc_def ring_entries_def ring_entry_def demo_ctx_def Let_def)

definition demo_sell :: Event where
  "demo_sell = Event_default\<lparr>event_type := EV_SELLCELL, sell_cell := Some \<lparr>co_x = 512, co_y = 256, co_z = 0\<rparr>\<rparr>"

definition demo_sell_event :: EventClass where
  "demo_sell_event = (let E = demo_event EV_SELLCELL 3
     in E\<lparr>e_Frame := 112, e_Data := (e_Data E)\<lparr>ed_SellCell := \<lparr>cell_X = 2, cell_Y = 1\<rparr>\<rparr>\<rparr>)"

lemma demo_house_i8 [simp]: "to_i8 3 = 3" "to_i8 0 = 0"
  by (simp_all add: to_i8_def)

lemma demo_frame: "event_frame demo_abi es 0 False = Return 112"
  by (simp add: event_frame_def demo_abi_def Let_def i32_def signed_divide_int_def)

lemma demo_build: "build_event demo_schema demo_abi demo_sell 0 False (demo_sc es) = Return demo_sell_event"
  by (simp add: build_event_def demo_frame event_house_def event_payload_def new_event_def demo_sell_def
      demo_sell_event_def demo_schema_def Event_default_def demo_event_def Let_def coord_to_cell_def)
    (simp add: demo_abi_def)

theorem get_type_class_is_search_witness:
  "snd (get_type_class 0x20 (demo_sc [])) = Return (demo_type 0x20 1)
   \<and> snd (get_type_class 9 (demo_sc [])) = Raise (runtime_error (''invalid type class '' @ show_nat 9))"
proof -
  have ok: "cache_ok (demo_sc [])" by (simp add: cache_ok_def demo_sc_def)
  show ?thesis
    using get_type_class_is_search [OF ok, of "0x20"] get_type_class_is_search [OF ok, of 9]
    unfolding demo_types by (simp add: demo_type_def ObjectTypeClass_default_def)
qed

theorem event_frame_aligned_witness:
  "\<exists>f. event_frame demo_abi [] 0 False = Return f \<and> 4 dvd f \<and> 111 \<le> f \<and> f < 115"
proof -
  have "ga_FrameSendRate demo_abi [] = 4" "ga_CurrentFrame demo_abi [] = 101" "ga_MaxAhead demo_abi [] = 10"
    by (simp_all add: demo_abi_def)
  then show ?thesis using event_frame_aligned [of demo_abi "[]"] by auto
qed

lemma demo_world [simp]: "sc_world (demo_sc es) = es" "sc_world (demo_sc es\<lparr>sc_world := fs\<rparr>) = fs"
  by (simp_all add: demo_sc_def)

lemma demo_AddEvent [simp]: "ga_AddEvent demo_abi E t es = (es @ [E], True)"
  by (simp add: demo_abi_def)

lemma demo_check_empty:
  assumes "sc_world S = []"
  shows "check_duplicate demo_schema demo_abi ev True S = Return ()"
proof -
  have "queued (ga_lists demo_abi (sc_world S)) = {}" and "wf_lists (ga_lists demo_abi (sc_world S))"
    using demo_wf_lists [of "[]"] by (simp_all add: assms queued_def demo_abi_def ring_entries_def demo_ctx_def)
  then have "find_event demo_schema demo_abi ev S = Return None"
    using find_event_None_iff(1) by blast
  then show ?thesis by (simp add: check_duplicate_def)
qed

lemma demo_convert:
  "\<exists>x. convert_event (gl_OutList (ga_lists demo_abi [E])) (sm_event_size demo_schema)
         (nat ((ec_tail (gl_OutList (ga_lists demo_abi [E])) - 1) AND 127)) = Return x"
  by (simp add: demo_abi_def demo_ctx_def convert_event_def demo_schema_def)


end
