(* ===== verification/Game_Commands.thy ===== *)
theory Game_Commands
  imports State_Context
begin

text \<open>
  The parts of the commands that run in the game loop: the orders of
  \<^verbatim>\<open>src/src/commands_game.cpp\<close> (units, production, placement) and of
  \<^verbatim>\<open>src/src/commands_yr.cpp\<close> (click event, unit command, mission, adding an event, place query,
  message, conversion of the map). Each is a function on the state context that ends with a value
  or an exception; how a command reaches the game loop is in the theory of the callbacks.
\<close>

section \<open>Unit orders\<close>

record UnitOrder =
  uo_object_addresses :: "u32 list"
  uo_action :: UnitAction
  uo_target_object :: u32
  uo_coordinates :: "Coordinates option"

definition coord0 :: Coordinates where
  "coord0 = \<lparr>co_x = 0, co_y = 0, co_z = 0\<rparr>"

text \<open>A sub-message that is not set reads as its default.\<close>

definition coord_of :: "Coordinates option \<Rightarrow> Coordinates" where
  "coord_of c = (case c of None \<Rightarrow> coord0 | Some x \<Rightarrow> x)"

record UnitOrderCtx =
  o_order :: UnitOrder
  src_object :: "Object option"

definition p_obj :: "UnitOrderCtx \<Rightarrow> u32" where
  "p_obj U = (case src_object U of None \<Rightarrow> 0 | Some ob \<Rightarrow> pointer_self ob)"

definition uo_click_event ::
  "schema \<Rightarrow> 'w game_abi \<Rightarrow> UnitOrderCtx \<Rightarrow> EventType \<Rightarrow> 'w StateContext \<Rightarrow> 'w StateContext \<times> unit outcome"
where
  "uo_click_event sm abi U e S =
     (S\<lparr>sc_world := fst (ga_ClickEvent abi (p_obj U) (sm_event_num sm e) (sc_world S))\<rparr>, Return ())"

definition requires_source_object :: "UnitOrder \<Rightarrow> bool" where
  "requires_source_object u \<longleftrightarrow> uo_action u \<noteq> UNIT_ACTION_SELL_CELL"

definition requires_target_object :: "UnitOrder \<Rightarrow> bool" where
  "requires_target_object u = (case uo_action u of UNIT_ACTION_STOP \<Rightarrow> False | _ \<Rightarrow> True)"

definition requires_target_cell :: "UnitOrder \<Rightarrow> bool" where
  "requires_target_cell u =
     (case uo_action u of
        UNIT_ACTION_STOP \<Rightarrow> False
      | UNIT_ACTION_CAPTURE \<Rightarrow> False
      | UNIT_ACTION_REPAIR \<Rightarrow> False
      | _ \<Rightarrow> True)"

definition is_illegal_mission :: "schema \<Rightarrow> int \<Rightarrow> bool" where
  "is_illegal_mission sm m \<longleftrightarrow> m = sm_mission sm Mission_None \<or> m = sm_mission sm Mission_Construction"

text \<open>The coordinates of the target cell: those of the order, or of the target object when the order
  has none.\<close>

definition target_coordinates ::
  "UnitOrder \<Rightarrow> u32 \<Rightarrow> 'w StateContext \<Rightarrow> 'w StateContext \<times> Coordinates outcome"
where
  "target_coordinates u p_target S =
     (if p_target \<noteq> 0 \<and> uo_coordinates u = None
      then sbind (get_object_entry_at p_target S) (\<lambda>oe S1. (S1, Return (coord_of (coordinates (fst oe)))))
      else (S, Return (coord_of (uo_coordinates u))))"

definition click_mission ::
  "schema \<Rightarrow> 'w game_abi \<Rightarrow> UnitOrderCtx \<Rightarrow> Mission \<Rightarrow> 'w StateContext \<Rightarrow> 'w StateContext \<times> bool outcome"
where
  "click_mission sm abi U m S =
     (let u = o_order U; p_target = (if requires_target_object u then uo_target_object u else 0)
      in sbind
           (if requires_target_cell u
            then sbind (target_coordinates u p_target S) (\<lambda>c S1.
                   let cell = get_map_cell abi c (sc_world S1)
                   in (S1, if cell = 0 then Raise (runtime_error ''invalid cell'') else Return cell))
            else (S, Return 0))
           (\<lambda>cell S1.
              case ga_ClickMission abi (p_obj U) (sm_mission sm m) p_target cell 0 (sc_world S1) of
                (w, r) \<Rightarrow> (S1\<lparr>sc_world := w\<rparr>, Return r)))"

text \<open>The result of a call that is cast to \<open>void\<close>.\<close>

definition ignore :: "'s \<times> 'a outcome \<Rightarrow> 's \<times> unit outcome" where
  "ignore m = sbind m (\<lambda>_ s. (s, Return ()))"

definition check_mission :: "schema \<Rightarrow> UnitOrderCtx \<Rightarrow> unit outcome" where
  "check_mission sm U =
     (if requires_source_object (o_order U)
      then (case src_object U of
              None \<Rightarrow> Undefined
            | Some ob \<Rightarrow>
                (if is_illegal_mission sm (current_mission ob)
                 then Raise (runtime_error (''Object has illegal mission: '' @ show_int (current_mission ob)))
                 else Return ()))
      else Return ())"

definition sell_cell_event :: "UnitOrder \<Rightarrow> Event" where
  "sell_cell_event u = Event_default\<lparr>event_type := EV_SELLCELL, sell_cell := Some (coord_of (uo_coordinates u))\<rparr>"

definition unit_action ::
  "schema \<Rightarrow> 'w game_abi \<Rightarrow> UnitOrderCtx \<Rightarrow> 'w StateContext \<Rightarrow> 'w StateContext \<times> unit outcome"
where
  "unit_action sm abi U S =
     sbind (S, check_mission sm U) (\<lambda>_ S.
       case uo_action (o_order U) of
         UNIT_ACTION_DEPLOY \<Rightarrow> uo_click_event sm abi U EV_DEPLOY S
       | UNIT_ACTION_SELL \<Rightarrow> uo_click_event sm abi U EV_SELL S
       | UNIT_ACTION_SELL_CELL \<Rightarrow> ignore (add_event sm abi (sell_cell_event (o_order U)) 0 False True S)
       | UNIT_ACTION_SELECT \<Rightarrow> (S\<lparr>sc_world := fst (ga_SelectObject abi (p_obj U) (sc_world S))\<rparr>, Return ())
       | UNIT_ACTION_MOVE \<Rightarrow> ignore (click_mission sm abi U Mission_Move S)
       | UNIT_ACTION_CAPTURE \<Rightarrow> ignore (click_mission sm abi U Mission_Capture S)
       | UNIT_ACTION_ATTACK \<Rightarrow> ignore (click_mission sm abi U Mission_Attack S)
       | UNIT_ACTION_ATTACK_MOVE \<Rightarrow> ignore (click_mission sm abi U Mission_AttackMove S)
       | UNIT_ACTION_REPAIR \<Rightarrow> ignore (click_mission sm abi U Mission_Capture S)
       | UNIT_ACTION_STOP \<Rightarrow> ignore (click_mission sm abi U Mission_Stop S)
       | UNIT_ACTION_OTHER _ \<Rightarrow> (S, Raise (runtime_error ''invalid unit action'')))"

definition is_live :: "u32 \<Rightarrow> Object \<Rightarrow> bool" where
  "is_live k v \<longleftrightarrow> pointer_self v = k \<and> \<not> in_limbo v"

fun perform_each ::
  "schema \<Rightarrow> 'w game_abi \<Rightarrow> UnitOrder \<Rightarrow> u32 list \<Rightarrow> 'w StateContext \<Rightarrow> 'w StateContext \<times> unit outcome"
where
  "perform_each sm abi u [] S = (S, Return ())"
| "perform_each sm abi u (k # ks) S =
     sbind (get_object_entry (\<lambda>v. is_live k (fst v)) S) (\<lambda>oe S1.
     sbind (unit_action sm abi \<lparr>o_order = u, src_object = Some (fst oe)\<rparr> S1) (\<lambda>_ S2.
       perform_each sm abi u ks S2))"

definition perform ::
  "schema \<Rightarrow> 'w game_abi \<Rightarrow> UnitOrder \<Rightarrow> 'w StateContext \<Rightarrow> 'w StateContext \<times> unit outcome"
where
  "perform sm abi u S =
     (if uo_action u = UNIT_ACTION_SELL_CELL
      then unit_action sm abi \<lparr>o_order = u, src_object = None\<rparr> S
      else perform_each sm abi u (uo_object_addresses u) S)"

section \<open>Production and placement\<close>

definition produce_event :: "schema \<Rightarrow> ObjectTypeClass \<Rightarrow> Event" where
  "produce_event sm t =
     Event_default\<lparr>event_type := EV_PRODUCE,
       production := Some \<lparr>pr_rtti_id = sm_rtti sm (tc_type t), pr_heap_id = tc_array_index t, pr_is_naval = False\<rparr>\<rparr>"

text \<open>\<open>ctx->current_player()->self()\<close>: there must be a current player.\<close>

definition player_self :: "'w StateContext \<Rightarrow> u32 outcome" where
  "player_self S = (case current_player S of None \<Rightarrow> Undefined | Some h \<Rightarrow> Return (h_self h))"

definition produce_order ::
  "schema \<Rightarrow> 'w game_abi \<Rightarrow> ObjectTypeClass \<Rightarrow> 'w StateContext \<Rightarrow> 'w StateContext \<times> unit outcome"
where
  "produce_order sm abi t S =
     sbind (get_type_class (tc_pointer_self t) S) (\<lambda>tc S1.
     sbind (S1, player_self S1) (\<lambda>h S1.
       if ga_CanBuild abi h (tc_pointer_self tc) False False (sc_world S1) \<noteq> sm_Buildable sm
       then (S1, Raise (runtime_error (''unbuildable '' @ sm_debug_type sm t)))
       else ignore (add_event sm abi (produce_event sm t) 0 False True S1)))"

text \<open>The search for the factory reads the current player only for a completed factory of the
  object.\<close>

fun find_completed :: "u32 \<Rightarrow> Factory list \<Rightarrow> 'w StateContext \<Rightarrow> Factory option outcome" where
  "find_completed ob [] S = Return None"
| "find_completed ob (f # fs) S =
     (if f_completed f \<and> f_object f = ob
      then obind (player_self S) (\<lambda>h. if f_owner f = h then Return (Some f) else find_completed ob fs S)
      else find_completed ob fs S)"

definition place_building_order ::
  "schema \<Rightarrow> 'w game_abi \<Rightarrow> u32 \<Rightarrow> Coordinates \<Rightarrow> 'w StateContext \<Rightarrow> 'w StateContext \<times> unit outcome"
where
  "place_building_order sm abi building c S =
     sbind (get_object_entry_at building S) (\<lambda>(ob, tc) S1.
     sbind (S1, find_completed (pointer_self ob) (factories (current_state S1)) S1) (\<lambda>f S1.
       case f of
         None \<Rightarrow> (S1, Raise (runtime_error (''completed object '' @ show_nat (unat building) @ '' not found from any factory'')))
       | Some _ \<Rightarrow>
           (case current_player S1 of
              None \<Rightarrow> (S1, Undefined)
            | Some H \<Rightarrow> place_building sm abi H tc c S1)))"

section \<open>Commands of commands\_yr\<close>

definition unit_action_yr :: "'w game_abi \<Rightarrow> u32 \<Rightarrow> UnitAction \<Rightarrow> 'w \<Rightarrow> 'w" where
  "unit_action_yr abi p_object a w =
     (case a of
        UNIT_ACTION_DEPLOY \<Rightarrow> ga_DeployObject abi p_object w
      | UNIT_ACTION_SELL \<Rightarrow> ga_SellBuilding abi p_object 1 w
      | UNIT_ACTION_SELECT \<Rightarrow> fst (ga_SelectObject abi p_object w)
      | _ \<Rightarrow> w)"

text \<open>The loops over object addresses skip the objects that are unknown or in limbo.\<close>

fun click_event ::
  "'w game_abi \<Rightarrow> u8 \<Rightarrow> u32 list \<Rightarrow> 'w StateContext \<Rightarrow> 'w StateContext \<times> unit outcome"
where
  "click_event abi e [] S = (S, Return ())"
| "click_event abi e (k # ks) S =
     (if find_object (is_live k) S = None then click_event abi e ks S
      else case ga_ClickEvent abi k e (sc_world S) of
             (w, ok) \<Rightarrow>
               (if ok then click_event abi e ks (S\<lparr>sc_world := w\<rparr>)
                else (S\<lparr>sc_world := w\<rparr>,
                      Raise (runtime_error (''ClickEvent failed. object='' @ show_nat (unat k)
                        @ '',event='' @ show_nat (unat e))))))"

fun unit_command_each :: "'w game_abi \<Rightarrow> UnitAction \<Rightarrow> u32 list \<Rightarrow> 'w StateContext \<Rightarrow> 'w StateContext" where
  "unit_command_each abi a [] S = S"
| "unit_command_each abi a (k # ks) S =
     unit_command_each abi a ks
       (if find_object (is_live k) S \<noteq> None then S\<lparr>sc_world := unit_action_yr abi k a (sc_world S)\<rparr> else S)"

definition unit_command ::
  "schema \<Rightarrow> 'w game_abi \<Rightarrow> UnitAction \<Rightarrow> u32 list \<Rightarrow> 'w StateContext \<Rightarrow> 'w StateContext \<times> unit outcome"
where
  "unit_command sm abi a ks S =
     (if a \<noteq> UNIT_ACTION_SELECT \<and> \<not> is_local (houses (current_state S))
      then (S, Raise (runtime_error (''invalid local action: '' @ show_int (sm_action sm a))))
      else (unit_command_each abi a ks S, Return ()))"

record MissionClicked =
  mc_object_addresses :: "u32 list"
  mc_event :: int
  mc_target_object :: u32
  mc_coordinates :: Coordinates

fun mission_clicked_each ::
  "'w game_abi \<Rightarrow> MissionClicked \<Rightarrow> u32 list \<Rightarrow> 'w StateContext \<Rightarrow> 'w StateContext \<times> unit outcome"
where
  "mission_clicked_each abi a [] S = (S, Return ())"
| "mission_clicked_each abi a (k # ks) S =
     (if find_object (is_live k) S = None then mission_clicked_each abi a ks S
      else case ga_ClickMission abi k (mc_event a) (mc_target_object a)
                  (get_map_cell abi (mc_coordinates a) (sc_world S)) 0 (sc_world S) of
             (w, ok) \<Rightarrow>
               (if ok then mission_clicked_each abi a ks (S\<lparr>sc_world := w\<rparr>)
                else (S\<lparr>sc_world := w\<rparr>, Raise (runtime_error ''ClickMission error''))))"

definition mission_clicked ::
  "'w game_abi \<Rightarrow> MissionClicked \<Rightarrow> 'w StateContext \<Rightarrow> 'w StateContext \<times> unit outcome"
where
  "mission_clicked abi a S = mission_clicked_each abi a (mc_object_addresses a) S"

text \<open>The handler of \<open>AddEvent\<close>: its result is the event of the request with the timing of the entry
  that \<open>add_event\<close> returned.\<close>

definition add_event_command ::
  "schema \<Rightarrow> 'w game_abi \<Rightarrow> Event \<Rightarrow> u32 \<Rightarrow> bool \<Rightarrow> 'w StateContext \<Rightarrow> 'w StateContext \<times> Event outcome"
where
  "add_event_command sm abi ev frame_delay spoof S =
     sbind (add_event sm abi ev frame_delay spoof False S) (\<lambda>E S1.
       (S1, Return (ev\<lparr>ev_timing := word_of_int (ee_timing E)\<rparr>)))"

definition PLACE_QUERY_MAX_LENGTH :: int where
  "PLACE_QUERY_MAX_LENGTH = 1024"

record PlaceQuery =
  pq_type_class :: u32
  pq_house_class :: u32
  pq_coordinates :: "Coordinates list"

definition placeable :: "'w game_abi \<Rightarrow> ObjectTypeClass \<Rightarrow> House \<Rightarrow> 'w \<Rightarrow> Coordinates \<Rightarrow> bool" where
  "placeable abi B H w c =
     (let cell_s = coord_to_cell abi c
      in Passes_Proximity_Check abi 0x87F7E8 (tc_pointer_self B) (word_of_int (h_array_index H)) cell_s w
         \<and> ga_CanPlaceHere abi (tc_pointer_self B) cell_s (h_self H) w)"

fun place_query_cells ::
  "'w game_abi \<Rightarrow> ObjectTypeClass \<Rightarrow> House \<Rightarrow> 'w \<Rightarrow> Coordinates list \<Rightarrow> Coordinates list \<Rightarrow> Coordinates list"
where
  "place_query_cells abi B H w [] r = r"
| "place_query_cells abi B H w (c # cs) r =
     (let cell_s = coord_to_cell abi c
      in if cell_X cell_s < 0 \<or> cell_Y cell_s < 0 then place_query_cells abi B H w cs r
         else if placeable abi B H w c then place_query_cells abi B H w cs (r @ [c])
         else place_query_cells abi B H w cs r)"

text \<open>\<open>place_query\<close>: the arguments are truncated before the command is queued for the game loop.\<close>

definition place_query ::
  "'w game_abi \<Rightarrow> PlaceQuery \<Rightarrow> 'w StateContext \<Rightarrow> 'w StateContext \<times> PlaceQuery outcome"
where
  "place_query abi q S =
     sbind (S, truncate_field PLACE_QUERY_MAX_LENGTH (pq_coordinates q)) (\<lambda>(cs, _) S.
     sbind (get_type_class (pq_type_class q) S) (\<lambda>B S1.
       case get_house_at (pq_house_class q) S1 of
         None \<Rightarrow> (S1, Raise (runtime_error (''invalid house '' @ show_nat (unat (pq_house_class q)))))
       | Some H \<Rightarrow> (S1, Return (q\<lparr>pq_coordinates := place_query_cells abi B H (sc_world S1) cs []\<rparr>))))"

definition send_message ::
  "'w game_abi \<Rightarrow> string \<Rightarrow> int \<Rightarrow> u32 \<Rightarrow> 'w StateContext \<Rightarrow> 'w StateContext \<times> unit outcome"
where
  "send_message abi msg color duration_frames S =
     (S\<lparr>sc_world := ga_AddMessage abi 0xA8BC60 1 msg color 0x4046 duration_frames False (sc_world S)\<rparr>, Return ())"

text \<open>The map in columns.\<close>

record MapDataSoA =
  soa_land_type :: "LandType list"
  soa_radiation_level :: "rat list"
  soa_height :: "int list"
  soa_level :: "int list"
  soa_overlay_data :: "int list"
  soa_tiberium_value :: "int list"
  soa_shrouded :: "bool list"
  soa_passability :: "u32 list"
  soa_map_width :: int
  soa_map_height :: int

definition soa_add :: "CellMsg \<Rightarrow> MapDataSoA \<Rightarrow> MapDataSoA" where
  "soa_add c d =
     d\<lparr>soa_land_type := soa_land_type d @ [c_land_type c],
       soa_radiation_level := soa_radiation_level d @ [c_radiation_level c],
       soa_height := soa_height d @ [c_height c], soa_level := soa_level d @ [c_level c],
       soa_overlay_data := soa_overlay_data d @ [c_overlay_data c],
       soa_tiberium_value := soa_tiberium_value d @ [c_tiberium_value c],
       soa_shrouded := soa_shrouded d @ [c_shrouded c],
       soa_passability := soa_passability d @ [c_passability c]\<rparr>"

definition convert_map_data :: "MapData \<Rightarrow> MapDataSoA \<Rightarrow> MapDataSoA" where
  "convert_map_data src dst =
     (fold soa_add (md_cells src) dst)\<lparr>soa_map_width := md_width src, soa_map_height := md_height src\<rparr>"

text \<open>\<open>read_value\<close> (\<open>ReadValue\<close>): the first field that is set in the argument \<open>A\<close> is filled with its value in the storage \<open>sv\<close>, a message
  of the same type. The map in columns is not stored but converted from the stored map.\<close>

definition read_value ::
  "('m, 'f, 'v) reflection \<Rightarrow> ('m \<Rightarrow> MapDataSoA) \<Rightarrow> (MapDataSoA \<Rightarrow> 'm \<Rightarrow> 'm) \<Rightarrow> ('m \<Rightarrow> MapData) \<Rightarrow> 'm \<Rightarrow> 'm \<Rightarrow> 'm outcome"
where
  "read_value R get_soa set_soa get_map A sv =
     (case find_set_fields R A of
        [] \<Rightarrow> Raise (runtime_error ''no field specified'')
      | f # _ \<Rightarrow>
          Return (if rf_name R f = ''map_data_soa'' then set_soa (convert_map_data (get_map sv) (get_soa A)) A
                  else copy_field R A sv f))"

section \<open>Looking up objects\<close>

definition type_known :: "'w StateContext \<Rightarrow> Object \<Rightarrow> bool" where
  "type_known S v \<longleftrightarrow> (\<exists>t \<in> set (sc_types S). tc_pointer_self t = pointer_technotypeclass v)"

text \<open>The state after a lookup: only the cache may have been filled.\<close>

definition looked_up :: "'w StateContext \<Rightarrow> 'w StateContext \<Rightarrow> bool" where
  "looked_up S S' \<longleftrightarrow> cache_ok S' \<and> sc_sv S' = sc_sv S \<and> sc_world S' = sc_world S"

lemma looked_up_refl [simp]: "looked_up S S \<longleftrightarrow> cache_ok S"
  by (simp add: looked_up_def)

lemma looked_up_trans: "looked_up S S1 \<Longrightarrow> looked_up S1 S2 \<Longrightarrow> looked_up S S2"
  by (simp add: looked_up_def)

lemma get_type_class_cases:
  assumes "cache_ok S"
  obtains S1 t where "get_type_class a S = (S1, Return t)" "looked_up S S1" "t \<in> set (sc_types S)"
      "tc_pointer_self t = a"
  | S1 e where "get_type_class a S = (S1, Raise e)" "looked_up S S1" "\<forall>t \<in> set (sc_types S). tc_pointer_self t \<noteq> a"
proof -
  obtain S1 r where g: "get_type_class a S = (S1, r)" by fastforce
  have l: "looked_up S S1"
    using get_type_class_search [OF assms, of a] by (simp add: looked_up_def g)
  show ?thesis
  proof (cases "find_if (\<lambda>t. tc_pointer_self t = a) (sc_types S)")
    case None
    then have "\<forall>t \<in> set (sc_types S). tc_pointer_self t \<noteq> a" by (simp add: find_if_None_iff)
    then show ?thesis
      using that(2) g l get_type_class_search(1) [OF assms, of a] None by simp
  next
    case (Some t)
    then show ?thesis
      using that(1) g l get_type_class_search(1) [OF assms, of a] by (auto dest: find_if_Some_D)
  qed
qed

lemma type_known_looked_up [simp]: "looked_up S S1 \<Longrightarrow> type_known S1 v = type_known S v"
  by (simp add: type_known_def looked_up_def)

text \<open>An object can be fetched by a predicate on objects: it is the first match, and its type and
  those of all objects before it are known.\<close>

definition fetchable :: "'w StateContext \<Rightarrow> (Object \<Rightarrow> bool) \<Rightarrow> Object list \<Rightarrow> Object \<Rightarrow> bool" where
  "fetchable S P vs v \<longleftrightarrow> find_if P vs = Some v \<and> type_known S v
     \<and> (\<forall>x \<in> set (takeWhile (\<lambda>x. \<not> P x) vs). type_known S x)"

lemma find_entry_cases:
  assumes "cache_ok S"
  obtains S1 v tc where "find_entry (\<lambda>v. P (fst v)) vs S = (S1, Return (v, tc))" "looked_up S S1"
      "fetchable S P vs v" "tc \<in> set (sc_types S)" "tc_pointer_self tc = pointer_technotypeclass v"
  | S1 e where "find_entry (\<lambda>v. P (fst v)) vs S = (S1, Raise e)" "looked_up S S1" "\<forall>v. \<not> fetchable S P vs v"
  using assms
proof (induction vs arbitrary: S thesis)
  case Nil
  then show ?case by (simp add: fetchable_def)
next
  case (Cons x vs)
  from Cons.prems(3) show ?case
  proof (cases rule: get_type_class_cases [of S "pointer_technotypeclass x"])
    case (1 S1 t)
    then have known: "type_known S x" by (auto simp: type_known_def)
    show ?thesis
    proof (cases "P x")
      case True
      then show ?thesis using Cons.prems(1) 1 known by (simp add: fetchable_def)
    next
      case False
      have ok: "cache_ok S1" using 1(2) by (simp add: looked_up_def)
      have eq: "fetchable S1 P vs v = fetchable S P (x # vs) v" for v
        using False known 1(2) by (simp add: fetchable_def)
      show ?thesis
      proof (rule Cons.IH [OF _ _ ok])
        fix S2 v tc
        assume "find_entry (\<lambda>v. P (fst v)) vs S1 = (S2, Return (v, tc))" "looked_up S1 S2"
          "fetchable S1 P vs v" "tc \<in> set (sc_types S1)" "tc_pointer_self tc = pointer_technotypeclass v"
        then show thesis
          using Cons.prems(1) [of S2 v tc] False 1 eq looked_up_trans [OF 1(2)] by (simp add: looked_up_def)
      next
        fix S2 e
        assume "find_entry (\<lambda>v. P (fst v)) vs S1 = (S2, Raise e)" "looked_up S1 S2" "\<forall>v. \<not> fetchable S1 P vs v"
        then show thesis
          using Cons.prems(2) [of S2 e] False 1 eq looked_up_trans [OF 1(2)] by simp
      qed
    qed
  next
    case (2 S1 e)
    then have "\<not> type_known S x" by (auto simp: type_known_def)
    then have "\<forall>v. \<not> fetchable S P (x # vs) v" by (auto simp: fetchable_def)
    then show ?thesis using Cons.prems(2) 2 by simp
  qed
qed

section \<open>Orders\<close>

fun mission_of :: "UnitAction \<Rightarrow> Mission option" where
  "mission_of UNIT_ACTION_MOVE = Some Mission_Move"
| "mission_of UNIT_ACTION_CAPTURE = Some Mission_Capture"
| "mission_of UNIT_ACTION_ATTACK = Some Mission_Attack"
| "mission_of UNIT_ACTION_ATTACK_MOVE = Some Mission_AttackMove"
| "mission_of UNIT_ACTION_REPAIR = Some Mission_Capture"
| "mission_of UNIT_ACTION_STOP = Some Mission_Stop"
| "mission_of _ = None"

text \<open>The address of an object that can carry out an order.\<close>

definition orderable :: "schema \<Rightarrow> 'w StateContext \<Rightarrow> u32 \<Rightarrow> bool" where
  "orderable sm S k \<longleftrightarrow>
     (\<exists>v. fetchable S (is_live k) (objects (current_state S)) v \<and> \<not> is_illegal_mission sm (current_mission v))"

definition order_target :: "UnitOrder \<Rightarrow> u32" where
  "order_target u = (if uo_action u = UNIT_ACTION_STOP then 0 else uo_target_object u)"

definition order_cell :: "UnitOrder \<Rightarrow> u32 \<Rightarrow> u32" where
  "order_cell u cell =
     (if uo_action u \<in> {UNIT_ACTION_STOP, UNIT_ACTION_CAPTURE, UNIT_ACTION_REPAIR} then 0 else cell)"

definition order_effect :: "schema \<Rightarrow> 'w game_abi \<Rightarrow> UnitOrder \<Rightarrow> Mission \<Rightarrow> u32 \<Rightarrow> u32 \<Rightarrow> 'w \<Rightarrow> 'w" where
  "order_effect sm abi u m cell k w =
     fst (ga_ClickMission abi k (sm_mission sm m) (order_target u) (order_cell u cell) 0 w)"

lemma unit_action_mission:
  assumes "mission_of (uo_action u) = Some m" and "uo_coordinates u = Some c"
    and "get_map_cell abi c (sc_world S) = cell" and "cell \<noteq> 0" and "\<not> is_illegal_mission sm (current_mission v)"
  shows "unit_action sm abi \<lparr>o_order = u, src_object = Some v\<rparr> S =
           (S\<lparr>sc_world := order_effect sm abi u m cell (pointer_self v) (sc_world S)\<rparr>, Return ())"
  using assms
  by (cases "uo_action u")
    (simp_all add: unit_action_def check_mission_def requires_source_object_def ignore_def click_mission_def
      Let_def requires_target_object_def requires_target_cell_def target_coordinates_def coord_of_def p_obj_def
      order_effect_def order_target_def order_cell_def split: prod.splits)

lemma fetchable_cong:
  "sc_sv S1 = sc_sv S \<Longrightarrow> fetchable S1 P vs v = fetchable S P vs v"
  by (simp add: fetchable_def type_known_def)

lemma orderable_cong: "sc_sv S1 = sc_sv S \<Longrightarrow> orderable sm S1 k = orderable sm S k"
  using fetchable_cong [of S1 S] by (simp add: orderable_def current_state_def)

lemma unit_action_illegal:
  assumes "mission_of (uo_action u) = Some m" and "is_illegal_mission sm (current_mission v)"
  shows "\<exists>e. unit_action sm abi \<lparr>o_order = u, src_object = Some v\<rparr> S = (S, Raise e)"
  using assms by (cases "uo_action u")
    (simp_all add: unit_action_def check_mission_def requires_source_object_def)

lemma perform_each_mission:
  assumes "mission_of (uo_action u) = Some m" and "uo_coordinates u = Some c"
    and "\<forall>w. get_map_cell abi c w = cell" and "cell \<noteq> 0" and "cache_ok S"
  shows "\<exists>S' r. perform_each sm abi u ks S = (S', r) \<and> r \<noteq> Undefined \<and> sc_sv S' = sc_sv S
           \<and> sc_world S' = fold (order_effect sm abi u m cell) (takeWhile (orderable sm S) ks) (sc_world S)
           \<and> (r = Return () \<longleftrightarrow> list_all (orderable sm S) ks)"
  using assms(5)
proof (induction ks arbitrary: S)
  case Nil
  then show ?case by simp
next
  case (Cons k ks)
  let ?vs = "objects (current_state S)"
  from Cons.prems show ?case
  proof (cases rule: find_entry_cases [of S "is_live k" ?vs])
    case (1 S1 v tc)
    have self: "pointer_self v = k"
      using 1(3) by (auto simp: fetchable_def is_live_def dest: find_if_Some_D)
    have uniq: "v' = v" if "fetchable S (is_live k) ?vs v'" for v'
      using that 1(3) by (simp add: fetchable_def)
    show ?thesis
    proof (cases "is_illegal_mission sm (current_mission v)")
      case True
      then have "\<not> orderable sm S k" using uniq by (auto simp: orderable_def)
      moreover obtain e where "unit_action sm abi \<lparr>o_order = u, src_object = Some v\<rparr> S1 = (S1, Raise e)"
        using unit_action_illegal [OF assms(1) True] by blast
      ultimately show ?thesis using 1(1,2) by (simp add: get_object_entry_def looked_up_def)
    next
      case False
      let ?S2 = "S1\<lparr>sc_world := order_effect sm abi u m cell k (sc_world S)\<rparr>"
      have act: "unit_action sm abi \<lparr>o_order = u, src_object = Some v\<rparr> S1 = (?S2, Return ())"
        using unit_action_mission [OF assms(1,2) assms(3) [rule_format] assms(4) False] 1(2) self
        by (simp add: looked_up_def)
      have sv: "sc_sv ?S2 = sc_sv S" and ok: "cache_ok ?S2"
        using 1(2) by (auto simp: looked_up_def cache_ok_def)
      have "orderable sm S k" using 1(3) False by (auto simp: orderable_def)
      then show ?thesis
        using Cons.IH [OF ok] act 1(1) sv orderable_cong [OF sv, of sm]
        by (simp add: get_object_entry_def)
    qed
  next
    case (2 S1 e)
    then have "\<not> orderable sm S k" by (simp add: orderable_def)
    then show ?thesis using 2 by (simp add: get_object_entry_def looked_up_def)
  qed
qed

text \<open>C25: an order that gives a mission (move, capture, attack, attack-move, repair, stop) with
  coordinates in a valid cell is carried out, in the order of the addresses and once for each,
  for the longest prefix of objects that can carry it out: on the map, of a known type, and not
  idle or under construction. It succeeds exactly when all can; otherwise it ends with an exception
  and the objects behind the first bad one get nothing.\<close>

theorem unit_order_prefix:
  assumes "mission_of (uo_action u) = Some m" and "uo_coordinates u = Some c"
    and "\<forall>w. get_map_cell abi c w = cell" and "cell \<noteq> 0" and "cache_ok S"
  shows "\<exists>S' r. perform sm abi u S = (S', r) \<and> r \<noteq> Undefined \<and> sc_sv S' = sc_sv S
           \<and> sc_world S' = fold (order_effect sm abi u m cell)
                             (takeWhile (orderable sm S) (uo_object_addresses u)) (sc_world S)
           \<and> (r = Return () \<longleftrightarrow> list_all (orderable sm S) (uo_object_addresses u))"
proof -
  have "uo_action u \<noteq> UNIT_ACTION_SELL_CELL" using assms(1) by auto
  then show ?thesis using perform_each_mission [OF assms] by (simp add: perform_def)
qed

section \<open>Place queries\<close>

lemma place_query_cells_filter:
  "place_query_cells abi B H w cs r = r @ filter (\<lambda>c. 0 \<le> cell_X (coord_to_cell abi c)
     \<and> 0 \<le> cell_Y (coord_to_cell abi c) \<and> placeable abi B H w c) cs"
  by (induction cs arbitrary: r) (auto simp: Let_def)

text \<open>A place query for a known type and house returns, in the order of the request, exactly those
  of its first 1024 coordinates that lie on the map and pass both checks of the game; it changes
  neither the game nor the stored state.\<close>

lemma place_query_filters:
  assumes "cache_ok S" and "\<exists>t \<in> set (sc_types S). tc_pointer_self t = pq_type_class q"
    and "get_house_at (pq_house_class q) S = Some H"
  shows "\<exists>S' B. place_query abi q S = (S', Return (q\<lparr>pq_coordinates :=
             filter (\<lambda>c. 0 \<le> cell_X (coord_to_cell abi c) \<and> 0 \<le> cell_Y (coord_to_cell abi c)
                         \<and> placeable abi B H (sc_world S) c) (take 1024 (pq_coordinates q))\<rparr>))
           \<and> tc_pointer_self B = pq_type_class q \<and> sc_world S' = sc_world S \<and> sc_sv S' = sc_sv S"
proof -
  have t: "truncate_field PLACE_QUERY_MAX_LENGTH (pq_coordinates q)
             = Return (take 1024 (pq_coordinates q), 1024 < length (pq_coordinates q))"
    using truncate_field_Return [of 1024] by (simp add: PLACE_QUERY_MAX_LENGTH_def)
  from assms(1) show ?thesis
  proof (cases rule: get_type_class_cases [of S "pq_type_class q"])
    case (1 S1 B)
    then have "get_house_at (pq_house_class q) S1 = Some H"
      using assms(3) by (simp add: get_house_at_def get_house_def current_state_def looked_up_def)
    then show ?thesis
      using 1 t by (simp add: place_query_def place_query_cells_filter looked_up_def)
        (rule exI [of _ B], simp)
  next
    case 2
    then show ?thesis using assms(2) by blast
  qed
qed

section \<open>Placing buildings\<close>

lemma find_completed_Some:
  "find_completed ob fs S = Return (Some f) \<Longrightarrow>
     f \<in> set fs \<and> f_completed f \<and> f_object f = ob \<and> player_self S = Return (f_owner f)"
  by (induction fs) (auto split: if_splits)

lemma place_building_checked:
  assumes "place_building sm abi H T C S = (S', r)" and "sc_world S' \<noteq> sc_world S"
  shows "placeable abi T H (sc_world S) C \<and> fst (add_event sm abi (place_event sm H T C) 0 False True S) = S'"
  using assms by (auto simp: place_building_def placeable_def Let_def sbind_def split: if_splits prod.splits outcome.splits)

text \<open>C26: the command that places a building touches the game only if a completed factory of the
  current player holds that building, and the game's proximity and placement checks accept the
  cell for the type class of that building. What it then does to the game is to add the event that places this type
  class, for the current player and at these coordinates.\<close>

theorem place_building_guarded:
  assumes "cache_ok S" and "place_building_order sm abi building c S = (S', r)"
    and "sc_world S' \<noteq> sc_world S"
  shows "\<exists>f H ob T S1. f \<in> set (factories (current_state S)) \<and> f_completed f \<and> f_object f = building
           \<and> current_player S = Some H \<and> f_owner f = h_self H
           \<and> get_object building S = Return ob \<and> pointer_self ob = building
           \<and> find_if (\<lambda>t. tc_pointer_self t = pointer_technotypeclass ob) (sc_types S) = Some T
           \<and> placeable abi T H (sc_world S) c
           \<and> sc_sv S1 = sc_sv S \<and> sc_world S1 = sc_world S
           \<and> fst (add_event sm abi (place_event sm H T c) 0 False True S1) = S'"
proof (cases "get_object building S")
  case (Return ob)
  then have self: "pointer_self ob = building"
    by (auto simp: get_object_def find_object_def split: option.splits dest: find_if_Some_D)
  from assms(1) show ?thesis
  proof (cases rule: get_type_class_cases [of S "pointer_technotypeclass ob"])
    case (1 S1 T)
    have lk: "sc_sv S1 = sc_sv S" "sc_world S1 = sc_world S" using 1(2) by (simp_all add: looked_up_def)
    then have cs: "current_state S1 = current_state S" "current_player S1 = current_player S"
      by (simp_all add: current_state_def current_player_def get_house_def)
    show ?thesis
    proof (cases "find_completed building (factories (current_state S)) S1")
      case f: (Return f)
      show ?thesis
      proof (cases f)
        case None
        then show ?thesis
          using assms(2,3) Return 1 f self lk by (auto simp: place_building_order_def get_object_entry_at_def cs)
      next
        case (Some ft)
        note fs = find_completed_Some [OF f [unfolded Some]]
        then obtain H where H: "current_player S = Some H" "f_owner ft = h_self H"
          by (auto simp: player_self_def cs split: option.splits)
        then have "place_building sm abi H T c S1 = (S', r)"
          using assms(2) Return 1 f Some self by (simp add: place_building_order_def get_object_entry_at_def cs)
        from place_building_checked [OF this] have "placeable abi T H (sc_world S) c"
          "fst (add_event sm abi (place_event sm H T c) 0 False True S1) = S'"
          using assms(3) lk by simp_all
        moreover have "find_if (\<lambda>t. tc_pointer_self t = pointer_technotypeclass ob) (sc_types S) = Some T"
          using get_type_class_search(1) [OF assms(1), of "pointer_technotypeclass ob"] 1
          by (auto split: option.splits)
        ultimately show ?thesis using fs H lk self Return by blast
      qed
    qed (use assms(2,3) Return 1 self lk in \<open>auto simp: place_building_order_def get_object_entry_at_def cs\<close>)
  qed (use assms(2,3) Return in \<open>auto simp: place_building_order_def get_object_entry_at_def looked_up_def\<close>)
qed (use assms(2,3) in \<open>auto simp: place_building_order_def get_object_entry_at_def\<close>)

section \<open>The map in columns\<close>

definition soa_empty :: MapDataSoA where
  "soa_empty = \<lparr>soa_land_type = [], soa_radiation_level = [], soa_height = [], soa_level = [],
     soa_overlay_data = [], soa_tiberium_value = [], soa_shrouded = [], soa_passability = [],
     soa_map_width = 0, soa_map_height = 0\<rparr>"

lemma fold_soa_add:
  "fold soa_add cs d =
     d\<lparr>soa_land_type := soa_land_type d @ map c_land_type cs,
       soa_radiation_level := soa_radiation_level d @ map c_radiation_level cs,
       soa_height := soa_height d @ map c_height cs, soa_level := soa_level d @ map c_level cs,
       soa_overlay_data := soa_overlay_data d @ map c_overlay_data cs,
       soa_tiberium_value := soa_tiberium_value d @ map c_tiberium_value cs,
       soa_shrouded := soa_shrouded d @ map c_shrouded cs,
       soa_passability := soa_passability d @ map c_passability cs\<rparr>"
  by (induction cs arbitrary: d) (simp_all add: soa_add_def)

lemma convert_map_data_columns:
  "convert_map_data src soa_empty =
     \<lparr>soa_land_type = map c_land_type (md_cells src), soa_radiation_level = map c_radiation_level (md_cells src),
      soa_height = map c_height (md_cells src), soa_level = map c_level (md_cells src),
      soa_overlay_data = map c_overlay_data (md_cells src), soa_tiberium_value = map c_tiberium_value (md_cells src),
      soa_shrouded = map c_shrouded (md_cells src), soa_passability = map c_passability (md_cells src),
      soa_map_width = md_width src, soa_map_height = md_height src\<rparr>"
  by (simp add: convert_map_data_def fold_soa_add soa_empty_def)

text \<open>The reply of \<open>ReadValue\<close> has, in the requested field, the stored value; the map in columns has one entry per
  cell when the argument brought an empty one, and is appended to what it brought otherwise.\<close>

lemma read_value_copies:
  assumes "rf_ListFields R A = f # fs" and "rf_name R f \<noteq> ''map_data_soa''"
    and "\<And>v m. rf_GetMessage R (rf_set R f v m) f = v"
  shows "\<exists>D. read_value R get_soa set_soa get_map A sv = Return D \<and> rf_GetMessage R D f = rf_GetMessage R sv f"
  using assms by (simp add: read_value_def find_set_fields_def copy_field_def)

lemma read_value_map:
  assumes "rf_ListFields R A = f # fs" and "rf_name R f = ''map_data_soa''" and "\<And>v m. get_soa (set_soa v m) = v"
  shows "\<exists>D. read_value R get_soa set_soa get_map A sv = Return D
    \<and> soa_height (get_soa D) = soa_height (get_soa A) @ map c_height (md_cells (get_map sv))
    \<and> soa_map_width (get_soa D) = md_width (get_map sv)"
  using assms by (simp add: read_value_def find_set_fields_def convert_map_data_def fold_soa_add)

section \<open>Examples\<close>

definition demo_order :: UnitOrder where
  "demo_order = \<lparr>uo_object_addresses = [0x100, 0x200, 0x300], uo_action = UNIT_ACTION_ATTACK,
     uo_target_object = 0x900, uo_coordinates = Some \<lparr>co_x = 512, co_y = 256, co_z = 0\<rparr>\<rparr>"

lemma demo_objects: "objects (current_state (demo_sc es)) = [demo_object 0x100 0x10, demo_object 0x200 0x20]"
  by (simp add: current_state_def demo_sc_def demo_sv_def demo_state_simps)

lemma demo_cache_ok: "cache_ok (demo_sc es)"
  by (simp add: cache_ok_def demo_sc_def)

lemma demo_object_simps [simp]:
  "pointer_self (demo_object p t) = p" "pointer_technotypeclass (demo_object p t) = t"
  "\<not> in_limbo (demo_object p t)" "current_mission (demo_object p t) = 5"
  "tc_pointer_self (demo_type q i) = q"
  by (simp_all add: demo_object_def demo_type_def Object_default_def ObjectTypeClass_default_def)

lemma demo_legal: "\<not> is_illegal_mission demo_schema 5"
  by (simp add: is_illegal_mission_def demo_schema_def)

lemma demo_orderable:
  "orderable demo_schema (demo_sc es) 0x100" "orderable demo_schema (demo_sc es) 0x200"
  "\<not> orderable demo_schema (demo_sc es) 0x300"
  by (auto simp: orderable_def fetchable_def demo_objects is_live_def type_known_def demo_types demo_legal)

theorem unit_order_prefix_witness:
  "\<exists>S' e. perform demo_schema demo_abi demo_order (demo_sc []) = (S', Raise e)
     \<and> sc_world S' = [demo_event EV_MEGAMISSION 1, demo_event EV_MEGAMISSION 1]"
proof -
  have cell: "\<forall>w. get_map_cell demo_abi \<lparr>co_x = 512, co_y = 256, co_z = 0\<rparr> w = 0x700"
    by (simp add: get_map_cell_def coord_to_cell_def demo_abi_def)
  have m: "mission_of (uo_action demo_order) = Some Mission_Attack"
    and c: "uo_coordinates demo_order = Some \<lparr>co_x = 512, co_y = 256, co_z = 0\<rparr>"
    and ks: "uo_object_addresses demo_order = [0x100, 0x200, 0x300]"
    by (simp_all add: demo_order_def)
  have eff: "order_effect demo_schema demo_abi demo_order Mission_Attack 0x700 k w = w @ [demo_event EV_MEGAMISSION 1]"
    for k w by (simp add: order_effect_def demo_abi_def demo_schema_def)
  obtain S' r where run: "perform demo_schema demo_abi demo_order (demo_sc []) = (S', r)" "r \<noteq> Undefined"
    "sc_world S' = [demo_event EV_MEGAMISSION 1, demo_event EV_MEGAMISSION 1]" "r \<noteq> Return ()"
    using unit_order_prefix [OF m c cell _ demo_cache_ok [of "[]"], of demo_schema]
    by (auto simp: ks demo_orderable eff)
  then show ?thesis by (cases r) auto
qed

definition demo_query :: PlaceQuery where
  "demo_query = \<lparr>pq_type_class = 0x10, pq_house_class = 0x500,
     pq_coordinates = [\<lparr>co_x = 512, co_y = 0, co_z = 0\<rparr>, \<lparr>co_x = -512, co_y = 0, co_z = 0\<rparr>, \<lparr>co_x = 51200, co_y = 0, co_z = 0\<rparr>]\<rparr>"

lemma demo_get_house: "get_house_at 0x500 (demo_sc es) = Some demo_house"
  by (simp add: get_house_at_def get_house_def current_state_def demo_sc_defs)

lemma demo_placeable: "placeable demo_abi B H w c \<longleftrightarrow> co_x c div 256 < 100"
  by (simp add: placeable_def Passes_Proximity_Check_def coord_to_cell_def demo_abi_def Let_def)

text \<open>Placing the building that the second object of the example is.\<close>

definition demo_cached :: "EventClass list StateContext" where
  "demo_cached = (demo_sc [])\<lparr>sc_tc_cache := [(0x10, 0), (0x20, 1)]\<rparr>"

lemma demo_entry:
  "get_object_entry_at 0x200 (demo_sc []) = (demo_cached, Return (demo_object 0x200 0x20, demo_type 0x20 1))"
proof -
  have "get_object 0x200 (demo_sc []) = Return (demo_object 0x200 0x20)"
    unfolding get_object_def find_object_def demo_objects by simp
  moreover have "tc_cache (demo_sc []) = demo_cached"
    unfolding tc_cache_def demo_types by (simp add: demo_cached_def) (simp add: demo_sc_def)
  moreover have "sc_types demo_cached = [demo_type 0x10 0, demo_type 0x20 1]"
    using demo_types [of "[]"] by (simp add: demo_cached_def)
  moreover have "sc_tc_cache demo_cached = [(0x10, 0), (0x20, 1)]"
    by (simp add: demo_cached_def)
  ultimately show ?thesis
    by (simp add: get_object_entry_at_def get_type_class_def Let_def)
qed

lemma demo_place_event:
  "\<exists>E x. add_event demo_schema demo_abi (place_event demo_schema demo_house T c) 0 False True demo_cached
           = (demo_cached\<lparr>sc_world := [E]\<rparr>, Return x)"
proof -
  let ?ev = "place_event demo_schema demo_house T c"
  have w: "sc_world demo_cached = []" by (simp add: demo_cached_def)
  have "event_house demo_abi [] ?ev False = Return 3" by (simp add: event_house_def demo_abi_def)
  then have "\<exists>E. build_event demo_schema demo_abi ?ev 0 False demo_cached = Return E"
    by (simp add: build_event_def w demo_frame event_payload_def place_event_def Event_default_def)
  then obtain E where E: "build_event demo_schema demo_abi ?ev 0 False demo_cached = Return E" by blast
  moreover obtain x where "convert_event (gl_OutList (ga_lists demo_abi [E])) (sm_event_size demo_schema)
       (nat (and (ec_tail (gl_OutList (ga_lists demo_abi [E])) - 1) 127)) = Return x"
    using demo_convert by blast
  ultimately have "add_event demo_schema demo_abi ?ev 0 False True demo_cached = (demo_cached\<lparr>sc_world := [E]\<rparr>, Return x)"
    by (simp add: add_event_def demo_check_empty [OF w] w Let_def)
  then show ?thesis by blast
qed

lemma demo_place_order:
  "\<exists>E S'. place_building_order demo_schema demo_abi 0x200 \<lparr>co_x = 512, co_y = 256, co_z = 0\<rparr> (demo_sc [])
            = (S', Return ()) \<and> sc_world S' = [E]"
proof -
  let ?c = "\<lparr>co_x = 512, co_y = 256, co_z = 0\<rparr> :: Coordinates"
  have pl: "current_player demo_cached = Some demo_house" "h_self demo_house = 0x500"
    "factories (current_state demo_cached) = [Factory_default\<lparr>f_object := 0x200, f_owner := 0x500, f_completed := True\<rparr>]"
    by (simp_all add: current_player_def get_house_def current_state_def demo_cached_def demo_sc_defs)
  obtain E x where "add_event demo_schema demo_abi (place_event demo_schema demo_house (demo_type 0x20 1) ?c) 0 False True demo_cached
           = (demo_cached\<lparr>sc_world := [E]\<rparr>, Return x)"
    using demo_place_event by blast
  moreover have "placeable demo_abi (demo_type 0x20 1) demo_house (sc_world demo_cached) ?c"
    by (simp add: demo_placeable)
  ultimately have "place_building demo_schema demo_abi demo_house (demo_type 0x20 1) ?c demo_cached
      = (demo_cached\<lparr>sc_world := [E]\<rparr>, Return ())"
    by (simp add: place_building_def placeable_def Let_def)
  then show ?thesis
    by (simp add: place_building_order_def demo_entry pl player_self_def Factory_default_def)
qed

theorem place_building_guarded_witness:
  "\<exists>f H ob T. f \<in> set (factories (current_state (demo_sc []))) \<and> f_completed f \<and> f_object f = 0x200
     \<and> current_player (demo_sc []) = Some H \<and> f_owner f = h_self H
     \<and> get_object 0x200 (demo_sc []) = Return ob
     \<and> find_if (\<lambda>t. tc_pointer_self t = pointer_technotypeclass ob) (sc_types (demo_sc [])) = Some T
     \<and> placeable demo_abi T H (sc_world (demo_sc [])) \<lparr>co_x = 512, co_y = 256, co_z = 0\<rparr>"
proof -
  obtain E S' where r: "place_building_order demo_schema demo_abi 0x200 \<lparr>co_x = 512, co_y = 256, co_z = 0\<rparr> (demo_sc [])
       = (S', Return ())" and w: "sc_world S' = [E]"
    using demo_place_order by blast
  have "sc_world S' \<noteq> sc_world (demo_sc [])" using w by simp
  from place_building_guarded [OF demo_cache_ok r this] show ?thesis
    by blast
qed

end
