(* ===== verification/X86_Code.thy ===== *)
theory X86_Code
  imports Prelude
begin

unbundle bit_operations_syntax

text \<open>
  The machine code that the program generates: \<^verbatim>\<open>src/src/x86.cpp\<close> (register saving, constants on
  the stack). The instructions are the ones the generators emit, on a memory of bytes and the
  register file \<open>X86Regs\<close>. A call runs a parameter, the effect of the callee including its
  own \<open>ret\<close>. How an instruction is encoded is the business of the assembler library.
\<close>

section \<open>Memory\<close>

type_synonym mem = "u32 \<Rightarrow> u8"

definition store_bytes :: "mem \<Rightarrow> u32 \<Rightarrow> vecu8 \<Rightarrow> mem" where
  "store_bytes m a bs = (\<lambda>x. if unat (x - a) < length bs then bs ! unat (x - a) else m x)"

definition load_bytes :: "mem \<Rightarrow> u32 \<Rightarrow> nat \<Rightarrow> vecu8" where
  "load_bytes m a n = map (\<lambda>i. m (a + of_nat i)) [0..<n]"

definition le32 :: "u32 \<Rightarrow> vecu8" where
  "le32 w = [ucast w, ucast (drop_bit 8 w), ucast (drop_bit 16 w), ucast (drop_bit 24 w)]"

definition of_le32 :: "u8 \<Rightarrow> u8 \<Rightarrow> u8 \<Rightarrow> u8 \<Rightarrow> u32" where
  "of_le32 b0 b1 b2 b3 =
     ucast b0 OR push_bit 8 (ucast b1) OR push_bit 16 (ucast b2) OR push_bit 24 (ucast b3)"

definition write32 :: "mem \<Rightarrow> u32 \<Rightarrow> u32 \<Rightarrow> mem" where
  "write32 m a w = store_bytes m a (le32 w)"

definition read32 :: "mem \<Rightarrow> u32 \<Rightarrow> u32" where
  "read32 m a = of_le32 (m a) (m (a + 1)) (m (a + 2)) (m (a + 3))"

lemma length_le32 [simp]: "length (le32 w) = 4"
  by (simp add: le32_def)

lemma of_le32_le32:
  "of_le32 (ucast w) (ucast (drop_bit 8 w)) (ucast (drop_bit 16 w)) (ucast (drop_bit 24 w)) = w"
proof (rule bit_word_eqI)
  fix n
  assume "n < LENGTH(32)"
  then consider "n < 8" | "8 \<le> n" "n < 16" | "16 \<le> n" "n < 24" | "24 \<le> n" "n < 32" by fastforce
  then show "bit (of_le32 (ucast w) (ucast (drop_bit 8 w)) (ucast (drop_bit 16 w)) (ucast (drop_bit 24 w))) n
      = bit w n"
    by cases (auto simp: of_le32_def bit_simps)
qed

lemma read32_write32 [simp]: "read32 (write32 m a w) a = w"
  by (simp add: read32_def write32_def store_bytes_def le32_def of_le32_le32)

lemma store_bytes_other: "length bs \<le> unat (x - a) \<Longrightarrow> store_bytes m a bs x = m x"
  by (simp add: store_bytes_def)

lemma unat_of_nat32: "n < 2 ^ 32 \<Longrightarrow> unat (of_nat n :: u32) = n"
  by (simp add: unat_of_nat)

text \<open>Two dwords that do not overlap.\<close>

lemma read32_write32_other:
  assumes "4 \<le> unat (b - a)" and "unat (b - a) \<le> 2 ^ 32 - 4"
  shows "read32 (write32 m a w) b = read32 m b"
proof -
  have off: "4 \<le> unat (b + of_nat k - a)" if "k < 4" for k
  proof -
    have eq: "b + of_nat k - a = (b - a) + of_nat k" by simp
    have "unat (of_nat k :: u32) = k" using that by (simp add: unat_of_nat)
    moreover have "unat ((b - a) + of_nat k) = unat (b - a) + k"
      using assms that by (subst unat_add_lem [THEN iffD1]) (simp_all add: unat_of_nat)
    ultimately show ?thesis unfolding eq using assms by simp
  qed
  have "write32 m a w (b + of_nat k) = m (b + of_nat k)" if "k < 4" for k
    unfolding write32_def by (rule store_bytes_other) (use off [OF that] in simp)
  from this [of 0] this [of 1] this [of 2] this [of 3] show ?thesis
    by (simp add: read32_def)
qed

lemma load_store_bytes:
  assumes "length bs \<le> 2 ^ 32"
  shows "load_bytes (store_bytes m a bs) a (length bs) = bs"
  using assms by (intro nth_equalityI) (auto simp: load_bytes_def store_bytes_def unat_of_nat)

section \<open>Instructions\<close>

datatype reg32 = EDI | ESI | EBP | ESP | EBX | EDX | ECX | EAX

fun get_reg :: "reg32 \<Rightarrow> X86Regs \<Rightarrow> u32" where
  "get_reg EDI r = edi r" | "get_reg ESI r = esi r" | "get_reg EBP r = ebp r"
| "get_reg ESP r = esp r" | "get_reg EBX r = ebx r" | "get_reg EDX r = edx r"
| "get_reg ECX r = ecx r" | "get_reg EAX r = eax r"

fun set_reg :: "reg32 \<Rightarrow> u32 \<Rightarrow> X86Regs \<Rightarrow> X86Regs" where
  "set_reg EDI v r = r\<lparr>edi := v\<rparr>" | "set_reg ESI v r = r\<lparr>esi := v\<rparr>" | "set_reg EBP v r = r\<lparr>ebp := v\<rparr>"
| "set_reg ESP v r = r\<lparr>esp := v\<rparr>" | "set_reg EBX v r = r\<lparr>ebx := v\<rparr>" | "set_reg EDX v r = r\<lparr>edx := v\<rparr>"
| "set_reg ECX v r = r\<lparr>ecx := v\<rparr>" | "set_reg EAX v r = r\<lparr>eax := v\<rparr>"

record cpu =
  regs :: X86Regs
  ram :: mem
  eip :: u32

text \<open>The instructions of the generators. Flags are only kept as a whole; arithmetic
  instructions set them to a parameter \<open>flag_of\<close> of the result.\<close>

datatype instr =
    PUSH u32
  | PUSH_R reg32
  | POP_R reg32
  | PUSHAD
  | PUSHFD
  | POPFD
  | POPAD
  | MOV_RI reg32 u32
  | MOV_RM reg32 reg32 u32      \<comment> \<open>destination, base register, displacement\<close>
  | MOV_MR reg32 u32 reg32      \<comment> \<open>base register, displacement, source\<close>
  | MOV_RR reg32 reg32
  | MOV_RA reg32 u32            \<comment> \<open>destination, absolute address\<close>
  | LEA reg32 reg32 u32         \<comment> \<open>destination, base register, displacement\<close>
  | ADD_RM reg32 reg32 u32      \<comment> \<open>destination, base register, displacement\<close>
  | ADD_I reg32 u32
  | SUB_I reg32 u32
  | SUB_RR reg32 reg32
  | INC_M u32
  | CALL_R reg32
  | REP_MOVSB
  | RET

definition push32 :: "u32 \<Rightarrow> cpu \<Rightarrow> cpu" where
  "push32 v s = s\<lparr>ram := write32 (ram s) (esp (regs s) - 4) v, regs := (regs s)\<lparr>esp := esp (regs s) - 4\<rparr>\<rparr>"

definition top32 :: "cpu \<Rightarrow> u32" where
  "top32 s = read32 (ram s) (esp (regs s))"

definition drop32 :: "cpu \<Rightarrow> cpu" where
  "drop32 s = s\<lparr>regs := (regs s)\<lparr>esp := esp (regs s) + 4\<rparr>\<rparr>"

definition pop_reg :: "reg32 \<Rightarrow> cpu \<Rightarrow> cpu" where
  "pop_reg r s = (drop32 s)\<lparr>regs := set_reg r (top32 s) (regs (drop32 s))\<rparr>"

text \<open>\<open>pushad\<close> pushes the value \<open>esp\<close> had before; \<open>popad\<close> discards the saved \<open>esp\<close>.\<close>

definition pushad :: "cpu \<Rightarrow> cpu" where
  "pushad s =
     (let r = regs s
      in push32 (edi r) (push32 (esi r) (push32 (ebp r) (push32 (esp r)
           (push32 (ebx r) (push32 (edx r) (push32 (ecx r) (push32 (eax r) s))))))))"

definition popad :: "cpu \<Rightarrow> cpu" where
  "popad s =
     pop_reg EAX (pop_reg ECX (pop_reg EDX (pop_reg EBX (drop32
       (pop_reg EBP (pop_reg ESI (pop_reg EDI s)))))))"

definition pushfd :: "cpu \<Rightarrow> cpu" where
  "pushfd s = push32 (eflags (regs s)) s"

definition popfd :: "cpu \<Rightarrow> cpu" where
  "popfd s = (drop32 s)\<lparr>regs := (regs (drop32 s))\<lparr>eflags := top32 s\<rparr>\<rparr>"

definition set_flags :: "(u32 \<Rightarrow> u32) \<Rightarrow> u32 \<Rightarrow> cpu \<Rightarrow> cpu" where
  "set_flags flag_of v s = s\<lparr>regs := (regs s)\<lparr>eflags := flag_of v\<rparr>\<rparr>"

fun exec1 :: "(u32 \<Rightarrow> u32) \<Rightarrow> u32 \<Rightarrow> (u32 \<Rightarrow> cpu \<Rightarrow> cpu) \<Rightarrow> instr \<Rightarrow> cpu \<Rightarrow> cpu" where
  "exec1 flag_of ra callee (PUSH v) s = push32 v s"
| "exec1 flag_of ra callee (PUSH_R r) s = push32 (get_reg r (regs s)) s"
| "exec1 flag_of ra callee (POP_R r) s = pop_reg r s"
| "exec1 flag_of ra callee PUSHAD s = pushad s"
| "exec1 flag_of ra callee PUSHFD s = pushfd s"
| "exec1 flag_of ra callee POPFD s = popfd s"
| "exec1 flag_of ra callee POPAD s = popad s"
| "exec1 flag_of ra callee (MOV_RI r v) s = s\<lparr>regs := set_reg r v (regs s)\<rparr>"
| "exec1 flag_of ra callee (MOV_RM r b d) s =
     s\<lparr>regs := set_reg r (read32 (ram s) (get_reg b (regs s) + d)) (regs s)\<rparr>"
| "exec1 flag_of ra callee (MOV_MR b d r) s =
     s\<lparr>ram := write32 (ram s) (get_reg b (regs s) + d) (get_reg r (regs s))\<rparr>"
| "exec1 flag_of ra callee (MOV_RR r b) s = s\<lparr>regs := set_reg r (get_reg b (regs s)) (regs s)\<rparr>"
| "exec1 flag_of ra callee (MOV_RA r a) s = s\<lparr>regs := set_reg r (read32 (ram s) a) (regs s)\<rparr>"
| "exec1 flag_of ra callee (LEA r b d) s = s\<lparr>regs := set_reg r (get_reg b (regs s) + d) (regs s)\<rparr>"
| "exec1 flag_of ra callee (ADD_RM r b d) s =
     (let x = get_reg r (regs s) + read32 (ram s) (get_reg b (regs s) + d)
      in set_flags flag_of x (s\<lparr>regs := set_reg r x (regs s)\<rparr>))"
| "exec1 flag_of ra callee (ADD_I r v) s =
     (let x = get_reg r (regs s) + v in set_flags flag_of x (s\<lparr>regs := set_reg r x (regs s)\<rparr>))"
| "exec1 flag_of ra callee (SUB_I r v) s =
     (let x = get_reg r (regs s) - v in set_flags flag_of x (s\<lparr>regs := set_reg r x (regs s)\<rparr>))"
| "exec1 flag_of ra callee (SUB_RR r b) s =
     (let x = get_reg r (regs s) - get_reg b (regs s)
      in set_flags flag_of x (s\<lparr>regs := set_reg r x (regs s)\<rparr>))"
| "exec1 flag_of ra callee (INC_M a) s =
     (let x = read32 (ram s) a + 1 in set_flags flag_of x (s\<lparr>ram := write32 (ram s) a x\<rparr>))"
| "exec1 flag_of ra callee (CALL_R r) s =
     callee (get_reg r (regs s)) ((push32 ra s)\<lparr>eip := get_reg r (regs s)\<rparr>)"
| "exec1 flag_of ra callee REP_MOVSB s =
     (let n = ecx (regs s)
      in s\<lparr>ram := store_bytes (ram s) (edi (regs s)) (load_bytes (ram s) (esi (regs s)) (unat n)),
           regs := (regs s)\<lparr>esi := esi (regs s) + n, edi := edi (regs s) + n, ecx := 0\<rparr>\<rparr>)"
| "exec1 flag_of ra callee RET s = (drop32 s)\<lparr>eip := top32 s\<rparr>"

fun exec :: "(u32 \<Rightarrow> u32) \<Rightarrow> u32 \<Rightarrow> (u32 \<Rightarrow> cpu \<Rightarrow> cpu) \<Rightarrow> instr list \<Rightarrow> cpu \<Rightarrow> cpu" where
  "exec flag_of ra callee [] s = s"
| "exec flag_of ra callee (i # is) s = exec flag_of ra callee is (exec1 flag_of ra callee i s)"

lemma exec_append [simp]:
  "exec flag_of ra callee (is @ js) s = exec flag_of ra callee js (exec flag_of ra callee is s)"
  by (induction "is" arbitrary: s) simp_all

section \<open>Saving registers (x86.cpp)\<close>

definition save_regs :: "instr list" where
  "save_regs = [PUSHAD, PUSHFD]"

definition restore_regs :: "instr list" where
  "restore_regs = [POPFD, POPAD]"

text \<open>The structure \<open>X86Regs\<close> at an address of memory.\<close>

definition regs_at :: "mem \<Rightarrow> u32 \<Rightarrow> X86Regs" where
  "regs_at m a =
     \<lparr>eflags = read32 m a, edi = read32 m (a + 4), esi = read32 m (a + 8), ebp = read32 m (a + 12),
      esp = read32 m (a + 16), ebx = read32 m (a + 20), edx = read32 m (a + 24),
      ecx = read32 m (a + 28), eax = read32 m (a + 32)\<rparr>"

section \<open>Constants on the stack (bytes_to_stack)\<close>

text \<open>The bytes in groups of four, the last one padded with zeros, each read as a dword.\<close>

fun dword_of :: "vecu8 \<Rightarrow> u32" where
  "dword_of [] = 0"
| "dword_of [a] = of_le32 a 0 0 0"
| "dword_of [a, b] = of_le32 a b 0 0"
| "dword_of [a, b, c] = of_le32 a b c 0"
| "dword_of (a # b # c # d # _) = of_le32 a b c d"

fun chunks4 :: "vecu8 \<Rightarrow> u32 list" where
  "chunks4 [] = []"
| "chunks4 (b # bs) = dword_of (take 4 (b # bs)) # chunks4 (drop 4 (b # bs))"

text \<open>The instructions and the number of bytes pushed.\<close>

definition bytes_to_stack :: "vecu8 \<Rightarrow> instr list \<times> nat" where
  "bytes_to_stack bytes = (map PUSH (rev (chunks4 bytes)), 4 * length (chunks4 bytes))"

section \<open>Lemmas\<close>

lemma pushad_eq:
  "pushad s = s\<lparr>regs := (regs s)\<lparr>esp := esp (regs s) - 32\<rparr>,
     ram := (let r = regs s; e = esp (regs s) in
       write32 (write32 (write32 (write32 (write32 (write32 (write32 (write32 (ram s)
         (e - 4) (eax r)) (e - 8) (ecx r)) (e - 12) (edx r)) (e - 16) (ebx r)) (e - 20) e)
         (e - 24) (ebp r)) (e - 28) (esi r)) (e - 32) (edi r))\<rparr>"
  by (simp add: pushad_def push32_def Let_def diff_diff_eq)

lemma popad_eq:
  "popad s = s\<lparr>regs := (let e = esp (regs s); m = ram s in (regs s)\<lparr>edi := read32 m e,
     esi := read32 m (e + 4), ebp := read32 m (e + 8), ebx := read32 m (e + 16),
     edx := read32 m (e + 20), ecx := read32 m (e + 24), eax := read32 m (e + 28), esp := e + 32\<rparr>)\<rparr>"
  by (simp add: popad_def pop_reg_def drop32_def top32_def Let_def add.assoc)

text \<open>What the code between \<open>save_regs\<close> and \<open>restore_regs\<close> sees at the top of the stack.\<close>

lemma write32_far:
  fixes x a c :: u32
  assumes "n \<le> unat (x - a)" and "unat c + 4 \<le> n"
  shows "write32 m (a + c) w x = m x"
proof -
  have eq: "x - (a + c) = (x - a) - c" by simp
  have "c \<le> x - a" using assms by (simp add: word_le_nat_alt)
  then have "unat ((x - a) - c) = unat (x - a) - unat c" by (rule unat_sub)
  then have "4 \<le> unat (x - (a + c))" unfolding eq using assms by simp
  then show ?thesis unfolding write32_def by (intro store_bytes_other) simp
qed

lemma save_regs_state:
  fixes s :: cpu and flag_of ra callee
  defines "t \<equiv> exec flag_of ra callee save_regs s"
  shows "regs_at (ram t) (esp (regs t)) = regs s" and "esp (regs t) = esp (regs s) - 36"
    and "regs t = (regs s)\<lparr>esp := esp (regs s) - 36\<rparr>" and "eip t = eip s"
    and "\<And>x. 36 \<le> unat (x - (esp (regs s) - 36)) \<Longrightarrow> ram t x = ram s x"
proof -
  show e: "esp (regs t) = esp (regs s) - 36"
    by (simp add: t_def save_regs_def pushfd_def push32_def pushad_eq Let_def diff_diff_eq)
  show "regs t = (regs s)\<lparr>esp := esp (regs s) - 36\<rparr>" "eip t = eip s"
    by (simp_all add: t_def save_regs_def pushfd_def push32_def pushad_eq Let_def diff_diff_eq)
  show "regs_at (ram t) (esp (regs t)) = regs s"
    unfolding e
    by (simp add: t_def save_regs_def pushfd_def push32_def pushad_eq Let_def diff_diff_eq regs_at_def
        read32_write32_other)
  show "ram t x = ram s x" if "36 \<le> unat (x - (esp (regs s) - 36))" for x
  proof -
    let ?b = "esp (regs s) - 36"
    have far: "write32 m (esp (regs s) - k) w x = m x" if "unat (36 - k) \<le> 32" for m k w
      using write32_far [OF \<open>36 \<le> unat (x - ?b)\<close>, of "36 - k" m w] that by simp
    show ?thesis
      by (simp add: t_def save_regs_def pushfd_def push32_def pushad_eq Let_def diff_diff_eq far)
  qed
qed

lemma restore_regs_state:
  "exec flag_of ra callee restore_regs t =
     t\<lparr>regs := (regs_at (ram t) (esp (regs t)))\<lparr>esp := esp (regs t) + 36\<rparr>\<rparr>"
  by (simp add: restore_regs_def popfd_def popad_eq drop32_def top32_def regs_at_def Let_def add.assoc)

lemma le32_of_le32: "le32 (of_le32 a b c d) = [a, b, c, d]"
proof -
  have "ucast (of_le32 a b c d) = a"
    by (rule bit_word_eqI) (auto simp: of_le32_def bit_simps)
  moreover have "ucast (drop_bit 8 (of_le32 a b c d)) = b"
    by (rule bit_word_eqI) (auto simp: of_le32_def bit_simps dest: bit_imp_le_length)
  moreover have "ucast (drop_bit 16 (of_le32 a b c d)) = c"
    by (rule bit_word_eqI) (auto simp: of_le32_def bit_simps dest: bit_imp_le_length)
  moreover have "ucast (drop_bit 24 (of_le32 a b c d)) = d"
    by (rule bit_word_eqI) (auto simp: of_le32_def bit_simps dest: bit_imp_le_length)
  ultimately show ?thesis by (simp add: le32_def)
qed

text \<open>The memory image of the chunks: the bytes and fewer than four zeros.\<close>

definition zero_pad :: "vecu8 \<Rightarrow> vecu8" where
  "zero_pad bs = bs @ replicate ((4 - length bs mod 4) mod 4) 0"

lemma dword_of_bytes:
  "length bs \<le> 4 \<Longrightarrow> le32 (dword_of bs) = bs @ replicate (4 - length bs) 0"
proof -
  have "le32 0 = [0, 0, 0, 0]" by (simp add: le32_def)
  then show "length bs \<le> 4 \<Longrightarrow> le32 (dword_of bs) = bs @ replicate (4 - length bs) 0"
    by (cases bs rule: dword_of.cases) (auto simp: le32_of_le32 numeral_eq_Suc)
qed

lemma concat_chunks4: "concat (map le32 (chunks4 bs)) = zero_pad bs"
proof (induction bs rule: chunks4.induct)
  case 1
  then show ?case by (simp add: zero_pad_def)
next
  case (2 b bs)
  show ?case
  proof (cases "length (b # bs) \<le> 4")
    case True
    then have "drop 4 (b # bs) = []" "take 4 (b # bs) = b # bs" by simp_all
    moreover have "(4 - length (b # bs) mod 4) mod 4 = 4 - length (b # bs)"
      using True by (cases "length (b # bs) = 4") auto
    ultimately show ?thesis
      using dword_of_bytes [OF True] by (simp add: zero_pad_def)
  next
    case False
    have "le32 (dword_of (take 4 (b # bs))) = take 4 (b # bs)"
      using False by (subst dword_of_bytes) simp_all
    moreover have "length (drop 4 (b # bs)) mod 4 = length (b # bs) mod 4"
      using False mod_add_self2 [of "length (drop 4 (b # bs))" 4] by simp
    ultimately show ?thesis
      using 2 append_take_drop_id [of 4 "b # bs"] by (simp add: zero_pad_def)
  qed
qed

lemma load_store_append:
  assumes "length bs + n \<le> 2 ^ 32"
  shows "load_bytes (store_bytes m a bs) a (length bs + n) =
    bs @ load_bytes m (a + of_nat (length bs)) n"
proof (rule nth_equalityI)
  fix i
  assume "i < length (load_bytes (store_bytes m a bs) a (length bs + n))"
  then have i: "i < length bs + n" by (simp add: load_bytes_def)
  then have u: "unat (of_nat i :: u32) = i" using assms by (simp add: unat_of_nat)
  have "of_nat (length bs) + of_nat (i - length bs) = (of_nat i :: u32)" if "length bs \<le> i"
    using that by (simp add: of_nat_diff)
  then show "load_bytes (store_bytes m a bs) a (length bs + n) ! i =
      (bs @ load_bytes m (a + of_nat (length bs)) n) ! i"
    using i by (auto simp: load_bytes_def store_bytes_def u nth_append add.assoc)
qed (simp add: load_bytes_def)

lemma exec_pushes:
  "4 * length ds \<le> 2 ^ 32 \<Longrightarrow>
   (let t = exec flag_of ra callee (map PUSH (rev ds)) s
    in esp (regs t) = esp (regs s) - of_nat (4 * length ds)
       \<and> load_bytes (ram t) (esp (regs t)) (4 * length ds) = concat (map le32 ds))"
proof (induction ds)
  case Nil
  then show ?case by (simp add: load_bytes_def)
next
  case (Cons d ds)
  let ?t = "exec flag_of ra callee (map PUSH (rev ds)) s"
  from Cons have IH: "esp (regs ?t) = esp (regs s) - of_nat (4 * length ds)"
    "load_bytes (ram ?t) (esp (regs ?t)) (4 * length ds) = concat (map le32 ds)"
    by (auto simp: Let_def)
  have "load_bytes (write32 (ram ?t) (esp (regs ?t) - 4) d) (esp (regs ?t) - 4) (length (le32 d) + 4 * length ds)
      = le32 d @ load_bytes (ram ?t) (esp (regs ?t) - 4 + of_nat (length (le32 d))) (4 * length ds)"
    unfolding write32_def using Cons.prems by (intro load_store_append) simp
  with IH show ?case by (simp add: push32_def)
qed

lemma length_load_bytes [simp]: "length (load_bytes m a n) = n"
  by (simp add: load_bytes_def)

lemma take_load_bytes: "k \<le> n \<Longrightarrow> take k (load_bytes m a n) = load_bytes m a k"
  by (simp add: load_bytes_def take_map)

text \<open>The code generated for a constant pushes it so that the bytes lie at the stack
  pointer in their order, padded with zeros to a multiple of four; the returned size is what
  the stack pointer moved by, so adding it to \<open>esp\<close> releases the constant.\<close>

lemma bytes_to_stack_state:
  assumes "length bytes < 2 ^ 32 - 4" and "bytes_to_stack bytes = (code, size_pushed)"
  shows "esp (regs (exec flag_of ra callee code s)) = esp (regs s) - of_nat size_pushed
    \<and> load_bytes (ram (exec flag_of ra callee code s)) (esp (regs (exec flag_of ra callee code s)))
        size_pushed = zero_pad bytes
    \<and> take (length bytes) (zero_pad bytes) = bytes \<and> size_pushed < length bytes + 4"
proof -
  have "length (concat (map le32 ds)) = 4 * length ds" for ds
    by (induction ds) simp_all
  from this [of "chunks4 bytes"] have len: "4 * length (chunks4 bytes) = length (zero_pad bytes)"
    by (simp add: concat_chunks4)
  then have lt: "4 * length (chunks4 bytes) < length bytes + 4"
    by (simp add: zero_pad_def)
  with assms(1) have "4 * length (chunks4 bytes) \<le> 2 ^ 32" by simp
  from exec_pushes [OF this, of flag_of ra callee s] assms(2) lt show ?thesis
    by (auto simp: bytes_to_stack_def Let_def concat_chunks4 zero_pad_def)
qed

end
