(* ===== verification/Hook.thy ===== *)
theory Hook
  imports X86_Code
begin

text \<open>
  \<^verbatim>\<open>src/src/hook.{hpp,cpp}\<close>: detours into game code and the callbacks they run.

  \<^item> the code of a detour (\<open>DetourMain\<close>) and of the jump to it (\<open>DetourTrampoline\<close>);
  \<^item> installing and removing a hook, as changes of the memory of the process. Whether the
    operating system permits a write is a parameter \<open>can_write\<close>; what the assembler emits for
    the body of a detour is a parameter \<open>asm\<close>;
  \<^item> waiting for threads to leave a region: the observations of the loop are a list of
    snapshots of the threads, and the loop is still waiting (\<open>None\<close>) when none is clear;
  \<^item> the list of callbacks and the loop that runs them. The functions of callbacks are
    values of a type \<open>'f\<close> with an interpreter.
\<close>

section \<open>Detour code\<close>

definition DetourMain :: "u32 \<Rightarrow> u32 \<Rightarrow> u32 \<Rightarrow> u32 \<Rightarrow> u32 \<Rightarrow> u32 \<Rightarrow> instr list" where
  "DetourMain target hook code_length call_hook count_enter count_exit =
     save_regs
     @ [PUSH hook, MOV_RI EAX call_hook, INC_M count_enter, CALL_R EAX, INC_M count_exit, ADD_I ESP 4]
     @ restore_regs
     @ [PUSH (target + code_length), RET]"

text \<open>\<open>push\<close> and \<open>ret\<close> are \<open>OP_PUSH\<close> with a dword and \<open>OP_RET\<close>. The length of the padding is
  an unsigned difference: for a region shorter than the jump it wraps around, and the
  assembler runs out of its buffer of \<open>max_code\<close> bytes.\<close>

definition OP_PUSH :: u8 where "OP_PUSH = 0x68"

definition OP_RET :: u8 where "OP_RET = 0xC3"

definition OP_NOP :: u8 where "OP_NOP = 0x90"

definition DetourTrampoline :: "nat \<Rightarrow> u32 \<Rightarrow> u32 \<Rightarrow> vecu8 outcome" where
  "DetourTrampoline max_code target code_length =
     (let jump = OP_PUSH # le32 target @ [OP_RET];
          pad_length = code_length - of_nat (length jump);
          code = jump @ replicate (unat pad_length) OP_NOP
      in if length jump + unat pad_length > max_code then Raise (runtime_error ''code is too big'')
         else Return code)"

section \<open>Threads at a region\<close>

record thread_info =
  tid :: u32
  teip :: u32

definition num_threads_at_tgt :: "u32 \<Rightarrow> thread_info list \<Rightarrow> u32 \<Rightarrow> u32 \<Rightarrow> nat" where
  "num_threads_at_tgt main_tid threads target len =
     length (filter (\<lambda>ip. ip \<ge> target \<and> ip < target + len)
       (map teip (filter (\<lambda>T. tid T \<noteq> main_tid) threads)))"

fun wait_clear :: "u32 \<Rightarrow> u32 \<Rightarrow> u32 \<Rightarrow> thread_info list list \<Rightarrow> thread_info list list option" where
  "wait_clear main_tid target len [] = None"
| "wait_clear main_tid target len (snap # rest) =
     (if num_threads_at_tgt main_tid snap target len > 0
      then wait_clear main_tid target len rest
      else Some rest)"

section \<open>Patching\<close>

definition patch_code :: "(u32 \<Rightarrow> nat \<Rightarrow> bool) \<Rightarrow> u32 \<Rightarrow> vecu8 \<Rightarrow> mem \<Rightarrow> mem outcome" where
  "patch_code can_write target bytes m =
     (if can_write target (length bytes) then Return (store_bytes m target bytes)
      else Raise (system_error (\<lambda>_. []) ''WriteProcesMemory'' 0))"

definition patch_code_safe ::
  "(u32 \<Rightarrow> nat \<Rightarrow> bool) \<Rightarrow> u32 \<Rightarrow> thread_info list list \<Rightarrow> u32 \<Rightarrow> vecu8 \<Rightarrow> mem
     \<Rightarrow> (mem \<times> thread_info list list) outcome option"
where
  "patch_code_safe can_write main_tid snaps target bytes m =
     (case wait_clear main_tid target (of_nat (length bytes)) snaps of
        None \<Rightarrow> None
      | Some rest \<Rightarrow> Some (obind (patch_code can_write target bytes m) (\<lambda>m'. Return (m', rest))))"

section \<open>Hooks\<close>

record Detour =
  src_address :: u32
  detour_address :: u32
  code_length :: u32

record 'f HookCallback =
  cb_func :: 'f
  cb_calls :: u32
  cb_max_calls :: u32
  cb_name :: string

record 'f hook =
  hk_detour :: Detour
  hk_name :: string
  callbacks :: "'f HookCallback list"
  dm_code :: u32
  no_suspend :: "u32 list"
  count_enter :: u32
  count_exit :: u32
  manual :: bool

text \<open>The constructor. \<open>p\<close> is the address of the code buffer of \<open>dm_\<close>.\<close>

definition Hook_new ::
  "(u32 \<Rightarrow> nat \<Rightarrow> bool) \<Rightarrow> nat \<Rightarrow> vecu8 \<Rightarrow> u32 \<Rightarrow> u32 \<Rightarrow> thread_info list list
     \<Rightarrow> u32 \<Rightarrow> u32 \<Rightarrow> string \<Rightarrow> u32 list \<Rightarrow> bool \<Rightarrow> mem \<Rightarrow> (mem \<times> 'f hook) outcome option"
where
  "Hook_new can_write max_code asm main_tid p snaps src len name ns man m =
     (let h = \<lparr>hk_detour = \<lparr>src_address = src, detour_address = 0, code_length = len\<rparr>, hk_name = name,
               callbacks = [], dm_code = p, no_suspend = ns, count_enter = 0, count_exit = 0, manual = man\<rparr>;
          m1 = store_bytes m p (replicate (unat len) OP_NOP @ asm)
      in case patch_code can_write p (load_bytes m1 src (unat len)) m1 of
           Raise e \<Rightarrow> Some (Raise e)
         | Undefined \<Rightarrow> Some Undefined
         | Return m2 \<Rightarrow>
             (case DetourTrampoline max_code p len of
                Raise e \<Rightarrow> Some (Raise e)
              | Undefined \<Rightarrow> Some Undefined
              | Return f \<Rightarrow>
                  (if man then Some (obind (patch_code can_write src f m2) (\<lambda>m3. Return (m3, h)))
                   else map_option (\<lambda>r. obind r (\<lambda>(m3, _). Return (m3, h)))
                          (patch_code_safe can_write main_tid snaps src f m2))))"

text \<open>The destructor: it restores the code from the copy in the detour, then waits until no
  thread is in the copied instructions and the counters agree. \<open>counts\<close> are the counters
  observed with each snapshot.\<close>

fun wait_exited ::
  "u32 \<Rightarrow> u32 \<Rightarrow> u32 \<Rightarrow> (thread_info list \<times> u32 \<times> u32) list \<Rightarrow> bool"
where
  "wait_exited main_tid p len [] = False"
| "wait_exited main_tid p len ((snap, enter, exit) # rest) =
     (if num_threads_at_tgt main_tid snap p len > 0 \<or> enter \<noteq> exit
      then wait_exited main_tid p len rest
      else True)"

definition Hook_delete ::
  "(u32 \<Rightarrow> nat \<Rightarrow> bool) \<Rightarrow> u32 \<Rightarrow> thread_info list list \<Rightarrow> (thread_info list \<times> u32 \<times> u32) list
     \<Rightarrow> 'f hook \<Rightarrow> mem \<Rightarrow> mem outcome option"
where
  "Hook_delete can_write main_tid snaps obs h m =
     (let d = hk_detour h; p = dm_code h; len = code_length d
      in case patch_code_safe can_write main_tid snaps (src_address d) (load_bytes m p (unat len)) m of
           None \<Rightarrow> None
         | Some r \<Rightarrow>
             (if wait_exited main_tid p len obs then Some (obind r (\<lambda>(m', _). Return m')) else None))"

section \<open>Callbacks\<close>

definition add_callback :: "'f HookCallback \<Rightarrow> 'f hook \<Rightarrow> 'f hook" where
  "add_callback c h = h\<lparr>callbacks := callbacks h @ [c]\<rparr>"

definition add_callback_fn :: "'f \<Rightarrow> string \<Rightarrow> u32 \<Rightarrow> 'f hook \<Rightarrow> 'f hook" where
  "add_callback_fn f name max_calls h =
     add_callback \<lparr>cb_func = f, cb_calls = 0, cb_max_calls = max_calls, cb_name = name\<rparr> h"

definition remove_callback :: "string \<Rightarrow> 'f hook \<Rightarrow> 'f hook outcome" where
  "remove_callback name h =
     (case find_if (\<lambda>c. cb_name c = name) (callbacks h) of
        None \<Rightarrow> Raise (general_error ''remove_callback'')
      | Some _ \<Rightarrow> Return (h\<lparr>callbacks := erase_first (\<lambda>c. cb_name c = name) (callbacks h)\<rparr>))"

text \<open>The interpreter of callback functions: it changes the world and the registers, which the
  detour restores afterwards, and may throw.\<close>

type_synonym ('f, 'w) cb_interp = "'f \<Rightarrow> 'w \<Rightarrow> X86Regs \<Rightarrow> 'w \<times> X86Regs \<times> exn option"

definition called :: "'f HookCallback \<Rightarrow> 'f HookCallback" where
  "called c = c\<lparr>cb_calls := cb_calls c + 1\<rparr>"

definition expired :: "'f HookCallback \<Rightarrow> bool" where
  "expired c \<longleftrightarrow> cb_max_calls c > 0 \<and> cb_calls c \<ge> cb_max_calls c"

text \<open>The loop of \<open>Hook::call\<close> with its two counters; erasing an element moves the next one to
  its place. The result is the vector, the world and the registers, or what a callback threw
  (then the mutex stays locked).\<close>

definition erase_at :: "nat \<Rightarrow> 'a list \<Rightarrow> 'a list" where
  "erase_at i xs = take i xs @ drop (Suc i) xs"

function hook_loop ::
  "('f, 'w) cb_interp \<Rightarrow> nat \<Rightarrow> nat \<Rightarrow> 'f HookCallback list \<Rightarrow> 'w \<Rightarrow> X86Regs
     \<Rightarrow> 'f HookCallback list \<times> 'w \<times> X86Regs \<times> exn option"
where
  "hook_loop call i off C w st =
     (if i < length C
      then (let ix = i - off in
            case call (cb_func (C ! ix)) w st of
              (w1, st1, Some e) \<Rightarrow> (C, w1, st1, Some e)
            | (w1, st1, None) \<Rightarrow>
                (let c = called (C ! ix)
                 in if expired c then hook_loop call (Suc i) (Suc off) (erase_at ix C) w1 st1
                    else hook_loop call (Suc i) off (C[ix := c]) w1 st1))
      else (C, w, st, None))"
  by pat_completeness auto
termination
  by (relation "measure (\<lambda>(call, i, off, C, w, st). length C - i)") (auto simp: erase_at_def)

declare hook_loop.simps [simp del]

definition Hook_call ::
  "('f, 'w) cb_interp \<Rightarrow> 'f hook \<Rightarrow> 'w \<Rightarrow> X86Regs \<Rightarrow> 'f hook \<times> 'w \<times> X86Regs \<times> exn option"
where
  "Hook_call call h w st =
     (case hook_loop call 0 0 (callbacks h) w st of
        (C, w', st', e) \<Rightarrow> (h\<lparr>callbacks := C\<rparr>, w', st', e))"

text \<open>\<open>Callback::call\<close>: \<open>cpu_state\<close> is set during \<open>do_call\<close>, and stays set when that throws.\<close>

definition Callback_call ::
  "(X86Regs option \<Rightarrow> 'w \<Rightarrow> X86Regs option \<times> 'w \<times> exn option) \<Rightarrow> X86Regs \<Rightarrow> 'w
     \<Rightarrow> X86Regs option \<times> 'w \<times> exn option"
where
  "Callback_call do_call state w =
     (case do_call (Some state) w of
        (st, w', None) \<Rightarrow> (None, w', None)
      | (st, w', Some e) \<Rightarrow> (st, w', Some e))"

text \<open>What the loop computes, by recursion over the callbacks: \<open>off\<close> callbacks have expired so
  far; the loop stops when that many callbacks remain.\<close>

fun hook_spec ::
  "('f, 'w) cb_interp \<Rightarrow> nat \<Rightarrow> 'f HookCallback list \<Rightarrow> 'w \<Rightarrow> X86Regs
     \<Rightarrow> 'f HookCallback list \<times> 'w \<times> X86Regs \<times> exn option"
where
  "hook_spec call off [] w st = ([], w, st, None)"
| "hook_spec call off (c # cs) w st =
     (if length cs < off then (c # cs, w, st, None)
      else case call (cb_func c) w st of
             (w1, st1, Some e) \<Rightarrow> (c # cs, w1, st1, Some e)
           | (w1, st1, None) \<Rightarrow>
               (if expired (called c) then hook_spec call (Suc off) cs w1 st1
                else (case hook_spec call off cs w1 st1 of
                        (cs', r) \<Rightarrow> (called c # cs', r))))"

section \<open>The callback loop\<close>

lemma hook_loop_spec:
  "hook_loop call (length kept + off) off (kept @ rest) w st =
     (case hook_spec call off rest w st of (cs, r) \<Rightarrow> (kept @ cs, r))"
proof (induction call off rest w st arbitrary: kept rule: hook_spec.induct)
  case (1 call off w st)
  then show ?case by (subst hook_loop.simps) simp
next
  case (2 call off c cs w st)
  show ?case
  proof (cases "length cs < off")
    case True
    then show ?thesis by (subst hook_loop.simps) simp
  next
    case False
    obtain w1 st1 e where r: "call (cb_func c) w st = (w1, st1, e)" by (metis prod_cases3)
    show ?thesis
    proof (cases e)
      case (Some x)
      then show ?thesis using False r by (subst hook_loop.simps) simp
    next
      case None
      have era: "erase_at (length kept) (kept @ c # cs) = kept @ cs"
        by (simp add: erase_at_def)
      have upd: "(kept @ c # cs)[length kept := called c] = kept @ called c # cs"
        by simp
      show ?thesis
      proof (cases "expired (called c)")
        case True
        then show ?thesis
          using 2(1) [OF False r [symmetric] refl None True, of kept] False r None
          by (subst hook_loop.simps) (simp add: Let_def era)
      next
        case notexp: False
        then show ?thesis
          using 2(2) [OF False r [symmetric] refl None notexp, of "kept @ [called c]"] False r None
          by (subst hook_loop.simps) (simp add: Let_def upd split: prod.splits)
      qed
    qed
  qed
qed

lemma Hook_call_spec:
  "Hook_call call h w st =
     (case hook_spec call 0 (callbacks h) w st of (C, w', st', e) \<Rightarrow> (h\<lparr>callbacks := C\<rparr>, w', st', e))"
  using hook_loop_spec [of call "[]" 0 "callbacks h" w st]
  by (simp add: Hook_call_def split: prod.splits)

text \<open>Running functions one after the other.\<close>

fun run_funcs :: "('f, 'w) cb_interp \<Rightarrow> 'f list \<Rightarrow> 'w \<Rightarrow> X86Regs \<Rightarrow> 'w \<times> X86Regs" where
  "run_funcs call [] w st = (w, st)"
| "run_funcs call (f # fs) w st = (case call f w st of (w1, st1, _) \<Rightarrow> run_funcs call fs w1 st1)"

lemma hook_spec_all:
  assumes quiet: "\<And>f w st. snd (snd (call f w st)) = None"
    and "\<forall>c \<in> set (butlast C). \<not> expired (called c)"
  shows "hook_spec call 0 C w st =
    (case run_funcs call (map cb_func C) w st of
       (w', st') \<Rightarrow> (filter (\<lambda>c. \<not> expired c) (map called C), w', st', None))"
  using assms(2)
proof (induction C arbitrary: w st)
  case Nil
  then show ?case by simp
next
  case (Cons c cs)
  obtain w1 st1 where r: "call (cb_func c) w st = (w1, st1, None)"
    using quiet [of "cb_func c" w st] by (metis prod.collapse)
  show ?case
  proof (cases cs)
    case Nil
    then show ?thesis using r by simp
  next
    case (Cons d ds)
    then have "\<not> expired (called c)" "\<forall>c \<in> set (butlast cs). \<not> expired (called c)"
      using Cons.prems by simp_all
    then show ?thesis using Cons.IH [of w1 st1] r by (simp split: prod.splits)
  qed
qed

text \<open>C21: A call of a hook runs every registered callback exactly once, in order, each with the
  world and registers its predecessors left, counts the calls and removes the callbacks that
  have reached their maximal number of calls, provided that no callback other than the last
  expires in this call and none throws.\<close>

theorem Hook_call_runs_all:
  assumes "\<And>f w st. snd (snd (call f w st)) = None"
    and "\<forall>c \<in> set (butlast (callbacks h)). \<not> expired (called c)"
  shows "Hook_call call h w st =
    (case run_funcs call (map cb_func (callbacks h)) w st of
       (w', st') \<Rightarrow> (h\<lparr>callbacks := filter (\<lambda>c. \<not> expired c) (map called (callbacks h))\<rparr>, w', st', None))"
  using hook_spec_all [of call "callbacks h" w st, OF assms]
  by (simp add: Hook_call_spec split: prod.splits)

text \<open>An interpreter that records which callbacks run.\<close>

definition recording :: "(string, string list) cb_interp" where
  "recording f w st = (w @ [f], st, None)"

definition demo_cb :: "string \<Rightarrow> u32 \<Rightarrow> string HookCallback" where
  "demo_cb f n = \<lparr>cb_func = f, cb_calls = 0, cb_max_calls = n, cb_name = f\<rparr>"

definition demo_hook :: "string HookCallback list \<Rightarrow> string hook" where
  "demo_hook C =
     \<lparr>hk_detour = \<lparr>src_address = 0, detour_address = 0, code_length = 6\<rparr>, hk_name = ''h'', callbacks = C,
      dm_code = 0, no_suspend = [], count_enter = 0, count_exit = 0, manual = True\<rparr>"

definition demo_regs :: X86Regs where
  "demo_regs = \<lparr>eflags = 0, edi = 1, esi = 2, ebp = 3, esp = 0x1000, ebx = 4, edx = 5, ecx = 6, eax = 7\<rparr>"

theorem Hook_call_runs_all_witness:
  "\<exists>h'. Hook_call recording (demo_hook [demo_cb ''a'' 0, demo_cb ''b'' 2, demo_cb ''c'' 1]) [] demo_regs =
     (h', [''a'', ''b'', ''c''], demo_regs, None) \<and> length (callbacks h') = 2"
proof -
  let ?h = "demo_hook [demo_cb ''a'' 0, demo_cb ''b'' 2, demo_cb ''c'' 1]"
  have "\<And>f w st. snd (snd (recording f w st)) = None" by (simp add: recording_def)
  moreover have "\<forall>c \<in> set (butlast (callbacks ?h)). \<not> expired (called c)" by code_simp
  ultimately show ?thesis
    using Hook_call_runs_all [of recording ?h "[]" demo_regs]
    by (simp add: recording_def demo_hook_def demo_cb_def called_def expired_def)
qed

lemma hook_spec_drop_last:
  assumes "\<forall>c \<in> set ys. \<not> expired (called c)"
  shows "hook_spec recording 1 (ys @ [z]) w st = (map called ys @ [z], w @ map cb_func ys, st, None)"
  using assms by (induction ys arbitrary: w) (auto simp: recording_def)

lemma hook_spec_one_expires:
  assumes "\<forall>c \<in> set xs. \<not> expired (called c)" and "expired (called y)"
    and "\<forall>c \<in> set ys. \<not> expired (called c)"
  shows "hook_spec recording 0 (xs @ y # ys @ [z]) w st =
    (map called xs @ map called ys @ [z], w @ map cb_func (xs @ y # ys), st, None)"
  using assms
proof (induction xs arbitrary: w)
  case Nil
  have "recording (cb_func y) w st = (w @ [cb_func y], st, None)" by (simp add: recording_def)
  then show ?case using hook_spec_drop_last [of ys z "w @ [cb_func y]" st] Nil by simp
next
  case (Cons x xs)
  then show ?case by (simp add: recording_def)
qed

text \<open>When a callback before the last one expires during a call of the hook, the last
  registered callback is not invoked in that call: the loop compares its counter with the
  length of the vector that it has just shortened. (The comment in the header promises that
  all registered functions are invoked.)\<close>

lemma Hook_call_skips_last:
  assumes "callbacks h = xs @ y # ys @ [z]" and "expired (called y)"
    and "\<forall>c \<in> set (xs @ ys). \<not> expired (called c)"
  shows "Hook_call recording h w st =
    (h\<lparr>callbacks := map called (xs @ ys) @ [z]\<rparr>, w @ map cb_func (xs @ y # ys), st, None)"
  using hook_spec_one_expires [of xs y ys z w st] assms by (simp add: Hook_call_spec)

section \<open>The detour\<close>

text \<open>A dword outside the stack area that the detour uses.\<close>

definition off_stack :: "u32 \<Rightarrow> u32 \<Rightarrow> bool" where
  "off_stack sp a \<longleftrightarrow> 44 \<le> unat (a - (sp - 44)) \<and> unat (a - (sp - 44)) \<le> 2 ^ 32 - 4"

lemma read32_off_stack:
  assumes "off_stack sp a" and "unat k \<le> 40"
  shows "read32 (write32 m a v) (sp - 44 + k) = read32 m (sp - 44 + k)"
proof (rule read32_write32_other)
  let ?d = "a - (sp - 44)"
  have eq: "sp - 44 + k - a = - (?d - k)" by simp
  have "k \<le> ?d" using assms by (simp add: off_stack_def word_le_nat_alt)
  then have u: "unat (?d - k) = unat ?d - unat k" by (rule unat_sub)
  have nz: "?d - k \<noteq> 0" using u assms by (auto simp: off_stack_def)
  have "unat (- (?d - k)) = 2 ^ 32 - unat (?d - k)"
    using nz unat_sub_if' [of 0 "?d - k"] by (simp add: unat_eq_zero)
  then show "4 \<le> unat (sp - 44 + k - a)" "unat (sp - 44 + k - a) \<le> 2 ^ 32 - 4"
    unfolding eq u using assms by (auto simp: off_stack_def)
qed

lemma regs_at_off_stack:
  assumes "off_stack sp a"
  shows "regs_at (write32 m a v) (sp - 36) = regs_at m (sp - 36)"
proof -
  have "read32 (write32 m a v) (sp - 36 + k) = read32 m (sp - 36 + k)" if "unat (8 + k) \<le> 40" for k
  proof -
    have "sp - 44 + (8 + k) = sp - 36 + k" by simp
    with read32_off_stack [OF assms that, of m v] show ?thesis by metis
  qed
  from this [of 0] this [of 4] this [of 8] this [of 12] this [of 16] this [of 20] this [of 24]
    this [of 28] this [of 32] show ?thesis by (simp add: regs_at_def)
qed

lemma regs_at_push:
  "regs_at (write32 m (a - 4) v) a = regs_at m a" "regs_at (write32 m (a - 8) v) a = regs_at m a"
  by (simp_all add: regs_at_def read32_write32_other)

text \<open>C5: The detour is transparent. Let the game reach the detour in state \<open>s\<close>, and let
  \<open>Hook::call\<close> be a function of the C calling convention that, called with the hook and the
  saved registers, returns to the detour having changed the saved registers by \<open>f\<close>. Then
  \<open>Hook::call\<close> is called with the hook and exactly the registers of \<open>s\<close>, and afterwards the
  game continues behind the replaced instructions with the registers \<open>f\<close> left (the stack
  pointer apart, which is that of \<open>s\<close>): with unchanged registers if the callbacks change
  none, and with the changes of the callbacks otherwise.\<close>

theorem detour_transparent:
  fixes s :: cpu
  assumes enter: "off_stack (esp (regs s)) n_enter" and exit: "off_stack (esp (regs s)) n_exit"
    and call: "\<And>t. top32 t = ra \<Longrightarrow> read32 (ram t) (esp (regs t) + 4) = hook \<Longrightarrow>
        regs_at (ram t) (esp (regs t) + 8) = regs s \<Longrightarrow> eip t = call_hook \<Longrightarrow>
        esp (regs (callee call_hook t)) = esp (regs t) + 4
        \<and> regs_at (ram (callee call_hook t)) (esp (regs t) + 8) = f (regs s)"
  shows "let t = exec flag_of ra callee (DetourMain target hook len call_hook n_enter n_exit) s
    in eip t = target + len \<and> regs t = (f (regs s))\<lparr>esp := esp (regs s)\<rparr>"
proof -
  let ?e = "esp (regs s)"
  let ?s1 = "exec flag_of ra callee save_regs s"
  note s1 = save_regs_state [where flag_of = flag_of and ra = ra and callee = callee and s = s]
  let ?m2 = "write32 (ram ?s1) (?e - 40) hook"
  let ?m3 = "write32 ?m2 n_enter (read32 ?m2 n_enter + 1)"
  let ?m4 = "write32 ?m3 (?e - 44) ra"
  obtain t4 where t4: "t4 = exec1 flag_of ra (\<lambda>_ t. t) (CALL_R EAX)
      (exec flag_of ra callee [PUSH hook, MOV_RI EAX call_hook, INC_M n_enter] ?s1)" by blast
  have t4_esp: "esp (regs t4) = ?e - 44" "eip t4 = call_hook" "ram t4 = ?m4"
    by (simp_all add: t4 push32_def set_flags_def Let_def s1(3))
  have top: "top32 t4 = ra" by (simp add: top32_def t4_esp)
  have hk: "read32 ?m4 (?e - 40) = hook"
    using read32_off_stack [OF enter, of 4 ?m2] by (simp add: read32_write32_other)
  have rg: "regs_at ?m4 (?e - 36) = regs s"
    using regs_at_push(2) [of ?m3 "?e - 36" ra] regs_at_push(1) [of "ram ?s1" "?e - 36" hook]
      regs_at_off_stack [OF enter, of ?m2] s1(1,2) by (simp add: diff_diff_eq)
  let ?t5 = "callee call_hook t4"
  from call [OF top _ _ t4_esp(2)] hk rg have t5: "esp (regs ?t5) = ?e - 40"
    "regs_at (ram ?t5) (?e - 36) = f (regs s)"
    by (simp_all add: t4_esp)
  let ?m6 = "write32 (ram ?t5) n_exit (read32 (ram ?t5) n_exit + 1)"
  have m6: "regs_at ?m6 (?e - 36) = f (regs s)"
    using regs_at_off_stack [OF exit] t5(2) by simp
  let ?t6 = "exec flag_of ra callee [INC_M n_exit, ADD_I ESP 4] ?t5"
  have t6: "esp (regs ?t6) = ?e - 36" "ram ?t6 = ?m6"
    by (simp_all add: set_flags_def Let_def t5)
  have t7: "exec flag_of ra callee restore_regs ?t6 = ?t6\<lparr>regs := (f (regs s))\<lparr>esp := ?e\<rparr>\<rparr>"
    using restore_regs_state [of flag_of ra callee ?t6] m6 by (simp only: t6) simp
  have pre: "exec flag_of ra callee [PUSH hook, MOV_RI EAX call_hook, INC_M n_enter, CALL_R EAX] ?s1 = ?t5"
    by (simp add: t4 push32_def set_flags_def Let_def)
  have "DetourMain target hook len call_hook n_enter n_exit = save_regs
      @ [PUSH hook, MOV_RI EAX call_hook, INC_M n_enter, CALL_R EAX] @ [INC_M n_exit, ADD_I ESP 4]
      @ restore_regs @ [PUSH (target + len), RET]"
    by (simp add: DetourMain_def)
  then have "exec flag_of ra callee (DetourMain target hook len call_hook n_enter n_exit) s =
      exec flag_of ra callee [PUSH (target + len), RET] (exec flag_of ra callee restore_regs ?t6)"
    by (simp only: exec_append pre)
  then show ?thesis
    unfolding t7 by (simp add: push32_def drop32_def top32_def Let_def)
qed

text \<open>A callee that returns and sets \<open>eax\<close> of the saved registers to 42.\<close>

definition demo_callee :: "u32 \<Rightarrow> cpu \<Rightarrow> cpu" where
  "demo_callee a t = (drop32 t)\<lparr>ram := write32 (ram t) (esp (regs t) + 40) 42, eip := top32 t\<rparr>"

theorem detour_transparent_witness:
  "let s = \<lparr>regs = demo_regs, ram = (\<lambda>_. 0), eip = 0\<rparr>;
       t = exec (\<lambda>x. x) 9 demo_callee (DetourMain 0x400000 0x77 6 0x5000 0x2000 0x2004) s
   in eip t = 0x400006 \<and> regs t = demo_regs\<lparr>eax := 42\<rparr>"
proof -
  let ?s = "\<lparr>regs = demo_regs, ram = (\<lambda>_. 0), eip = 0\<rparr> :: cpu"
  have e: "off_stack (esp (regs ?s)) 0x2000" "off_stack (esp (regs ?s)) 0x2004"
    by (simp_all add: off_stack_def demo_regs_def)
  have c: "esp (regs (demo_callee 0x5000 t)) = esp (regs t) + 4
      \<and> regs_at (ram (demo_callee 0x5000 t)) (esp (regs t) + 8) = (regs ?s)\<lparr>eax := 42\<rparr>"
    if "regs_at (ram t) (esp (regs t) + 8) = regs ?s" for t
    using that by (auto simp: demo_callee_def drop32_def regs_at_def read32_write32_other add.assoc demo_regs_def)
  show ?thesis
    using detour_transparent [OF e, where ra = 9 and hook = "0x77" and call_hook = "0x5000"
        and callee = demo_callee and f = "\<lambda>r. r\<lparr>eax := 42\<rparr>" and flag_of = "\<lambda>x. x"
        and target = "0x400000" and len = 6] c
    by (simp add: Let_def demo_regs_def)
qed

section \<open>Installing and removing a hook\<close>

definition apart :: "u32 \<Rightarrow> nat \<Rightarrow> u32 \<Rightarrow> nat \<Rightarrow> bool" where
  "apart a n b k \<longleftrightarrow> (\<forall>i \<in> set [0..<n]. k \<le> unat (a + of_nat i - b))"

lemma load_apart: "apart a n b (length bs) \<Longrightarrow> load_bytes (store_bytes m b bs) a n = load_bytes m a n"
  by (auto simp: load_bytes_def store_bytes_def apart_def dest: leD)

lemma store_load_bytes: "n \<le> 2 ^ 32 \<Longrightarrow> store_bytes m a (load_bytes m a n) = m"
  by (auto simp: store_bytes_def load_bytes_def fun_eq_iff)

lemma store_store_bytes:
  "length bs = length cs \<Longrightarrow> store_bytes (store_bytes m a bs) a cs = store_bytes m a cs"
  by (auto simp: store_bytes_def fun_eq_iff)

lemma DetourTrampoline_bytes:
  assumes "6 \<le> unat len" and "unat len \<le> max_code"
  shows "\<exists>f. DetourTrampoline max_code p len = Return f \<and> length f = unat len
    \<and> take 6 f = OP_PUSH # le32 p @ [OP_RET]"
proof -
  have "unat (len - 6) = unat len - 6"
    using assms by (subst unat_sub) (simp_all add: word_le_nat_alt)
  then show ?thesis using assms by (simp add: DetourTrampoline_def Let_def)
qed

text \<open>C15: Installing a hook puts a jump to the detour at the target and keeps the replaced code
  at the start of the detour; removing the hook restores the memory of the process exactly
  as it was, everywhere outside the buffer of the detour.\<close>

theorem hook_install_remove:
  assumes can: "\<And>a n. can_write a n" and len: "6 \<le> unat len" "unat len \<le> max_code"
    and sep: "apart src (unat len) p (unat len + length asm)" "apart p (unat len) src (unat len)"
    and clear: "num_threads_at_tgt main snap src len = 0" "num_threads_at_tgt main snap' p len = 0"
  shows "\<exists>m1 h m2. Hook_new can_write max_code asm main p snaps src len name ns True m = Some (Return (m1, h))
    \<and> load_bytes m1 src 6 = OP_PUSH # le32 p @ [OP_RET]
    \<and> load_bytes m1 p (unat len) = load_bytes m src (unat len)
    \<and> Hook_delete can_write main [snap] [(snap', 5, 5)] h m1 = Some (Return m2)
    \<and> (\<forall>x. unat len + length asm \<le> unat (x - p) \<longrightarrow> m2 x = m x)"
proof -
  let ?n = "unat len"
  have n32: "?n < 2 ^ 32" using unsigned_less [of len] by simp
  let ?mb = "store_bytes m p (replicate ?n OP_NOP @ asm)" and ?orig = "load_bytes m src ?n"
  have o: "load_bytes ?mb src ?n = ?orig" using sep(1) by (intro load_apart) simp
  let ?m2 = "store_bytes ?mb p ?orig"
  obtain f where f: "DetourTrampoline max_code p len = Return f" "length f = ?n"
    "take 6 f = OP_PUSH # le32 p @ [OP_RET]" using DetourTrampoline_bytes [OF len] by blast
  let ?m3 = "store_bytes ?m2 src f"
  let ?h = "\<lparr>hk_detour = \<lparr>src_address = src, detour_address = 0, code_length = len\<rparr>, hk_name = name,
    callbacks = [], dm_code = p, no_suspend = ns, count_enter = 0, count_exit = 0, manual = True\<rparr>"
  have new: "Hook_new can_write max_code asm main p snaps src len name ns True m = Some (Return (?m3, ?h))"
    by (simp add: Hook_new_def patch_code_def can o f Let_def)
  have "load_bytes ?m3 src ?n = f" using load_store_bytes [of f ?m2 src] f(2) n32 by simp
  moreover have "load_bytes ?m3 src 6 = take 6 (load_bytes ?m3 src ?n)"
    using len(1) by (simp add: load_bytes_def take_map)
  ultimately have jump: "load_bytes ?m3 src 6 = OP_PUSH # le32 p @ [OP_RET]" using f(3) by simp
  have copy: "load_bytes ?m3 p ?n = ?orig"
    using load_apart [of p ?n src f ?m2] load_store_bytes [of ?orig ?mb p] sep(2) f(2) n32 by simp
  let ?m4 = "store_bytes ?m3 src ?orig"
  have del: "Hook_delete can_write main [snap] [(snap', 5, 5)] ?h ?m3 = Some (Return ?m4)"
    using clear by (simp add: Hook_delete_def patch_code_safe_def patch_code_def can copy Let_def)
  have "?m4 x = m x" if "?n + length asm \<le> unat (x - p)" for x
    using that f(2) by (auto simp: store_bytes_def load_bytes_def)
  with new jump copy del show ?thesis by blast
qed

theorem hook_install_remove_witness:
  "\<exists>m1 h m2. Hook_new (\<lambda>_ _. True) 4096 [1, 2] 1 0x9000 [] 0x4000 8 ''hook'' [] True (\<lambda>x. ucast x) =
      Some (Return (m1, h)) \<and> load_bytes m1 0x4000 6 = [0x68, 0, 0x90, 0, 0, 0xC3]
    \<and> Hook_delete (\<lambda>_ _. True) 1 [[]] [([\<lparr>tid = 1, teip = 0x9000\<rparr>], 5, 5)] h m1 = Some (Return m2)
    \<and> (\<forall>x. 10 \<le> unat (x - 0x9000) \<longrightarrow> m2 x = ucast x)"
proof -
  have "apart 0x4000 8 0x9000 (8 + length [1, 2 :: u8])" "apart 0x9000 8 0x4000 8"
    by (simp_all add: apart_def upt_conv_Cons del: set_upt)
  moreover have "le32 0x9000 = [0, 0x90, 0, 0]" by code_simp
  ultimately show ?thesis
    using hook_install_remove [of "\<lambda>_ _. True" 8 4096 "0x4000" "0x9000" "[1, 2]" 1 "[]" "[\<lparr>tid = 1, teip = 0x9000\<rparr>]"
        "[]" "''hook''" "[]" "\<lambda>x. ucast x"]
    by (simp add: num_threads_at_tgt_def OP_PUSH_def OP_RET_def) blast
qed

end
