(* ===== verification/Callbacks.thy ===== *)
theory Callbacks
  imports Game_State Hook "HOL-Library.Char_ord" "HOL-Library.List_Lexorder"
begin

text \<open>
  \<^verbatim>\<open>src/src/hooks_yr.{hpp,cpp}\<close>, registration of the callbacks: the table of hooks of the game, the map
  of callback objects, the command \<open>CreateCallbacks\<close> of \<^verbatim>\<open>src/src/commands_yr.cpp\<close> that attaches
  them to the hooks, and the callback that detaches them when the game loop exits.

  A callback object is identified by its class. \<open>std::map\<close> is an association list ordered by key;
  the order decides in which order callbacks are attached.
\<close>

section \<open>Callback classes\<close>

datatype cb_kind =
    CBTunnelRecvFrom | CBTunnelSendTo | CBExitGameLoop | CBGameCommand | CBSaveState
  | CBUpdateLoadProgress | CBDebugPrint

fun key_name :: "cb_kind \<Rightarrow> string" where
  "key_name CBTunnelRecvFrom = ''tunnel_recvfrom''"
| "key_name CBTunnelSendTo = ''tunnel_sendto''"
| "key_name CBExitGameLoop = ''gameloop_exit''"
| "key_name CBGameCommand = ''cb_game_command''"
| "key_name CBSaveState = ''save_state''"
| "key_name CBUpdateLoadProgress = ''cb_progress_update''"
| "key_name CBDebugPrint = ''debug_print''"

fun key_target :: "cb_kind \<Rightarrow> string" where
  "key_target CBTunnelRecvFrom = ''cb_tunnel_recvfrom''"
| "key_target CBTunnelSendTo = ''cb_tunnel_sendto''"
| "key_target CBExitGameLoop = ''on_gameloop_exit''"
| "key_target CBGameCommand = ''on_frame_update''"
| "key_target CBSaveState = ''on_frame_update''"
| "key_target CBUpdateLoadProgress = ''on_progress_update''"
| "key_target CBDebugPrint = ''cb_debug_print''"

section \<open>Game data\<close>

record Configuration =
  cf_debug_log :: bool
  cf_parse_map_data_interval :: u32
  cf_single_step :: bool
  cf_record_filename :: string

definition default_configuration :: Configuration where
  "default_configuration =
     \<lparr>cf_debug_log = True, cf_parse_map_data_interval = 1, cf_single_step = False, cf_record_filename = []\<rparr>"

text \<open>\<open>gd_files\<close> is the list of files that were opened for writing, which truncates them.\<close>

record GameDataYR =
  gd_sv :: StorageValue
  gd_cfg :: Configuration
  gd_callbacks :: "(string \<times> cb_kind) list"
  gd_callbacks_initialized :: bool
  gd_game_paused :: bool
  gd_files :: "string list"

definition GameDataYR_new :: GameDataYR where
  "GameDataYR_new =
     \<lparr>gd_sv = StorageValue_default, gd_cfg = default_configuration, gd_callbacks = [],
      gd_callbacks_initialized = False, gd_game_paused = False, gd_files = []\<rparr>"

text \<open>\<open>try_emplace\<close> of a map ordered by string keys.\<close>

fun map_emplace :: "string \<Rightarrow> 'v \<Rightarrow> (string \<times> 'v) list \<Rightarrow> (string \<times> 'v) list" where
  "map_emplace k v [] = [(k, v)]"
| "map_emplace k v ((k', v') # xs) =
     (if k = k' then (k', v') # xs
      else if k < k' then (k, v) # (k', v') # xs
      else (k', v') # map_emplace k v xs)"

text \<open>The environment of the process: whether traffic is recorded, and the file for the states.\<close>

record environment =
  env_record_traffic :: bool
  env_record_path :: "string option"

definition emplace_cb :: "cb_kind \<Rightarrow> GameDataYR \<Rightarrow> GameDataYR" where
  "emplace_cb c D = D\<lparr>gd_callbacks := map_emplace (key_name c) c (gd_callbacks D)\<rparr>"

definition open_file :: "string \<Rightarrow> GameDataYR \<Rightarrow> GameDataYR" where
  "open_file f D = D\<lparr>gd_files := gd_files D @ [f]\<rparr>"

definition init_callbacks :: "environment \<Rightarrow> string \<Rightarrow> GameDataYR \<Rightarrow> GameDataYR" where
  "init_callbacks env t D =
     (if gd_callbacks_initialized D then D
      else
        let D1 = (if env_record_traffic env
                  then emplace_cb CBTunnelSendTo (emplace_cb CBTunnelRecvFrom
                         (open_file (''traffic.'' @ t @ ''.pb.gz'') D))
                  else D);
            D2 = emplace_cb CBGameCommand (emplace_cb CBExitGameLoop D1);
            D3 = (case env_record_path env of
                    None \<Rightarrow> D2
                  | Some p \<Rightarrow> open_file p (D2\<lparr>gd_cfg := (gd_cfg D2)\<lparr>cf_record_filename := p\<rparr>\<rparr>))
        in emplace_cb CBDebugPrint (emplace_cb CBUpdateLoadProgress (emplace_cb CBSaveState D3)))"

section \<open>Hooks\<close>

type_synonym hooks = "(u32 \<times> cb_kind hook) list"

record YRHook =
  yh_address :: u32
  yh_size :: u32
  yh_name :: string

definition gg_hooks :: "YRHook list" where
  "gg_hooks =
     [\<lparr>yh_address = 0x55de4f, yh_size = 7, yh_name = key_target CBGameCommand\<rparr>,
      \<lparr>yh_address = 0x72dfb0, yh_size = 6, yh_name = key_target CBExitGameLoop\<rparr>,
      \<lparr>yh_address = 0x7b3d6f, yh_size = 6, yh_name = key_target CBTunnelSendTo\<rparr>,
      \<lparr>yh_address = 0x7b3f15, yh_size = 6, yh_name = key_target CBTunnelRecvFrom\<rparr>,
      \<lparr>yh_address = 0x643c62, yh_size = 6, yh_name = key_target CBUpdateLoadProgress\<rparr>,
      \<lparr>yh_address = 0x4068e0, yh_size = 6, yh_name = key_target CBDebugPrint\<rparr>]"

definition find_hook :: "string \<Rightarrow> hooks \<Rightarrow> (u32 \<times> cb_kind hook) option" where
  "find_hook target hs = find_if (\<lambda>a. hk_name (snd a) = target) hs"

text \<open>Change the hook at an address.\<close>

definition upd_hook :: "u32 \<Rightarrow> (cb_kind hook \<Rightarrow> cb_kind hook) \<Rightarrow> hooks \<Rightarrow> hooks" where
  "upd_hook a f hs = map (\<lambda>x. if fst x = a then (a, f (snd x)) else x) hs"

definition add_to_hook :: "cb_kind \<Rightarrow> cb_kind hook \<Rightarrow> cb_kind hook" where
  "add_to_hook c h = add_callback_fn c (key_name c) 0 h"

definition has_callback :: "string \<Rightarrow> cb_kind hook \<Rightarrow> bool" where
  "has_callback k h \<longleftrightarrow> (\<exists>c \<in> set (callbacks h). cb_name c = k)"

text \<open>The loop of \<open>CreateCallbacks\<close>; an exception leaves the callbacks attached so far.\<close>

fun attach_all :: "(string \<times> cb_kind) list \<Rightarrow> hooks \<Rightarrow> hooks \<times> unit outcome" where
  "attach_all [] hs = (hs, Return ())"
| "attach_all ((k, v) # cs) hs =
     (case find_hook (key_target v) hs of
        None \<Rightarrow> (hs, Raise (general_error (''No such hook '' @ key_target v)))
      | Some (a, h) \<Rightarrow>
          (if has_callback k h
           then (hs, Raise (general_error (''Hook '' @ key_target v @ '' already has a callback '' @ k)))
           else attach_all cs (upd_hook a (add_to_hook v) hs)))"

definition create_callbacks ::
  "environment \<Rightarrow> string \<Rightarrow> GameDataYR \<times> hooks \<Rightarrow> (GameDataYR \<times> hooks) \<times> unit outcome"
where
  "create_callbacks env t s =
     (case s of (D, hs) \<Rightarrow>
        let D1 = init_callbacks env t D
        in case attach_all (gd_callbacks D1) hs of (hs', r) \<Rightarrow> ((D1, hs'), r))"

text \<open>\<open>CBExitGameLoop::do_call\<close>: detach every callback but itself. A callback without a hook is kept;
  a callback that is not attached to its hook makes \<open>remove_callback\<close> throw.\<close>

fun detach_all ::
  "string list \<Rightarrow> (string \<times> cb_kind) list \<times> hooks \<Rightarrow> ((string \<times> cb_kind) list \<times> hooks) \<times> unit outcome"
where
  "detach_all [] s = (s, Return ())"
| "detach_all (k # ks) (cbs, hs) =
     (if k = key_name CBExitGameLoop then detach_all ks (cbs, hs)
      else case map_of cbs k of
             None \<Rightarrow> ((cbs, hs), Raise (out_of_range ''map::at''))
           | Some v \<Rightarrow>
               (case find_hook (key_target v) hs of
                  None \<Rightarrow> detach_all ks (cbs, hs)
                | Some (a, h) \<Rightarrow>
                    (case remove_callback k h of
                       Return h' \<Rightarrow>
                         detach_all ks (filter (\<lambda>x. fst x \<noteq> k) cbs, upd_hook a (\<lambda>_. h') hs)
                     | Raise e \<Rightarrow> ((cbs, hs), Raise e)
                     | Undefined \<Rightarrow> ((cbs, hs), Undefined))))"

definition exit_game_loop :: "GameDataYR \<times> hooks \<Rightarrow> (GameDataYR \<times> hooks) \<times> unit outcome" where
  "exit_game_loop s =
     (case s of (D, hs) \<Rightarrow>
        let sv = gd_sv D;
            D1 = D\<lparr>gd_sv := sv\<lparr>sv_game_state := (sv_game_state sv)\<lparr>stage := STAGE_EXIT_GAME\<rparr>\<rparr>\<rparr>
        in case detach_all (map fst (gd_callbacks D1)) (gd_callbacks D1, hs) of
             ((cbs, hs'), r) \<Rightarrow> ((D1\<lparr>gd_callbacks := cbs\<rparr>, hs'), r))"

text \<open>The map of the callbacks of the game, in key order.\<close>

definition std_callbacks :: "cb_kind list" where
  "std_callbacks = [CBGameCommand, CBUpdateLoadProgress, CBDebugPrint, CBExitGameLoop, CBSaveState]"

definition all_callbacks :: "cb_kind list" where
  "all_callbacks = std_callbacks @ [CBTunnelRecvFrom, CBTunnelSendTo]"

definition cb_entries :: "cb_kind list \<Rightarrow> (string \<times> cb_kind) list" where
  "cb_entries cs = map (\<lambda>c. (key_name c, c)) cs"

lemma key_name_inj [simp]: "key_name a = key_name b \<longleftrightarrow> a = b"
  by (cases a; cases b) simp_all

section \<open>Attaching\<close>

lemma init_callbacks_new:
  "gd_callbacks (init_callbacks env t GameDataYR_new) =
     cb_entries (if env_record_traffic env then all_callbacks else std_callbacks)"
  by (simp add: init_callbacks_def Let_def emplace_cb_def open_file_def GameDataYR_new_def cb_entries_def
      all_callbacks_def std_callbacks_def split: option.splits)

definition cb_of :: "cb_kind \<Rightarrow> cb_kind HookCallback" where
  "cb_of v = \<lparr>cb_func = v, cb_calls = 0, cb_max_calls = 0, cb_name = key_name v\<rparr>"

lemma cb_name_cb_of [simp]: "cb_name (cb_of v) = key_name v"
  by (simp add: cb_of_def)

text \<open>A hook after the callbacks that target it were attached in the given order.\<close>

definition attached :: "cb_kind list \<Rightarrow> cb_kind hook \<Rightarrow> cb_kind hook" where
  "attached cs h = h\<lparr>callbacks := callbacks h @ map cb_of (filter (\<lambda>v. key_target v = hk_name h) cs)\<rparr>"

lemma attached_simps [simp]:
  "hk_name (attached cs h) = hk_name h"
  "callbacks (attached cs h) = callbacks h @ map cb_of (filter (\<lambda>v. key_target v = hk_name h) cs)"
  by (simp_all add: attached_def)

lemma attached_Nil [simp]: "attached [] h = h"
  by (simp add: attached_def)

lemma attached_append: "attached ds (attached cs h) = attached (cs @ ds) h"
  by (simp add: attached_def)

lemma attached_single: "attached [v] h = (if key_target v = hk_name h then add_to_hook v h else h)"
  by (simp add: attached_def add_to_hook_def add_callback_fn_def add_callback_def cb_of_def)

definition hooks_wf :: "hooks \<Rightarrow> bool" where
  "hooks_wf hs \<longleftrightarrow> distinct (map fst hs) \<and> distinct (map (\<lambda>x. hk_name (snd x)) hs)"

definition on_hooks :: "(cb_kind hook \<Rightarrow> cb_kind hook) \<Rightarrow> hooks \<Rightarrow> hooks" where
  "on_hooks f hs = map (\<lambda>x. (fst x, f (snd x))) hs"

lemma hooks_wf_on_hooks [simp]: "(\<And>h. hk_name (f h) = hk_name h) \<Longrightarrow> hooks_wf (on_hooks f hs) = hooks_wf hs"
  by (simp add: hooks_wf_def on_hooks_def comp_def)

lemma on_hooks_comp: "on_hooks f (on_hooks g hs) = on_hooks (\<lambda>h. f (g h)) hs"
  by (simp add: on_hooks_def)

lemma find_hook_SomeD: "find_hook t hs = Some (a, h) \<Longrightarrow> (a, h) \<in> set hs \<and> hk_name h = t"
  by (auto simp: find_hook_def dest: find_if_Some_D)

lemma find_hook_exists: "\<exists>x \<in> set hs. hk_name (snd x) = t \<Longrightarrow> \<exists>a h. find_hook t hs = Some (a, h)"
  by (cases "find_hook t hs") (auto simp: find_hook_def find_if_None_iff)

text \<open>In a well-formed table a hook is found by its name, and changing it at its address changes
  exactly the hook of that name.\<close>

lemma upd_hook_by_name:
  assumes "hooks_wf hs" and "find_hook t hs = Some (a, h)"
  shows "upd_hook a f hs = on_hooks (\<lambda>x. if hk_name x = t then f x else x) hs"
proof -
  have ah: "(a, h) \<in> set hs" "hk_name h = t" using find_hook_SomeD [OF assms(2)] by auto
  have "fst x = a \<longleftrightarrow> hk_name (snd x) = t" if "x \<in> set hs" for x
    using that ah assms(1) by (auto simp: hooks_wf_def distinct_map inj_on_def) (metis fst_conv snd_conv)+
  then show ?thesis
    by (auto simp: upd_hook_def on_hooks_def intro!: map_cong prod_eqI)
qed

definition can_attach :: "cb_kind list \<Rightarrow> hooks \<Rightarrow> bool" where
  "can_attach cs hs \<longleftrightarrow> distinct cs \<and> (\<forall>v \<in> set cs. (\<exists>x \<in> set hs. hk_name (snd x) = key_target v)
     \<and> (\<forall>x \<in> set hs. \<not> has_callback (key_name v) (snd x)))"

lemma attach_all_ok:
  assumes "hooks_wf hs" and "can_attach cs hs"
  shows "attach_all (cb_entries cs) hs = (on_hooks (attached cs) hs, Return ())"
  using assms
proof (induction cs arbitrary: hs)
  case Nil
  then show ?case by (simp add: cb_entries_def on_hooks_def)
next
  case (Cons v cs)
  obtain a h where ah: "find_hook (key_target v) hs = Some (a, h)"
    using Cons.prems(2) find_hook_exists [of hs "key_target v"] by (auto simp: can_attach_def)
  have free: "\<not> has_callback (key_name v) h"
    using Cons.prems(2) find_hook_SomeD [OF ah] by (auto simp: can_attach_def)
  let ?hs = "on_hooks (attached [v]) hs"
  have upd: "upd_hook a (add_to_hook v) hs = ?hs"
    using upd_hook_by_name [OF Cons.prems(1) ah, of "add_to_hook v"]
    by (auto simp: on_hooks_def attached_single)
  have wf: "hooks_wf ?hs" using Cons.prems(1) by simp
  have can: "can_attach cs ?hs"
    using Cons.prems(2) by (auto simp: can_attach_def on_hooks_def has_callback_def)
  have "attach_all (cb_entries (v # cs)) hs = attach_all (cb_entries cs) ?hs"
    using ah free upd by (simp add: cb_entries_def)
  then show ?case
    using Cons.IH [OF wf can] by (simp add: on_hooks_comp attached_append)
qed

section \<open>Detaching\<close>

definition detached :: "string set \<Rightarrow> cb_kind hook \<Rightarrow> cb_kind hook" where
  "detached ks h = h\<lparr>callbacks := filter (\<lambda>c. cb_name c \<notin> ks) (callbacks h)\<rparr>"

lemma detached_simps [simp]:
  "hk_name (detached ks h) = hk_name h"
  "callbacks (detached ks h) = filter (\<lambda>c. cb_name c \<notin> ks) (callbacks h)"
  "detached {} h = h"
  by (simp_all add: detached_def)

lemma has_callback_detached [simp]: "has_callback k (detached ks h) \<longleftrightarrow> k \<notin> ks \<and> has_callback k h"
  by (auto simp: has_callback_def)

lemma detached_comp: "detached ks (detached ls h) = detached (ls \<union> ks) h"
  by (auto simp: detached_def intro!: filter_cong)

lemma erase_first_distinct:
  "distinct (map f xs) \<Longrightarrow> erase_first (\<lambda>x. f x = k) xs = filter (\<lambda>x. f x \<noteq> k) xs"
  by (induction xs) (auto simp: image_iff intro!: filter_True [symmetric])

lemma map_of_filter_other: "k' \<noteq> k \<Longrightarrow> map_of (filter (\<lambda>x. fst x \<noteq> k) xs) k' = map_of xs k'"
  by (induction xs) auto

text \<open>Every listed callback is attached, once, to the hook it targets and to no other.\<close>

definition is_attached :: "cb_kind list \<Rightarrow> hooks \<Rightarrow> bool" where
  "is_attached cs hs \<longleftrightarrow> (\<forall>v \<in> set cs. (\<exists>x \<in> set hs. hk_name (snd x) = key_target v)
     \<and> (\<forall>x \<in> set hs. has_callback (key_name v) (snd x) \<longleftrightarrow> hk_name (snd x) = key_target v))
     \<and> (\<forall>x \<in> set hs. distinct (map cb_name (callbacks (snd x))))"

definition exit_keys :: "cb_kind list \<Rightarrow> string set" where
  "exit_keys cs = key_name ` (set cs - {CBExitGameLoop})"

lemma remove_callback_ok:
  assumes "has_callback k h" and "distinct (map cb_name (callbacks h))"
  shows "remove_callback k h = Return (detached {k} h)"
proof (cases "find_if (\<lambda>c. cb_name c = k) (callbacks h)")
  case None
  then show ?thesis using assms(1) by (auto simp: has_callback_def find_if_None_iff)
qed (simp add: remove_callback_def detached_def erase_first_distinct [OF assms(2)])

lemma detach_all_ok:
  assumes "hooks_wf hs" and "is_attached cs hs" and "distinct cs" and "\<forall>v \<in> set cs. map_of cbs (key_name v) = Some v"
  shows "detach_all (map key_name cs) (cbs, hs) =
           ((filter (\<lambda>x. fst x \<notin> exit_keys cs) cbs, on_hooks (detached (exit_keys cs)) hs), Return ())"
  using assms
proof (induction cs arbitrary: cbs hs)
  case Nil
  then show ?case by (simp add: exit_keys_def on_hooks_def)
next
  case (Cons v cs)
  show ?case
  proof (cases "v = CBExitGameLoop")
    case True
    then have "exit_keys (v # cs) = exit_keys cs" by (simp add: exit_keys_def)
    then show ?thesis using Cons.IH [of hs cbs] Cons.prems True by (simp add: is_attached_def)
  next
    case False
    then have ek: "exit_keys (v # cs) = insert (key_name v) (exit_keys cs)"
      by (auto simp: exit_keys_def)
    have nk: "key_name v \<noteq> ''gameloop_exit''"
      using False key_name_inj [of v CBExitGameLoop] by simp
    obtain a h where ah: "find_hook (key_target v) hs = Some (a, h)"
      using Cons.prems(2) find_hook_exists [of hs "key_target v"] by (auto simp: is_attached_def)
    have h: "has_callback (key_name v) h" "distinct (map cb_name (callbacks h))"
      using Cons.prems(2) find_hook_SomeD [OF ah] by (auto simp: is_attached_def)
    let ?hs = "on_hooks (detached {key_name v}) hs" and ?cbs = "filter (\<lambda>x. fst x \<noteq> key_name v) cbs"
    have same: "detached {key_name v} (snd x) = snd x" if "x \<in> set hs" "hk_name (snd x) \<noteq> key_target v" for x
      using that Cons.prems(2)
      by (auto simp: is_attached_def has_callback_def detached_def filter_id_conv intro!: hook.equality)
    have uniq: "snd x = h" if "x \<in> set hs" "hk_name (snd x) = key_target v" for x
      using that find_hook_SomeD [OF ah] Cons.prems(1)
      by (auto simp: hooks_wf_def distinct_map inj_on_def)
    have upd: "upd_hook a (\<lambda>_. detached {key_name v} h) hs = ?hs"
      unfolding upd_hook_by_name [OF Cons.prems(1) ah] on_hooks_def
      using same uniq by (intro map_cong) auto
    have step: "detach_all (map key_name (v # cs)) (cbs, hs) = detach_all (map key_name cs) (?cbs, ?hs)"
      using Cons.prems(4) ah upd nk by (simp add: remove_callback_ok [OF h])
    have wf: "hooks_wf ?hs" using Cons.prems(1) by simp
    have at: "is_attached cs ?hs"
      using Cons.prems(2,3)
      by (auto simp: is_attached_def on_hooks_def distinct_map_filter)
    have mp: "\<forall>w \<in> set cs. map_of ?cbs (key_name w) = Some w"
    proof
      fix w assume w: "w \<in> set cs"
      then have "key_name w \<noteq> key_name v" using Cons.prems(3) by auto
      then show "map_of ?cbs (key_name w) = Some w" using w Cons.prems(4) by (simp add: map_of_filter_other)
    qed
    have ds: "distinct cs" using Cons.prems(3) by simp
    show ?thesis
      unfolding step Cons.IH [OF wf at ds mp] ek by (simp add: on_hooks_comp detached_comp conj_commute)
  qed
qed

section \<open>Creation and exit\<close>

definition std_names :: "string list" where
  "std_names = remdups (map key_target all_callbacks)"

text \<open>The hooks of the game before any callback was attached.\<close>

definition fresh_hooks :: "hooks \<Rightarrow> bool" where
  "fresh_hooks hs \<longleftrightarrow> hooks_wf hs \<and> (\<forall>n \<in> set std_names. \<exists>x \<in> set hs. hk_name (snd x) = n)
     \<and> (\<forall>x \<in> set hs. callbacks (snd x) = [])"

definition callback_list :: "environment \<Rightarrow> cb_kind list" where
  "callback_list env = (if env_record_traffic env then all_callbacks else std_callbacks)"

lemma callback_list_props:
  "distinct (callback_list env)" "CBExitGameLoop \<in> set (callback_list env)"
  "set (callback_list env) \<subseteq> set all_callbacks"
  by (simp_all add: callback_list_def all_callbacks_def std_callbacks_def)

lemma fresh_can_attach: "fresh_hooks hs \<Longrightarrow> can_attach (callback_list env) hs"
  using callback_list_props [of env]
  by (auto simp: fresh_hooks_def can_attach_def has_callback_def std_names_def)

lemma create_callbacks_fresh:
  assumes "fresh_hooks hs"
  shows "create_callbacks env t (GameDataYR_new, hs) =
           ((init_callbacks env t GameDataYR_new, on_hooks (attached (callback_list env)) hs), Return ())"
  using attach_all_ok [OF _ fresh_can_attach [OF assms, of env]] assms
  by (simp add: create_callbacks_def Let_def init_callbacks_new callback_list_def fresh_hooks_def)

text \<open>C27: on the hooks of a new game the command \<open>CreateCallbacks\<close> succeeds and attaches to every hook
  exactly the callbacks that target it, in the order of their names. In particular the queued
  commands of the clients run before the state of the frame is saved.\<close>

theorem create_callbacks_attaches:
  assumes "fresh_hooks hs" and "(a, h) \<in> set hs"
  shows "\<exists>D hs' h'. create_callbacks env t (GameDataYR_new, hs) = ((D, hs'), Return ()) \<and> (a, h') \<in> set hs'
           \<and> hk_name h' = hk_name h \<and> map fst hs' = map fst hs
           \<and> map cb_func (callbacks h') = filter (\<lambda>v. key_target v = hk_name h) (callback_list env)
           \<and> (hk_name h = ''on_frame_update'' \<longrightarrow> map cb_func (callbacks h') = [CBGameCommand, CBSaveState])"
proof -
  have mem: "(a, attached (callback_list env) h) \<in> set (on_hooks (attached (callback_list env)) hs)"
    using assms(2) by (force simp: on_hooks_def)
  have none: "callbacks h = []" using assms by (auto simp: fresh_hooks_def)
  have fu: "filter (\<lambda>v. key_target v = ''on_frame_update'') (callback_list env) = [CBGameCommand, CBSaveState]"
    by (simp add: callback_list_def all_callbacks_def std_callbacks_def)
  have fst: "map fst (on_hooks f hs) = map fst hs" for f
    by (simp add: on_hooks_def comp_def)
  show ?thesis
    unfolding create_callbacks_fresh [OF assms(1)]
    apply (rule exI [of _ "init_callbacks env t GameDataYR_new"])
    apply (rule exI [of _ "on_hooks (attached (callback_list env)) hs"])
    apply (rule exI [of _ "attached (callback_list env) h"])
    using mem none fu fst by (simp add: cb_of_def comp_def)
qed

lemma attached_is_attached:
  assumes "fresh_hooks hs" and "distinct cs" and "set cs \<subseteq> set all_callbacks"
  shows "is_attached cs (on_hooks (attached cs) hs)"
proof -
  have "distinct (map key_name (filter P cs))" for P
    using assms(2) by (simp add: distinct_map inj_on_def)
  then show ?thesis
    using assms by (auto simp: is_attached_def on_hooks_def fresh_hooks_def has_callback_def std_names_def comp_def)
qed

definition exit_only :: "hooks \<Rightarrow> hooks" where
  "exit_only hs = on_hooks (attached [CBExitGameLoop]) hs"

lemma filter_eq_single: "distinct xs \<Longrightarrow> x \<in> set xs \<Longrightarrow> filter (\<lambda>v. v = x) xs = [x]"
  by (induction xs) (auto simp: filter_empty_conv)

lemma filter_attached:
  assumes "distinct cs" and "CBExitGameLoop \<in> set cs" and "callbacks h = []"
  shows "detached (exit_keys cs) (attached cs h) = attached [CBExitGameLoop] h"
proof -
  have "filter (\<lambda>v. key_name v \<notin> exit_keys cs) (filter P cs) = filter P (filter (\<lambda>v. v = CBExitGameLoop) cs)" for P
    by (auto simp: exit_keys_def image_iff intro!: filter_cong)
  then have "filter (\<lambda>v. key_name v \<notin> exit_keys cs) (filter P cs) = filter P [CBExitGameLoop]" for P
    by (simp only: filter_eq_single [OF assms(1,2)])
  then show ?thesis
    using assms(3) by (intro hook.equality) (simp_all add: filter_map comp_def detached_def attached_def)
qed

lemma cb_entries_lookup: "distinct cs \<Longrightarrow> v \<in> set cs \<Longrightarrow> map_of (cb_entries cs) (key_name v) = Some v"
  by (induction cs) (auto simp: cb_entries_def)

lemma cb_entries_left:
  assumes "distinct cs" and "CBExitGameLoop \<in> set cs"
  shows "filter (\<lambda>x. fst x \<notin> exit_keys cs) (cb_entries cs) = [(key_name CBExitGameLoop, CBExitGameLoop)]"
proof -
  have "filter (\<lambda>v. key_name v \<notin> exit_keys cs) cs = filter (\<lambda>v. v = CBExitGameLoop) cs"
    by (auto simp: exit_keys_def image_iff intro!: filter_cong)
  then show ?thesis
    using filter_eq_single [OF assms] by (simp add: cb_entries_def filter_map comp_def)
qed

lemma cb_entries_middle: "cb_entries (xs @ y # ys) = cb_entries xs @ (key_name y, y) # cb_entries ys"
  by (simp add: cb_entries_def)

lemma exit_after_create:
  assumes "fresh_hooks hs" and "D = init_callbacks env t GameDataYR_new"
  shows "\<exists>D'. exit_game_loop (D, on_hooks (attached (callback_list env)) hs) = ((D', exit_only hs), Return ())
           \<and> gd_callbacks D' = [(key_name CBExitGameLoop, CBExitGameLoop)]
           \<and> gd_callbacks_initialized D' = gd_callbacks_initialized D
           \<and> stage (sv_game_state (gd_sv D')) = STAGE_EXIT_GAME"
proof -
  let ?cs = "callback_list env" and ?hs = "on_hooks (attached (callback_list env)) hs"
  note ps = callback_list_props [of env]
  have cbs: "gd_callbacks D = cb_entries ?cs" by (simp add: assms(2) init_callbacks_new callback_list_def)
  have wf: "hooks_wf ?hs" using assms(1) by (simp add: fresh_hooks_def)
  have mp: "\<forall>v \<in> set ?cs. map_of (cb_entries ?cs) (key_name v) = Some v"
    using cb_entries_lookup [OF ps(1)] by blast
  have keys: "map fst (cb_entries ?cs) = map key_name ?cs" by (simp add: cb_entries_def comp_def)
  have hooks: "on_hooks (detached (exit_keys ?cs)) ?hs = exit_only hs"
    unfolding exit_only_def on_hooks_comp using assms(1) filter_attached [OF ps(1,2)]
    by (auto simp: on_hooks_def fresh_hooks_def)
  have left: "filter (\<lambda>x. fst x \<notin> exit_keys ?cs) (cb_entries ?cs) = [(key_name CBExitGameLoop, CBExitGameLoop)]"
    by (rule cb_entries_left [OF ps(1,2)])
  show ?thesis
    using detach_all_ok [OF wf attached_is_attached [OF assms(1) ps(1,3)] ps(1) mp]
    by (simp add: exit_game_loop_def Let_def cbs keys hooks left)
qed

text \<open>C28: when the game loop exits, all callbacks are detached and deleted except the one for the exit
  itself: every hook is as before \<open>CreateCallbacks\<close> again, but for the exit callback on its
  hook.\<close>

theorem exit_detaches_callbacks:
  assumes "fresh_hooks hs" and "create_callbacks env t (GameDataYR_new, hs) = (s, r)"
  shows "r = Return () \<and> (\<exists>D'. exit_game_loop s = ((D', exit_only hs), Return ())
           \<and> gd_callbacks D' = [(key_name CBExitGameLoop, CBExitGameLoop)]
           \<and> stage (sv_game_state (gd_sv D')) = STAGE_EXIT_GAME)"
  using assms(2) exit_after_create [OF assms(1) refl, of env t] create_callbacks_fresh [OF assms(1), of env t]
  by auto

lemma init_callbacks_flag [simp]: "gd_callbacks_initialized (init_callbacks env t D) = gd_callbacks_initialized D"
  by (simp add: init_callbacks_def Let_def emplace_cb_def open_file_def split: option.splits)

lemma GameDataYR_new_flag [simp]: "\<not> gd_callbacks_initialized GameDataYR_new"
  by (simp add: GameDataYR_new_def)

lemma init_callbacks_after_exit:
  assumes "gd_callbacks D = [(key_name CBExitGameLoop, CBExitGameLoop)]" and "\<not> gd_callbacks_initialized D"
  shows "gd_callbacks (init_callbacks env t D) = cb_entries (callback_list env)"
  using assms
  by (simp add: init_callbacks_def Let_def emplace_cb_def open_file_def cb_entries_def callback_list_def
      all_callbacks_def std_callbacks_def split: option.splits)

lemma attach_all_append:
  "attach_all (cs @ ds) hs =
     (case attach_all cs hs of (hs', Return _) \<Rightarrow> attach_all ds hs' | (hs', r) \<Rightarrow> (hs', r))"
  by (induction cs hs rule: attach_all.induct) (auto split: option.splits outcome.splits)

lemma attach_twice_fails:
  assumes "hooks_wf hs" and "\<exists>x \<in> set hs. hk_name (snd x) = key_target v \<and> has_callback (key_name v) (snd x)"
  shows "attach_all ((key_name v, v) # cs) hs =
           (hs, Raise (general_error (''Hook '' @ key_target v @ '' already has a callback '' @ key_name v)))"
proof -
  obtain a h where ah: "find_hook (key_target v) hs = Some (a, h)"
    using assms(2) find_hook_exists [of hs "key_target v"] by blast
  moreover have "has_callback (key_name v) h"
    using find_hook_SomeD [OF ah] assms by (auto simp: hooks_wf_def distinct_map inj_on_def) (metis snd_conv)
  ultimately show ?thesis by simp
qed

text \<open>After the game loop exited, \<open>CreateCallbacks\<close> cannot be used for the next game: the exit
  callback is still attached, so the command throws when it reaches it, and the callbacks behind
  it in the order of names, among them the one that saves the state of each frame, are not
  attached to any hook.\<close>

lemma create_after_exit_fails:
  assumes "fresh_hooks hs" and "create_callbacks env t (GameDataYR_new, hs) = (s, r)"
    and "exit_game_loop s = (s', r')"
  shows "\<exists>D hs'. create_callbacks env t' s' =
             ((D, hs'), Raise (general_error ''Hook on_gameloop_exit already has a callback gameloop_exit''))
           \<and> (\<forall>x \<in> set hs'. \<not> has_callback (key_name CBSaveState) (snd x))"
proof -
  let ?pre = "[CBGameCommand, CBUpdateLoadProgress, CBDebugPrint]"
  let ?post = "if env_record_traffic env then [CBSaveState, CBTunnelRecvFrom, CBTunnelSendTo] else [CBSaveState]"
  obtain D where s': "s' = (D, exit_only hs)" "gd_callbacks D = [(key_name CBExitGameLoop, CBExitGameLoop)]"
    "\<not> gd_callbacks_initialized D"
    using exit_after_create [OF assms(1) refl, of env t] create_callbacks_fresh [OF assms(1), of env t] assms(2,3)
    by auto
  have list: "callback_list env = ?pre @ CBExitGameLoop # ?post"
    by (simp add: callback_list_def all_callbacks_def std_callbacks_def)
  have wf: "hooks_wf (exit_only hs)" using assms(1) by (simp add: exit_only_def fresh_hooks_def)
  have can: "can_attach ?pre (exit_only hs)"
    using assms(1)
    by (auto simp: can_attach_def exit_only_def on_hooks_def fresh_hooks_def has_callback_def std_names_def
        all_callbacks_def std_callbacks_def)
  let ?hs = "on_hooks (attached ?pre) (exit_only hs)"
  have pre: "attach_all (cb_entries ?pre) (exit_only hs) = (?hs, Return ())"
    by (rule attach_all_ok [OF wf can])
  have has: "\<exists>x \<in> set ?hs. hk_name (snd x) = key_target CBExitGameLoop \<and> has_callback (key_name CBExitGameLoop) (snd x)"
    using assms(1)
    by (force simp: exit_only_def on_hooks_def fresh_hooks_def has_callback_def std_names_def all_callbacks_def
        std_callbacks_def)
  have "attach_all (cb_entries (callback_list env)) (exit_only hs) =
      (?hs, Raise (general_error ''Hook on_gameloop_exit already has a callback gameloop_exit''))"
    unfolding list cb_entries_middle attach_all_append pre
    using attach_twice_fails [OF _ has, of "cb_entries ?post"] wf by (simp del: attach_all.simps)
  then have "create_callbacks env t' s' =
      ((init_callbacks env t' D, ?hs), Raise (general_error ''Hook on_gameloop_exit already has a callback gameloop_exit''))"
    using init_callbacks_after_exit [OF s'(2,3)] by (simp add: create_callbacks_def Let_def s'(1))
  moreover have "\<forall>x \<in> set ?hs. \<not> has_callback (key_name CBSaveState) (snd x)"
    using assms(1) by (auto simp: exit_only_def on_hooks_def fresh_hooks_def has_callback_def)
  ultimately show ?thesis by blast
qed

section \<open>The hooks of the game\<close>

definition hook_of :: "YRHook \<Rightarrow> cb_kind hook" where
  "hook_of y =
     \<lparr>hk_detour = \<lparr>src_address = yh_address y, detour_address = 0, code_length = yh_size y\<rparr>,
      hk_name = yh_name y, callbacks = [], dm_code = 0, no_suspend = [], count_enter = 0, count_exit = 0,
      manual = True\<rparr>"

definition game_hooks :: hooks where
  "game_hooks = map (\<lambda>y. (yh_address y, hook_of y)) gg_hooks"

lemma game_hooks_fresh: "fresh_hooks game_hooks"
  by (simp add: fresh_hooks_def game_hooks_def gg_hooks_def hook_of_def hooks_wf_def std_names_def
      all_callbacks_def std_callbacks_def)

text \<open>The hooked code of every hook is long enough for the trampoline, and the hooks do not overlap.\<close>

lemma gg_hooks_fit:
  "\<forall>y \<in> set gg_hooks. \<exists>code. DetourTrampoline 4096 p (yh_size y) = Return code \<and> length code = unat (yh_size y)"
  by (simp add: gg_hooks_def DetourTrampoline_def Let_def)

lemma gg_hooks_apart:
  "\<forall>y \<in> set gg_hooks. \<forall>z \<in> set gg_hooks. y = z \<or> yh_address y + yh_size y \<le> yh_address z
     \<or> yh_address z + yh_size z \<le> yh_address y"
  by (simp add: gg_hooks_def)

definition demo_env :: environment where
  "demo_env = \<lparr>env_record_traffic = False, env_record_path = Some ''rec.pb''\<rparr>"

theorem create_callbacks_attaches_witness:
  "\<exists>D hs' h'. create_callbacks demo_env ''1'' (GameDataYR_new, game_hooks) = ((D, hs'), Return ())
     \<and> (0x55de4f, h') \<in> set hs' \<and> map cb_func (callbacks h') = [CBGameCommand, CBSaveState]"
proof -
  obtain h where h: "(0x55de4f, h) \<in> set game_hooks" "hk_name h = ''on_frame_update''"
    by (simp add: game_hooks_def gg_hooks_def hook_of_def)
  show ?thesis
    using create_callbacks_attaches [OF game_hooks_fresh h(1), of demo_env "''1''"] h(2)
    by (elim exE conjE) (intro exI conjI, assumption, assumption, simp)
qed

theorem exit_detaches_callbacks_witness:
  "\<exists>s D'. create_callbacks demo_env ''1'' (GameDataYR_new, game_hooks) = (s, Return ())
     \<and> exit_game_loop s = ((D', exit_only game_hooks), Return ())"
proof -
  obtain s r where "create_callbacks demo_env ''1'' (GameDataYR_new, game_hooks) = (s, r)" by fastforce
  with exit_detaches_callbacks [OF game_hooks_fresh this] show ?thesis by blast
qed

end
