(* ===== verification/Game_ABI.thy ===== *)
theory Game_ABI
  imports X86_Code
begin

text \<open>
  \<^verbatim>\<open>src/src/ra2/abi.{hpp,cpp}\<close>: calling functions of the game. The program generates a thunk for
  every game function, which is called as a C function and rearranges its arguments for the
  calling convention of the game: \<open>ThisCall\<close> and \<open>VirtualCall\<close> pass \<open>this\<close> in \<open>ecx\<close> and a
  copy of the other arguments on the stack, \<open>FastCall\<close> passes a block of bytes. The thunks
  are kept in a map. The game functions themselves are parameters.
\<close>

section \<open>Thunks\<close>

text \<open>One round of the copying loop; \<open>n\<close> is \<open>stack_size / 4\<close>.\<close>

definition copy_arg :: "nat \<Rightarrow> nat \<Rightarrow> instr list" where
  "copy_arg n i =
     [MOV_RM EAX ESP (4 + (of_nat (4 * n) - of_nat (4 * i))), MOV_MR ESP (- of_nat (4 * (i + 1))) EAX]"

definition copy_args :: "nat \<Rightarrow> nat \<Rightarrow> instr list" where
  "copy_args n k = concat (map (copy_arg n) [0..<k])"

definition ThisCall :: "u32 \<Rightarrow> nat \<Rightarrow> instr list" where
  "ThisCall p_fn n =
     [MOV_RM ECX ESP 4] @ copy_args n n @ [SUB_I ESP (of_nat (4 * n)), MOV_RI EAX p_fn, CALL_R EAX, RET]"

definition VirtualCall :: "u32 \<Rightarrow> nat \<Rightarrow> instr list" where
  "VirtualCall vtable_index n =
     [MOV_RM ECX ESP 4] @ copy_args n n
     @ [SUB_I ESP (of_nat (4 * n)), MOV_RM EAX ECX 0, MOV_RM EAX EAX (vtable_index * 4), CALL_R EAX, RET]"

definition FastCall :: "u32 \<Rightarrow> instr list" where
  "FastCall p_fn =
     [MOV_RM ESI ESP 4, MOV_RM ECX ESP 8, PUSH_R EBP, MOV_RR EBP ESP, SUB_RR ESP ECX, MOV_RR EDI ESP,
      REP_MOVSB, MOV_RI EAX p_fn, CALL_R EAX, MOV_RR ESP EBP, POP_R EBP, RET]"

text \<open>\<open>ABIGameMD::sprintf\<close>: a block of 128 bytes, the address of the buffer and a copy of the
  arguments.\<close>

definition sprintf_stack :: "mem \<Rightarrow> u32 \<Rightarrow> u32 \<Rightarrow> vecu8" where
  "sprintf_stack m buf args_start = le32 buf @ load_bytes m args_start 124"

section \<open>The store of thunks\<close>

type_synonym codegen_store = "u32 \<rightharpoonup> instr list"

definition find_codegen :: "u32 \<Rightarrow> codegen_store \<Rightarrow> instr list option" where
  "find_codegen address st = (case map_at st address of Return c \<Rightarrow> Some c | _ \<Rightarrow> None)"

definition add_entry :: "u32 \<Rightarrow> instr list \<Rightarrow> codegen_store \<Rightarrow> codegen_store \<times> instr list" where
  "add_entry address c st = (st(address \<mapsto> c), c)"

datatype gen_t = GenThis | GenFast

text \<open>\<open>Caller::get_function\<close> and the lookup of \<open>Caller::call_virtual\<close>: the thunk is generated
  on the first call. A virtual thunk is generated with the default stack size, zero.\<close>

definition get_function :: "gen_t \<Rightarrow> u32 \<Rightarrow> nat \<Rightarrow> codegen_store \<Rightarrow> codegen_store \<times> instr list" where
  "get_function g address n st =
     (case find_codegen address st of
        Some c \<Rightarrow> (st, c)
      | None \<Rightarrow> add_entry address (case g of GenThis \<Rightarrow> ThisCall address n | GenFast \<Rightarrow> FastCall address) st)"

definition get_virtual :: "mem \<Rightarrow> u32 \<Rightarrow> u32 \<Rightarrow> codegen_store \<Rightarrow> codegen_store \<times> instr list" where
  "get_virtual m index object st =
     (let p_virtual_function = read32 m (read32 m object + 4 * index)
      in case find_codegen p_virtual_function st of
           Some c \<Rightarrow> (st, c)
         | None \<Rightarrow> add_entry p_virtual_function (VirtualCall index 0) st)"

section \<open>Tiberium\<close>

record Tiberium =
  tib_image_index :: int
  tib_num_images :: int
  tib_field_EC :: int
  tib_array_index :: int
  tib_value :: int

text \<open>\<open>DynamicVectorClass::GetItem\<close> reads the array without a check.\<close>

definition get_item :: "'a list \<Rightarrow> int \<Rightarrow> 'a outcome" where
  "get_item A i = (if 0 \<le> i \<and> nat i < length A then Return (A ! nat i) else Undefined)"

definition tib_matches :: "int \<Rightarrow> Tiberium \<Rightarrow> bool" where
  "tib_matches ovl t \<longleftrightarrow>
     (let ix = tib_image_index t
      in (ix \<le> ovl \<and> ovl < tib_num_images t + ix)
         \<or> (tib_num_images t + ix \<le> ovl \<and> ovl < tib_field_EC t + tib_num_images t + ix))"

definition get_tiberium_type :: "bool list \<Rightarrow> Tiberium list \<Rightarrow> int \<Rightarrow> int outcome" where
  "get_tiberium_type overlay_is_tib tibs ovl =
     (if ovl = -1 then Return (-1)
      else obind (get_item overlay_is_tib ovl) (\<lambda>b.
        if \<not> b then Return (-1)
        else (case find_if (tib_matches ovl) tibs of
                Some t \<Rightarrow> Return (tib_array_index t)
              | None \<Rightarrow> Return 0)))"

definition get_tiberium_value :: "bool list \<Rightarrow> Tiberium list \<Rightarrow> int \<Rightarrow> int \<Rightarrow> int outcome" where
  "get_tiberium_value overlay_is_tib tibs ovl overlay_data =
     obind (get_tiberium_type overlay_is_tib tibs ovl) (\<lambda>ix.
       if ix = -1 then Return 0
       else obind (get_item tibs ix) (\<lambda>t. Return (tib_value t * (overlay_data + 1))))"

section \<open>Lemmas\<close>

text \<open>The thunk reads dwords above the stack pointer and writes dwords below it.\<close>

lemma read32_dist:
  assumes "b - a = of_nat n" and "4 \<le> n" and "n \<le> 2 ^ 32 - 4"
  shows "read32 (write32 m a v) b = read32 m b"
proof -
  have "unat (b - a) = n" unfolding assms(1) by (rule unat_of_nat32) (use assms in simp)
  then show ?thesis using assms by (intro read32_write32_other) simp_all
qed

lemma read_above_write_below:
  assumes "4 \<le> b" and "b + d \<le> 2 ^ 32 - 4"
  shows "read32 (write32 m (sp - of_nat b) v) (sp + of_nat d) = read32 m (sp + of_nat d)"
  by (rule read32_dist [of _ _ "d + b"]) (use assms in simp_all)

lemma read_below_write_below:
  assumes "b + 4 \<le> c" and "c \<le> 2 ^ 32 - 4"
  shows "read32 (write32 m (sp - of_nat c) v) (sp - of_nat b) = read32 m (sp - of_nat b)"
  by (rule read32_dist [of _ _ "c - b"]) (use assms in \<open>simp_all add: of_nat_diff\<close>)

text \<open>The state \<open>t\<close> after \<open>k\<close> rounds of the copying loop that started in \<open>s\<close>.\<close>

definition args_copied :: "nat \<Rightarrow> nat \<Rightarrow> cpu \<Rightarrow> cpu \<Rightarrow> bool" where
  "args_copied n k s t \<longleftrightarrow> (\<exists>v. regs t = (regs s)\<lparr>eax := v\<rparr>) \<and> eip t = eip s
     \<and> (\<forall>d \<le> 4 * n + 4. read32 (ram t) (esp (regs s) + of_nat d) = read32 (ram s) (esp (regs s) + of_nat d))
     \<and> (\<forall>j < k. read32 (ram t) (esp (regs s) - of_nat (4 * (j + 1))) =
          read32 (ram s) (esp (regs s) + of_nat (4 + 4 * n - 4 * j)))"

lemma copy_arg_step:
  assumes t: "args_copied n k s t" and k: "k < n" and n: "n \<le> 1000"
  shows "args_copied n (Suc k) s (exec flag_of ra callee (copy_arg n k) t)"
proof -
  let ?sp = "esp (regs s)" and ?u = "exec flag_of ra callee (copy_arg n k) t"
  let ?v = "read32 (ram s) (?sp + of_nat (4 + 4 * n - 4 * k))"
  from t obtain w where rg: "regs t = (regs s)\<lparr>eax := w\<rparr>" "eip t = eip s" by (auto simp: args_copied_def)
  from t have above: "\<And>d. d \<le> 4 * n + 4 \<Longrightarrow>
      read32 (ram t) (?sp + of_nat d) = read32 (ram s) (?sp + of_nat d)"
    and below: "\<And>j. j < k \<Longrightarrow> read32 (ram t) (?sp - of_nat (4 * (j + 1))) =
      read32 (ram s) (?sp + of_nat (4 + 4 * n - 4 * j))"
    unfolding args_copied_def by blast+
  have off: "4 + (of_nat (4 * n) - of_nat (4 * k)) = (of_nat (4 + 4 * n - 4 * k) :: u32)"
    using k by (simp add: of_nat_diff)
  have rd: "read32 (ram t) (?sp + of_nat (4 + 4 * n - 4 * k)) = ?v" using above by simp
  have u: "?u = t\<lparr>regs := (regs t)\<lparr>eax := ?v\<rparr>, ram := write32 (ram t) (?sp - of_nat (4 * (k + 1))) ?v\<rparr>"
    using rd rg by (simp add: copy_arg_def off del: of_nat_add of_nat_mult)
  have "read32 (ram ?u) (?sp + of_nat d) = read32 (ram s) (?sp + of_nat d)" if "d \<le> 4 * n + 4" for d
    using above [OF that] read_above_write_below [of "4 * (k + 1)" d "ram t" ?sp ?v] that k n
    unfolding u by simp
  moreover have "read32 (ram ?u) (?sp - of_nat (4 * (j + 1))) = read32 (ram s) (?sp + of_nat (4 + 4 * n - 4 * j))"
    if "j < Suc k" for j
  proof (cases "j = k")
    case True
    then show ?thesis unfolding u by simp
  next
    case False
    then show ?thesis
      using below [of j] read_below_write_below [of "4 * (j + 1)" "4 * (k + 1)" "ram t" ?sp ?v] that k n
      unfolding u by simp
  qed
  ultimately show ?thesis using rg unfolding args_copied_def u by auto
qed

lemma copy_args_state:
  assumes "k \<le> n" and "n \<le> 1000"
  shows "args_copied n k s (exec flag_of ra callee (copy_args n k) s)"
  using assms(1)
proof (induction k)
  case 0
  show ?case
    by (simp add: copy_args_def args_copied_def) (rule exI [of _ "eax (regs s)"], simp)
next
  case (Suc k)
  then have "args_copied n k s (exec flag_of ra callee (copy_args n k) s)" by simp
  from copy_arg_step [OF this _ assms(2), of flag_of ra callee] Suc.prems show ?case
    by (simp add: copy_args_def)
qed

text \<open>The arguments of a C call, and the same arguments for a callee of the game.\<close>

definition c_arg :: "cpu \<Rightarrow> nat \<Rightarrow> u32" where
  "c_arg s k = read32 (ram s) (esp (regs s) + of_nat (4 + 4 * k))"

text \<open>The common beginning of \<open>ThisCall\<close> and \<open>VirtualCall\<close>.\<close>

definition thunk_prefix :: "nat \<Rightarrow> instr list" where
  "thunk_prefix n = [MOV_RM ECX ESP 4] @ copy_args n n @ [SUB_I ESP (of_nat (4 * n))]"

lemma thunk_prefix_state:
  assumes n: "n \<le> 1000"
  obtains t where "exec flag_of ra callee (thunk_prefix n) s = t" "ecx (regs t) = c_arg s 0"
    "esp (regs t) = esp (regs s) - of_nat (4 * n)" "eip t = eip s"
    "\<And>d. d \<le> 4 * n + 4 \<Longrightarrow> read32 (ram t) (esp (regs s) + of_nat d) = read32 (ram s) (esp (regs s) + of_nat d)"
    "\<And>k. k < n \<Longrightarrow> read32 (ram t) (esp (regs s) - of_nat (4 * (n - k))) = c_arg s (k + 1)"
proof -
  let ?sp = "esp (regs s)"
  let ?s1 = "s\<lparr>regs := (regs s)\<lparr>ecx := c_arg s 0\<rparr>\<rparr>"
  let ?t1 = "exec flag_of ra callee (copy_args n n) ?s1"
  let ?t = "exec flag_of ra callee (thunk_prefix n) s"
  have t: "?t = exec1 flag_of ra callee (SUB_I ESP (of_nat (4 * n))) ?t1"
    by (simp add: thunk_prefix_def c_arg_def)
  have c: "args_copied n n ?s1 ?t1" by (rule copy_args_state [OF order_refl n])
  then obtain v where rg: "regs ?t1 = (regs s)\<lparr>ecx := c_arg s 0, eax := v\<rparr>" "eip ?t1 = eip s"
    by (auto simp: args_copied_def)
  have ram: "ram ?t = ram ?t1" unfolding t by (simp add: set_flags_def Let_def)
  have arg: "read32 (ram ?t) (?sp - of_nat (4 * (n - k))) = c_arg s (k + 1)" if "k < n" for k
  proof -
    have eq: "esp (regs ?s1) = ?sp" "ram ?s1 = ram s" by simp_all
    have "\<forall>j < n. read32 (ram ?t1) (esp (regs ?s1) - of_nat (4 * (j + 1))) =
        read32 (ram ?s1) (esp (regs ?s1) + of_nat (4 + 4 * n - 4 * j))"
      using c unfolding args_copied_def by blast
    moreover have "n - 1 - k < n" using that by simp
    ultimately have "read32 (ram ?t1) (?sp - of_nat (4 * ((n - 1 - k) + 1))) =
        read32 (ram s) (?sp + of_nat (4 + 4 * n - 4 * (n - 1 - k)))"
      unfolding eq by blast
    moreover have "n - 1 - k + 1 = n - k" "4 + 4 * n - 4 * (n - 1 - k) = 4 + 4 * (k + 1)"
      using that by auto
    ultimately show ?thesis by (simp only: ram c_arg_def)
  qed
  have "ecx (regs ?t) = c_arg s 0" "esp (regs ?t) = ?sp - of_nat (4 * n)" "eip ?t = eip s"
    unfolding t by (simp_all add: set_flags_def Let_def rg)
  with that [of ?t] arg c ram show ?thesis by (auto simp: args_copied_def)
qed

text \<open>What a \<open>__thiscall\<close> function of the game promises: called with \<open>this\<close> in \<open>ecx\<close> and its
  arguments on the stack, it returns a result in \<open>eax\<close>, removes its arguments from the stack
  and does not touch the return address of the thunk.\<close>

definition thiscall_fn :: "nat \<Rightarrow> u32 \<Rightarrow> u32 \<Rightarrow> (nat \<Rightarrow> u32) \<Rightarrow> u32 \<Rightarrow> (cpu \<Rightarrow> cpu) \<Rightarrow> bool" where
  "thiscall_fn n ra obj args res fn \<longleftrightarrow>
     (\<forall>t. top32 t = ra \<and> ecx (regs t) = obj
        \<and> (\<forall>k < n. read32 (ram t) (esp (regs t) + of_nat (4 + 4 * k)) = args k) \<longrightarrow>
      esp (regs (fn t)) = esp (regs t) + of_nat (4 + 4 * n) \<and> eax (regs (fn t)) = res
        \<and> read32 (ram (fn t)) (esp (regs t) + of_nat (4 + 4 * n)) =
            read32 (ram t) (esp (regs t) + of_nat (4 + 4 * n)))"

lemma thunk_call:
  assumes n: "n \<le> 1000" and t: "esp (regs t) = sp - of_nat (4 * n)" "ecx (regs t) = obj"
    "\<And>k. k < n \<Longrightarrow> read32 (ram t) (sp - of_nat (4 * (n - k))) = args k"
    and fn: "thiscall_fn n ra obj args res (callee (get_reg EAX (regs t)))"
  shows "let u = exec flag_of ra callee [CALL_R EAX, RET] t
    in eip u = read32 (ram t) sp \<and> esp (regs u) = sp + 4 \<and> eax (regs u) = res"
proof -
  let ?c = "callee (get_reg EAX (regs t))"
  let ?t1 = "(push32 ra t)\<lparr>eip := get_reg EAX (regs t)\<rparr>"
  have sp1: "esp (regs ?t1) = sp - of_nat (4 * n + 4)" by (simp add: push32_def t diff_diff_eq)
  have ram1: "ram ?t1 = write32 (ram t) (sp - of_nat (4 * n + 4)) ra"
    by (simp add: push32_def t diff_diff_eq)
  have orig: "esp (regs ?t1) + of_nat (4 + 4 * n) = sp" unfolding sp1 by simp
  have arg: "read32 (ram ?t1) (esp (regs ?t1) + of_nat (4 + 4 * k)) = args k" if "k < n" for k
  proof -
    have eq: "esp (regs ?t1) + of_nat (4 + 4 * k) = sp - of_nat (4 * (n - k))"
      unfolding sp1 using that by (simp add: of_nat_diff algebra_simps)
    show ?thesis
      unfolding eq ram1
      using t(3) [OF that] read_below_write_below [of "4 * (n - k)" "4 * n + 4" "ram t" sp ra] that n
      by simp
  qed
  have "read32 (ram ?t1) sp = read32 (ram t) sp"
    using read_above_write_below [of "4 * n + 4" 0 "ram t" sp ra] n unfolding ram1 by simp
  moreover have "top32 ?t1 = ra" "ecx (regs ?t1) = obj" by (simp_all add: top32_def push32_def t)
  ultimately have "esp (regs (?c ?t1)) = sp" "eax (regs (?c ?t1)) = res"
    "read32 (ram (?c ?t1)) sp = read32 (ram t) sp"
    using fn arg unfolding thiscall_fn_def orig [symmetric] by metis+
  then show ?thesis by (simp add: drop32_def top32_def Let_def)
qed

text \<open>The thunk of a game member function is a C function: called with \<open>this\<close> and \<open>n\<close>
  arguments, it calls the game function with \<open>this\<close> in \<open>ecx\<close> and the same arguments in the
  same order, and returns its result to its own caller with the stack balanced.\<close>

lemma ThisCall_correct:
  assumes "n \<le> 1000"
    and "thiscall_fn n ra (c_arg s 0) (\<lambda>k. c_arg s (k + 1)) res (callee p_fn)"
  shows "let u = exec flag_of ra callee (ThisCall p_fn n) s
    in eip u = top32 s \<and> esp (regs u) = esp (regs s) + 4 \<and> eax (regs u) = res"
proof -
  obtain t where t: "exec flag_of ra callee (thunk_prefix n) s = t" "ecx (regs t) = c_arg s 0"
    "esp (regs t) = esp (regs s) - of_nat (4 * n)" "eip t = eip s"
    "\<And>d. d \<le> 4 * n + 4 \<Longrightarrow> read32 (ram t) (esp (regs s) + of_nat d) = read32 (ram s) (esp (regs s) + of_nat d)"
    "\<And>k. k < n \<Longrightarrow> read32 (ram t) (esp (regs s) - of_nat (4 * (n - k))) = c_arg s (k + 1)"
    by (rule thunk_prefix_state [OF assms(1), of flag_of ra callee s]) blast
  let ?t1 = "t\<lparr>regs := (regs t)\<lparr>eax := p_fn\<rparr>\<rparr>"
  have u: "exec flag_of ra callee (ThisCall p_fn n) s = exec flag_of ra callee [CALL_R EAX, RET] ?t1"
  proof -
    have "ThisCall p_fn n = thunk_prefix n @ [MOV_RI EAX p_fn] @ [CALL_R EAX, RET]"
      by (simp add: ThisCall_def thunk_prefix_def)
    then show ?thesis by (simp add: t(1))
  qed
  have "let u = exec flag_of ra callee [CALL_R EAX, RET] ?t1
    in eip u = read32 (ram ?t1) (esp (regs s)) \<and> esp (regs u) = esp (regs s) + 4 \<and> eax (regs u) = res"
    by (rule thunk_call [OF assms(1), where obj = "c_arg s 0" and args = "\<lambda>k. c_arg s (k + 1)"])
      (use t assms(2) in simp_all)
  then show ?thesis unfolding u using t(5) [of 0] by (simp add: top32_def)
qed

text \<open>A block of bytes that is outside of the \<open>d\<close> bytes below the stack pointer.\<close>

definition block_off :: "u32 \<Rightarrow> nat \<Rightarrow> u32 \<Rightarrow> nat \<Rightarrow> bool" where
  "block_off sp d a n \<longleftrightarrow> (\<forall>i < n. d \<le> unat (a + of_nat i - (sp - of_nat d)))"

lemma store_far:
  fixes x sp :: u32
  assumes "d \<le> unat (x - (sp - of_nat d))" and "length bs \<le> k" and "k \<le> d"
  shows "store_bytes m (sp - of_nat k) bs x = m x"
proof (rule store_bytes_other)
  have d: "d < 2 ^ 32" using assms(1) unsigned_less [of "x - (sp - of_nat d)", where 'a = nat] by simp
  have eq: "x - (sp - of_nat k) = (x - (sp - of_nat d)) - of_nat (d - k)"
    using assms(3) by (simp add: of_nat_diff)
  have u: "unat (of_nat (d - k) :: u32) = d - k" using d by (intro unat_of_nat32) simp
  have le: "of_nat (d - k) \<le> x - (sp - of_nat d)" using assms(1) u by (simp add: word_le_nat_alt)
  have "unat (x - (sp - of_nat k)) = unat (x - (sp - of_nat d)) - (d - k)" unfolding eq using unat_sub [OF le] u by simp
  then show "length bs \<le> unat (x - (sp - of_nat k))" using assms by simp
qed

lemma load_far:
  assumes "block_off sp d a n" and "length bs \<le> k" and "k \<le> d"
  shows "load_bytes (store_bytes m (sp - of_nat k) bs) a n = load_bytes m a n"
  using assms store_far unfolding load_bytes_def block_off_def by (intro map_cong) auto

text \<open>What a C function with a variable number of arguments promises: called with \<open>n\<close> bytes of arguments on the stack,
  it returns a result in \<open>eax\<close>, restores \<open>ebp\<close> and does not change the eight bytes above its arguments.\<close>

definition cdecl_fn :: "nat \<Rightarrow> u32 \<Rightarrow> vecu8 \<Rightarrow> u32 \<Rightarrow> (cpu \<Rightarrow> cpu) \<Rightarrow> bool" where
  "cdecl_fn n ra block res fn \<longleftrightarrow>
     (\<forall>t. top32 t = ra \<and> load_bytes (ram t) (esp (regs t) + 4) n = block \<longrightarrow>
      ebp (regs (fn t)) = ebp (regs t) \<and> eax (regs (fn t)) = res
        \<and> (\<forall>k < 8. ram (fn t) (esp (regs t) + 4 + of_nat (n + k)) = ram t (esp (regs t) + 4 + of_nat (n + k))))"

lemma read32_cong:
  assumes "\<And>k. k < 4 \<Longrightarrow> m (a + of_nat k) = m' (a + of_nat k)"
  shows "read32 m a = read32 m' a"
  using assms [of 0] assms [of 1] assms [of 2] assms [of 3] by (simp add: read32_def)

text \<open>The state in which the thunk for such a function calls it: the bytes are the arguments, and the saved \<open>ebp\<close> and the
  return address of the thunk are above them. The block must not be where the thunk copies it to.\<close>

lemma FastCall_entry:
  assumes n: "c_arg s 1 = of_nat n" "n \<le> 2 ^ 31" and block: "block_off (esp (regs s)) (n + 4) (c_arg s 0) n"
  obtains t where
    "exec flag_of ra callee (FastCall p_fn) s = exec flag_of ra callee [MOV_RR ESP EBP, POP_R EBP, RET] (callee p_fn t)"
    "top32 t = ra" "ebp (regs t) = esp (regs s) - 4" "esp (regs t) + 4 = esp (regs s) - 4 - of_nat n"
    "load_bytes (ram t) (esp (regs t) + 4) n = load_bytes (ram s) (c_arg s 0) n"
    "\<And>k. k < 8 \<Longrightarrow> ram t (esp (regs s) - 4 + of_nat k) =
       write32 (ram s) (esp (regs s) - 4) (ebp (regs s)) (esp (regs s) - 4 + of_nat k)"
proof -
  let ?sp = "esp (regs s)" and ?bs = "load_bytes (ram s) (c_arg s 0) n"
  let ?m1 = "write32 (ram s) (?sp - 4) (ebp (regs s))" and ?b = "?sp - 4 - of_nat n"
  let ?m2 = "store_bytes ?m1 ?b ?bs"
  let ?m3 = "write32 ?m2 (?b - 4) ra"
  let ?t = "s\<lparr>ram := ?m3, regs := (regs s)\<lparr>esi := c_arg s 0 + of_nat n, ecx := 0, ebp := ?sp - 4, esp := ?b - 4,
    edi := ?b + of_nat n, eax := p_fn, eflags := flag_of ?b\<rparr>, eip := p_fn\<rparr>"
  let ?pre = "[MOV_RM ESI ESP 4, MOV_RM ECX ESP 8, PUSH_R EBP, MOV_RR EBP ESP, SUB_RR ESP ECX, MOV_RR EDI ESP,
    REP_MOVSB, MOV_RI EAX p_fn]"
  have un: "unat (of_nat n :: u32) = n" using n(2) by (intro unat_of_nat32) simp
  have load1: "load_bytes ?m1 (c_arg s 0) n = ?bs"
    using load_far [OF block, of "le32 (ebp (regs s))" 4] by (simp add: write32_def)
  have args: "read32 (ram s) (?sp + 4) = c_arg s 0" "read32 (ram s) (?sp + 8) = of_nat n"
    using n(1) by (simp_all add: c_arg_def)
  have "(push32 ra (exec flag_of ra callee ?pre s))\<lparr>eip := p_fn\<rparr> = ?t"
    by (intro cpu.equality X86Regs.equality) (simp_all add: args push32_def set_flags_def Let_def un load1)
  moreover have "eax (regs (exec flag_of ra callee ?pre s)) = p_fn" by simp
  ultimately have "exec flag_of ra callee (?pre @ [CALL_R EAX]) s = callee p_fn ?t" by simp
  moreover have "FastCall p_fn = (?pre @ [CALL_R EAX]) @ [MOV_RR ESP EBP, POP_R EBP, RET]" by (simp add: FastCall_def)
  ultimately have run: "exec flag_of ra callee (FastCall p_fn) s =
      exec flag_of ra callee [MOV_RR ESP EBP, POP_R EBP, RET] (callee p_fn ?t)" by (simp only: exec_append)
  have above: "?m3 (?sp - 4 + of_nat k) = ?m1 (?sp - 4 + of_nat k)" if "k < 8" for k
  proof -
    have "?sp - 4 + of_nat k - (?b - 4) = of_nat (n + 4 + k)" "?sp - 4 + of_nat k - ?b = of_nat (n + k)" by simp_all
    then show ?thesis
      using n(2) that by (simp add: write32_def store_bytes_other unat_of_nat32 del: of_nat_add)
  qed
  have "?m3 (?b + of_nat i) = ?m2 (?b + of_nat i)" if "i < n" for i
  proof -
    have "?b + of_nat i - (?b - 4) = of_nat (4 + i)" by simp
    then show ?thesis using n(2) that by (simp add: write32_def store_bytes_other unat_of_nat32 del: of_nat_add)
  qed
  then have "load_bytes ?m3 ?b n = load_bytes ?m2 ?b n" by (simp add: load_bytes_def)
  also have "\<dots> = ?bs" using load_store_bytes [of ?bs ?m1 ?b] n(2) by simp
  finally have copied: "load_bytes ?m3 ?b n = ?bs" .
  have b: "esp (regs ?t) + 4 = ?b" by simp
  have ld: "load_bytes (ram ?t) (esp (regs ?t) + 4) n = ?bs" unfolding b using copied by simp
  have t: "top32 ?t = ra" "ebp (regs ?t) = ?sp - 4" "ram ?t = ?m3" by (simp_all add: top32_def)
  show thesis
    by (rule that [of ?t, OF run t(1,2) b ld], unfold t(3)) (rule above)
qed

text \<open>The thunk, called with the address of a block of bytes and its size: the function gets the bytes as its
  arguments, and its result is returned with the stack balanced and \<open>ebp\<close> as before.\<close>

lemma FastCall_correct:
  assumes n: "c_arg s 1 = of_nat n" "n \<le> 2 ^ 31" and block: "block_off (esp (regs s)) (n + 4) (c_arg s 0) n"
    and fn: "cdecl_fn n ra (load_bytes (ram s) (c_arg s 0) n) res (callee p_fn)"
  shows "let u = exec flag_of ra callee (FastCall p_fn) s
    in eip u = top32 s \<and> esp (regs u) = esp (regs s) + 4 \<and> eax (regs u) = res \<and> ebp (regs u) = ebp (regs s)"
proof -
  let ?sp = "esp (regs s)" and ?m1 = "write32 (ram s) (esp (regs s) - 4) (ebp (regs s))"
  obtain t where
    run: "exec flag_of ra callee (FastCall p_fn) s = exec flag_of ra callee [MOV_RR ESP EBP, POP_R EBP, RET] (callee p_fn t)"
    and t: "top32 t = ra" "ebp (regs t) = ?sp - 4" "esp (regs t) + 4 = ?sp - 4 - of_nat n"
    and bs: "load_bytes (ram t) (esp (regs t) + 4) n = load_bytes (ram s) (c_arg s 0) n"
    and m: "\<And>k. k < 8 \<Longrightarrow> ram t (?sp - 4 + of_nat k) = ?m1 (?sp - 4 + of_nat k)"
    by (rule FastCall_entry [OF n block, of flag_of ra callee p_fn]) blast
  let ?u = "callee p_fn t"
  have "?sp - 4 + of_nat k = esp (regs t) + 4 + of_nat (n + k)" for k unfolding t(3) by simp
  with fn t(1,2) bs have u: "ebp (regs ?u) = ?sp - 4" "eax (regs ?u) = res"
    "\<And>k. k < 8 \<Longrightarrow> ram ?u (?sp - 4 + of_nat k) = ram t (?sp - 4 + of_nat k)"
    unfolding cdecl_fn_def by metis+
  have kept: "ram ?u (?sp - 4 + of_nat k) = ?m1 (?sp - 4 + of_nat k)" if "k < 8" for k
    using u(3) [OF that] m [OF that] by simp
  have "read32 (ram ?u) (?sp - 4) = ebp (regs s)"
    using read32_cong [of "ram ?u" "?sp - 4" ?m1] kept by simp
  moreover have "ram ?u (?sp + of_nat k) = ram s (?sp + of_nat k)" if "k < 4" for k
  proof -
    have "?sp + of_nat k - (?sp - 4) = of_nat (4 + k)" by simp
    then have "?m1 (?sp + of_nat k) = ram s (?sp + of_nat k)"
      using that by (simp add: write32_def store_bytes_other unat_of_nat32 del: of_nat_add)
    then show ?thesis using kept [of "4 + k"] that by simp
  qed
  then have "read32 (ram ?u) ?sp = top32 s" unfolding top32_def by (rule read32_cong)
  ultimately show ?thesis
    unfolding run using u(1,2) by (simp add: pop_reg_def drop32_def top32_def Let_def)
qed

text \<open>\<open>FastCall\<close> does not restore \<open>esi\<close> and \<open>edi\<close>, which a C function has to preserve.\<close>

lemma FastCall_changes_esi:
  assumes "\<And>t. regs (callee p_fn t) = (regs t)\<lparr>esp := esp (regs t) + 4\<rparr>"
  shows "esi (regs (exec flag_of ra callee (FastCall p_fn) s)) = c_arg s 0 + read32 (ram s) (esp (regs s) + 8)"
  using assms
  by (simp add: FastCall_def c_arg_def push32_def set_flags_def drop32_def pop_reg_def top32_def Let_def)

text \<open>A thunk is generated once.\<close>

lemma get_function_cached:
  assumes "get_function g a n st = (st1, c)"
  shows "get_function g a n st1 = (st1, c)" and "\<And>b. b \<noteq> a \<Longrightarrow> st1 b = st b"
  using assms
  by (auto simp: get_function_def find_codegen_def add_entry_def map_at_def split: option.splits outcome.splits)

end
