(* ===== verification/Map_Parser.thy ===== *)
theory Map_Parser
  imports Game_State Game_ABI
begin

unbundle bit_operations_syntax

text \<open>
  \<^verbatim>\<open>src/src/ra2/state_parser.cpp\<close>: reading the map. \<open>parse_map\<close> compares the cells of the game with
  the cells of the last frame, in chunks of 128, and reports the changed ones; \<open>update_MapData\<close>
  of \<^verbatim>\<open>src/src/hooks_yr.cpp\<close> applies the report to the copy of the map that clients see.

  The cells of the game are addressed by pointers; \<open>cm\<close> gives the contents of the cell at an
  address. Comparing two cells byte by byte is comparing the records: the padding byte of the
  structure is never written, so it is the same on both sides.
\<close>

section \<open>Cells\<close>

record CellClass =
  cc_X :: int
  cc_Y :: int
  cc_RadLevel :: rat
  cc_LandType :: int
  cc_Height :: int
  cc_Level :: int
  cc_OverlayData :: int
  cc_AltFlags :: "32 word"
  cc_Passability :: u32
  cc_FirstObject :: u32
  cc_WallOwnerIndex :: int
  cc_OverlayTypeIndex :: int

record Cell =
  land_type :: int
  overlay_data :: int
  tiberium_value :: int
  radiation_level :: rat
  passability :: u32
  index :: int
  shrouded :: bool
  height :: int
  level :: int
  first_object :: u32
  wall_owner_index :: int
  overlay_type_index :: int

text \<open>A value-initialised \<open>Cell\<close>.\<close>

definition Cell_zero :: Cell where
  "Cell_zero =
     \<lparr>land_type = 0, overlay_data = 0, tiberium_value = 0, radiation_level = 0, passability = 0, index = 0,
      shrouded = False, height = 0, level = 0, first_object = 0, wall_owner_index = 0,
      overlay_type_index = 0\<rparr>"

definition copy_to :: "Cell \<Rightarrow> CellMsg \<Rightarrow> CellMsg" where
  "copy_to src dst =
     (let d1 = dst\<lparr>c_land_type := land_type src, c_radiation_level := radiation_level src,
                   c_height := height src, c_level := level src, c_overlay_data := overlay_data src,
                   c_tiberium_value := tiberium_value src, c_shrouded := shrouded src,
                   c_passability := passability src, c_index := index src\<rparr>;
          d2 = (if first_object src \<noteq> 0 then d1\<lparr>c_objects := [first_object src]\<rparr> else d1)
      in d2\<lparr>c_wall_owner_index := wall_owner_index src, c_overlay_type_index := overlay_type_index src\<rparr>)"

record bounds =
  b_Right :: int
  b_Bottom :: int

text \<open>The world a cell is read from: the overlay and tiberium tables of the game and the number
  of the land type \<open>LAND_TYPE_Tiberium\<close>.\<close>

record tib_tables =
  overlay_tib :: "bool list"
  tibs :: "Tiberium list"
  land_tiberium :: int

definition parse_Cell :: "tib_tables \<Rightarrow> int \<Rightarrow> CellClass \<Rightarrow> Cell outcome" where
  "parse_Cell tt ix cc =
     obind (if cc_LandType cc = land_tiberium tt
            then get_tiberium_value (overlay_tib tt) (tibs tt) (cc_OverlayTypeIndex cc) (cc_OverlayData cc)
            else Return 0)
       (\<lambda>tv. Return
          \<lparr>land_type = cc_LandType cc, overlay_data = cc_OverlayData cc, tiberium_value = tv,
           radiation_level = cc_RadLevel cc, passability = cc_Passability cc, index = ix,
           shrouded = ((cc_AltFlags cc AND 0x8) = 0), height = cc_Height cc, level = cc_Level cc,
           first_object = cc_FirstObject cc, wall_owner_index = cc_WallOwnerIndex cc,
           overlay_type_index = cc_OverlayTypeIndex cc\<rparr>)"

text \<open>\<open>get_valid_cells\<close>: row by row; \<open>try_get\<close> is \<open>TryGetCellAt\<close>.\<close>

definition get_valid_cells :: "(int \<Rightarrow> int \<Rightarrow> u32 option) \<Rightarrow> bounds \<Rightarrow> u32 list" where
  "get_valid_cells try_get L =
     concat (map (\<lambda>j. concat (map (\<lambda>i.
         case try_get (to_i16 i) (to_i16 j) of None \<Rightarrow> [] | Some c \<Rightarrow> [c])
       [0..b_Right L])) [0..b_Bottom L])"

definition cell_index :: "bounds \<Rightarrow> CellClass \<Rightarrow> int" where
  "cell_index L cc = (b_Right L + 1) * cc_Y cc + cc_X cc"

definition parse_cells :: "tib_tables \<Rightarrow> (u32 \<Rightarrow> CellClass) \<Rightarrow> bounds \<Rightarrow> u32 list \<Rightarrow> Cell list outcome" where
  "parse_cells tt cm L src = omap (\<lambda>p. parse_Cell tt (cell_index L (cm p)) (cm p)) src"

text \<open>Compare a run of cells with the previous ones; the result is the new previous cells and the
  extended report.\<close>

fun update_modified_cells ::
  "Cell list \<Rightarrow> Cell list \<Rightarrow> CellMsg list \<Rightarrow> Cell list \<times> CellMsg list"
where
  "update_modified_cells (C # Cs) (P # Ps) difference =
     (if C \<noteq> P
      then (case update_modified_cells Cs Ps (difference @ [copy_to C CellMsg_default]) of
              (Ps', d) \<Rightarrow> (C # Ps', d))
      else (case update_modified_cells Cs Ps difference of (Ps', d) \<Rightarrow> (P # Ps', d)))"
| "update_modified_cells _ Ps difference = (Ps, difference)"

definition apply_cell_stride ::
  "tib_tables \<Rightarrow> (u32 \<Rightarrow> CellClass) \<Rightarrow> bounds \<Rightarrow> nat \<Rightarrow> u32 list \<Rightarrow> Cell list \<Rightarrow> CellMsg list
     \<Rightarrow> (Cell list \<times> CellMsg list) outcome"
where
  "apply_cell_stride tt cm L n cells previous difference =
     obind (parse_cells tt cm L (take n cells)) (\<lambda>buf.
       if buf \<noteq> take n previous
       then (case update_modified_cells buf (take n previous) difference of
               (Ps, d) \<Rightarrow> Return (Ps @ drop n previous, d))
       else Return (previous, difference))"

definition chunk :: nat where
  "chunk = 128"

text \<open>The two loops of \<open>parse_map\<close>: \<open>k\<close> full chunks, then the rest. The previous cells must be at
  least as many as the cells.\<close>

fun map_chunks ::
  "tib_tables \<Rightarrow> (u32 \<Rightarrow> CellClass) \<Rightarrow> bounds \<Rightarrow> nat \<Rightarrow> u32 list \<Rightarrow> Cell list \<Rightarrow> CellMsg list
     \<Rightarrow> (Cell list \<times> CellMsg list) outcome"
where
  "map_chunks tt cm L 0 cells previous difference =
     (if cells = [] then Return (previous, difference)
      else apply_cell_stride tt cm L (min chunk (length cells)) cells previous difference)"
| "map_chunks tt cm L (Suc k) cells previous difference =
     obind (apply_cell_stride tt cm L chunk (take chunk cells) (take chunk previous) difference) (\<lambda>(Ps, d).
     obind (map_chunks tt cm L k (drop chunk cells) (drop chunk previous) d) (\<lambda>(Qs, d').
       Return (Ps @ Qs, d')))"

text \<open>\<open>parse_map\<close>; \<open>valid\<close> is its static vector of cell pointers, filled by the first call.\<close>

definition parse_map ::
  "(int \<Rightarrow> int \<Rightarrow> u32 option) \<Rightarrow> tib_tables \<Rightarrow> (u32 \<Rightarrow> CellClass) \<Rightarrow> bounds \<Rightarrow> u32 list \<Rightarrow> Cell list
     \<Rightarrow> CellMsg list \<Rightarrow> (u32 list \<times> Cell list \<times> CellMsg list) outcome"
where
  "parse_map try_get tt cm L valid previous difference =
     (let cells = (if valid = [] then get_valid_cells try_get L else valid); sz = length cells
      in if length previous < sz then Undefined
         else obind (map_chunks tt cm L (sz div chunk) cells previous difference) (\<lambda>(Ps, d).
                Return (cells, Ps, d)))"

section \<open>The copy of the map\<close>

text \<open>\<open>update_MapData\<close>; \<open>at\<close> with an index out of range aborts the process.\<close>

fun update_MapData :: "CellMsg list \<Rightarrow> CellMsg list \<Rightarrow> CellMsg list outcome" where
  "update_MapData cells [] = Return cells"
| "update_MapData cells (c # cs) =
     (if 0 \<le> c_index c \<and> nat (c_index c) < length cells
      then update_MapData (cells[nat (c_index c) := c]) cs
      else Undefined)"

text \<open>\<open>parse_MapData\<close>: the first copy, of all positions. \<open>shroud\<close> and \<open>tibv\<close> are the functions of
  the game that report shroud and tiberium.\<close>

definition map_cell ::
  "tib_tables \<Rightarrow> (u32 \<Rightarrow> bool) \<Rightarrow> (u32 \<Rightarrow> int) \<Rightarrow> u32 \<Rightarrow> CellClass \<Rightarrow> CellMsg \<Rightarrow> CellMsg"
where
  "map_cell tt shroud tibv p cc c =
     (let c1 = c\<lparr>c_land_type := cc_LandType cc, c_height := cc_Height cc, c_level := cc_Level cc,
                 c_radiation_level := cc_RadLevel cc, c_overlay_data := cc_OverlayData cc\<rparr>;
          c2 = (if cc_FirstObject cc \<noteq> 0 then c1\<lparr>c_objects := [cc_FirstObject cc]\<rparr> else c1);
          c3 = (if c_land_type c2 = land_tiberium tt then c2\<lparr>c_tiberium_value := tibv p\<rparr> else c2)
      in c3\<lparr>c_shrouded := shroud p, c_passability := cc_Passability cc,
            c_wall_owner_index := cc_WallOwnerIndex cc, c_overlay_type_index := cc_OverlayTypeIndex cc\<rparr>)"

definition map_positions :: "bounds \<Rightarrow> (int \<times> int) list" where
  "map_positions L = concat (map (\<lambda>j. map (\<lambda>i. (i, j)) [0..b_Right L]) [0..b_Bottom L])"

fun fill_cells ::
  "(int \<Rightarrow> int \<Rightarrow> u32 option) \<Rightarrow> (u32 \<Rightarrow> CellClass \<Rightarrow> CellMsg \<Rightarrow> CellMsg) \<Rightarrow> (u32 \<Rightarrow> CellClass) \<Rightarrow> bounds
     \<Rightarrow> (int \<times> int) list \<Rightarrow> CellMsg list \<Rightarrow> CellMsg list outcome"
where
  "fill_cells try_get mc cm L [] m = Return m"
| "fill_cells try_get mc cm L ((i, j) # ps) m =
     (case try_get (to_i16 i) (to_i16 j) of
        None \<Rightarrow> fill_cells try_get mc cm L ps m
      | Some p \<Rightarrow>
          (let ix = (b_Right L + 1) * j + i
           in if 0 \<le> ix \<and> nat ix < length m
              then fill_cells try_get mc cm L ps (m[nat ix := mc p (cm p) (m ! nat ix)])
              else Undefined))"

definition parse_MapData ::
  "(int \<Rightarrow> int \<Rightarrow> u32 option) \<Rightarrow> tib_tables \<Rightarrow> (u32 \<Rightarrow> bool) \<Rightarrow> (u32 \<Rightarrow> int) \<Rightarrow> (u32 \<Rightarrow> CellClass) \<Rightarrow> bounds
     \<Rightarrow> MapData \<Rightarrow> MapData outcome"
where
  "parse_MapData try_get tt shroud tibv cm L dst =
     (let sz = (b_Right L + 1) * (b_Bottom L + 1);
          m = (if int (length (md_cells dst)) \<noteq> sz
               then fill_repeated_empty CellMsg_default (nat sz) (md_cells dst) else md_cells dst)
      in obind (fill_cells try_get (map_cell tt shroud tibv) cm L (map_positions L) m) (\<lambda>cs.
           Return \<lparr>md_width = b_Right L + 1, md_height = b_Bottom L + 1, md_cells = cs\<rparr>))"

section \<open>The chunked comparison is the comparison of all cells\<close>

text \<open>What a comparison of all cells at once would report.\<close>

definition cell_changes :: "Cell list \<Rightarrow> Cell list \<Rightarrow> CellMsg list" where
  "cell_changes Cs Ps = map (\<lambda>(c, p). copy_to c CellMsg_default) (filter (\<lambda>(c, p). c \<noteq> p) (zip Cs Ps))"

lemma cell_changes_simps [simp]:
  "cell_changes [] Ps = []"
  "cell_changes Cs [] = []"
  "cell_changes (C # Cs) (P # Ps) =
     (if C \<noteq> P then copy_to C CellMsg_default # cell_changes Cs Ps else cell_changes Cs Ps)"
  by (simp_all add: cell_changes_def)

lemma cell_changes_append:
  "length Cs = length Ps \<Longrightarrow> cell_changes (Cs @ Ds) (Ps @ Qs) = cell_changes Cs Ps @ cell_changes Ds Qs"
  by (simp add: cell_changes_def)

lemma cell_changes_same [simp]: "cell_changes Cs Cs = []"
  by (induction Cs) simp_all

lemma cell_changes_take: "cell_changes Cs (take (length Cs) Ps) = cell_changes Cs Ps"
proof (induction Cs arbitrary: Ps)
  case (Cons C Cs)
  then show ?case by (cases Ps) simp_all
qed simp

lemma update_modified_cells_eq:
  "length Cs = length Ps \<Longrightarrow> update_modified_cells Cs Ps d = (Cs, d @ cell_changes Cs Ps)"
  by (induction Cs Ps d rule: update_modified_cells.induct) auto

lemma cell_stride_eq:
  assumes "omap f xs = Return Cs"
    and "f = (\<lambda>p. parse_Cell tt (cell_index L (cm p)) (cm p))"
    and "n = length xs" and "n \<le> length Ps"
  shows "apply_cell_stride tt cm L n xs Ps d = Return (Cs @ drop n Ps, d @ cell_changes Cs Ps)"
proof -
  have len: "length Cs = n"
    using assms(1,3) by (auto dest: omap_length)
  have chg: "cell_changes Cs Ps = cell_changes Cs (take n Ps)"
    using cell_changes_take [of Cs Ps] len by simp
  show ?thesis
    using assms len chg
    by (auto simp: apply_cell_stride_def parse_cells_def update_modified_cells_eq)
qed

lemma map_chunks_eq:
  assumes "\<forall>p \<in> set cells. parse_Cell tt (cell_index L (cm p)) (cm p) = Return (pc p)"
    and "length cells \<le> length Ps" and "k = length cells div chunk"
  shows "map_chunks tt cm L k cells Ps d
           = Return (map pc cells @ drop (length cells) Ps, d @ cell_changes (map pc cells) Ps)"
  using assms
proof (induction k arbitrary: cells Ps d)
  case 0
  let ?f = "\<lambda>p. parse_Cell tt (cell_index L (cm p)) (cm p)"
  have "length cells < chunk"
    using "0.prems"(3) by (simp add: chunk_def)
  then have "min chunk (length cells) = length cells" by simp
  then show ?case
    using "0.prems"(2) cell_stride_eq [OF omap_Return [OF "0.prems"(1)] refl refl "0.prems"(2)]
    by simp
next
  case (Suc k)
  let ?a = "take chunk cells" and ?b = "drop chunk cells"
  have n: "chunk \<le> length cells"
    using Suc.prems(3) by (simp add: chunk_def)
  have pa: "\<forall>p \<in> set ?a. parse_Cell tt (cell_index L (cm p)) (cm p) = Return (pc p)"
    and pb: "\<forall>p \<in> set ?b. parse_Cell tt (cell_index L (cm p)) (cm p) = Return (pc p)"
    using Suc.prems(1) by (auto dest: in_set_takeD in_set_dropD)
  have kb: "k = length ?b div chunk"
    using Suc.prems(3) n by (simp add: chunk_def)
  have lens: "chunk = length ?a" "chunk \<le> length (take chunk Ps)" "length ?b \<le> length (drop chunk Ps)"
    using n Suc.prems(2) by simp_all
  have "apply_cell_stride tt cm L chunk ?a (take chunk Ps) d
          = Return (map pc ?a, d @ cell_changes (map pc ?a) (take chunk Ps))"
    using cell_stride_eq [OF omap_Return [OF pa] refl lens(1,2)] by simp
  moreover have "map pc cells = map pc ?a @ map pc ?b"
    by (simp add: map_append [symmetric] del: map_append)
  moreover have "cell_changes (map pc ?a @ map pc ?b) (take chunk Ps @ drop chunk Ps)
                   = cell_changes (map pc ?a) (take chunk Ps) @ cell_changes (map pc ?b) (drop chunk Ps)"
    using lens n by (intro cell_changes_append) simp
  moreover have "drop (length ?b) (drop chunk Ps) = drop (length cells) Ps"
    using n by simp
  ultimately show ?case
    using Suc.IH [OF pb lens(3) kb] by simp
qed

text \<open>C8: the chunked comparison of \<open>parse_map\<close> computes what one comparison of all cells would. When
  every valid cell can be parsed and there are enough previous cells, the previous cells become the
  parsed ones, and the report is extended by exactly the cells that differ from the previous frame,
  in the order of the cells.\<close>

theorem parse_map_reports_changes:
  assumes "cells = (if valid = [] then get_valid_cells try_get L else valid)"
    and "\<forall>p \<in> set cells. parse_Cell tt (cell_index L (cm p)) (cm p) = Return (pc p)"
    and "length cells \<le> length previous"
  shows "parse_map try_get tt cm L valid previous difference
           = Return (cells, map pc cells @ drop (length cells) previous,
                     difference @ cell_changes (map pc cells) previous)"
  using map_chunks_eq [OF assms(2,3) refl] assms(1,3)
  by (simp add: parse_map_def Let_def)

text \<open>A map of two cells, whose second cell becomes shrouded and gets an object.\<close>

definition demo_bounds :: bounds where
  "demo_bounds = \<lparr>b_Right = 1, b_Bottom = 0\<rparr>"

definition demo_try_get :: "int \<Rightarrow> int \<Rightarrow> u32 option" where
  "demo_try_get i j = (if i = 0 then Some 0x100 else if i = 1 then Some 0x200 else None)"

definition demo_tib :: tib_tables where
  "demo_tib = \<lparr>overlay_tib = [], tibs = [], land_tiberium = 4\<rparr>"

definition demo_cc :: "int \<Rightarrow> u32 \<Rightarrow> CellClass" where
  "demo_cc x ob =
     \<lparr>cc_X = x, cc_Y = 0, cc_RadLevel = 0, cc_LandType = 1, cc_Height = 2, cc_Level = 3,
      cc_OverlayData = 0, cc_AltFlags = (if ob = 0 then 8 else 0), cc_Passability = 0, cc_FirstObject = ob,
      cc_WallOwnerIndex = -1, cc_OverlayTypeIndex = -1\<rparr>"

definition demo_cm :: "u32 \<Rightarrow> u32 \<Rightarrow> CellClass" where
  "demo_cm ob p = (if p = 0x100 then demo_cc 0 0 else demo_cc 1 ob)"

definition demo_cell :: "int \<Rightarrow> u32 \<Rightarrow> Cell" where
  "demo_cell x ob =
     \<lparr>land_type = 1, overlay_data = 0, tiberium_value = 0, radiation_level = 0, passability = 0,
      index = x, shrouded = (ob \<noteq> 0), height = 2, level = 3, first_object = ob,
      wall_owner_index = -1, overlay_type_index = -1\<rparr>"

definition demo_pc :: "u32 \<Rightarrow> u32 \<Rightarrow> Cell" where
  "demo_pc ob p = (if p = 0x100 then demo_cell 0 0 else demo_cell 1 ob)"

lemmas demo_map = demo_bounds_def demo_try_get_def demo_tib_def demo_cc_def demo_cm_def demo_cell_def
  demo_pc_def

lemma demo_valid_cells: "get_valid_cells demo_try_get demo_bounds = [0x100, 0x200]"
  by (simp add: get_valid_cells_def demo_bounds_def demo_try_get_def to_i16_def upto_rec1)

lemma demo_parse: "p \<in> {0x100, 0x200} \<Longrightarrow>
  cell_index demo_bounds (demo_cm ob p) = (if p = 0x100 then 0 else 1)
  \<and> parse_Cell demo_tib (if p = 0x100 then 0 else 1) (demo_cm ob p) = Return (demo_pc ob p)"
  by (auto simp: demo_map cell_index_def parse_Cell_def)

theorem parse_map_reports_changes_witness:
  "parse_map demo_try_get demo_tib (demo_cm 0x900) demo_bounds [] [demo_cell 0 0, demo_cell 1 0, Cell_zero] []
     = Return ([0x100, 0x200], [demo_cell 0 0, demo_cell 1 0x900, Cell_zero],
               [copy_to (demo_cell 1 0x900) CellMsg_default])"
proof -
  have "\<forall>p \<in> set [0x100, 0x200]. parse_Cell demo_tib (cell_index demo_bounds (demo_cm 0x900 p)) (demo_cm 0x900 p)
          = Return (demo_pc 0x900 p)"
    using demo_parse [of _ "0x900"] by simp
  from parse_map_reports_changes [of "[0x100, 0x200]" "[]" demo_try_get demo_bounds, OF _ this,
      of "[demo_cell 0 0, demo_cell 1 0, Cell_zero]" "[]"]
  show ?thesis
    by (simp add: demo_valid_cells demo_pc_def demo_cell_def)
qed

section \<open>The copy of the map follows the game\<close>

text \<open>The cells seen so far are in the copy: an entry of the previous cells is either still the
  initial value or the copy shows it.\<close>

definition mirrors :: "(u32 \<Rightarrow> int) \<Rightarrow> u32 list \<Rightarrow> Cell list \<Rightarrow> CellMsg list \<Rightarrow> bool" where
  "mirrors ix cells Ps m \<longleftrightarrow>
     (\<forall>k < length cells. Ps ! k = Cell_zero \<or> m ! nat (ix (cells ! k)) = copy_to (Ps ! k) CellMsg_default)"

definition indices_ok :: "(u32 \<Rightarrow> int) \<Rightarrow> u32 list \<Rightarrow> nat \<Rightarrow> bool" where
  "indices_ok ix cells n \<longleftrightarrow>
     distinct (map ix cells) \<and> (\<forall>p \<in> set cells. 0 \<le> ix p \<and> nat (ix p) < n)"

lemma index_copy [simp]: "c_index (copy_to c d) = index c"
  by (simp add: copy_to_def Let_def)

lemma update_MapData_keeps_length:
  "update_MapData m cs = Return m' \<Longrightarrow> length m' = length m"
  by (induction cs arbitrary: m) (auto split: if_splits)

text \<open>Applying the changes of a list of cells with distinct indices.\<close>

lemma update_MapData_changes:
  assumes "\<forall>p \<in> set cells. index (pc p) = ix p" and "indices_ok ix cells (length m)"
    and "length cells \<le> length Ps"
  shows "\<exists>m'. update_MapData m (cell_changes (map pc cells) Ps) = Return m' \<and> length m' = length m
           \<and> (\<forall>k < length cells. m' ! nat (ix (cells ! k)) =
                (if pc (cells ! k) \<noteq> Ps ! k then copy_to (pc (cells ! k)) CellMsg_default
                 else m ! nat (ix (cells ! k))))
           \<and> (\<forall>i. (\<forall>p \<in> set cells. nat (ix p) \<noteq> i) \<longrightarrow> m' ! i = m ! i)"
  using assms
proof (induction cells arbitrary: Ps m)
  case Nil
  then show ?case by simp
next
  case (Cons p cells)
  obtain P Qs where Ps: "Ps = P # Qs"
    using Cons.prems(3) by (cases Ps) auto
  define m1 where "m1 = (if pc p \<noteq> P then m[nat (ix p) := copy_to (pc p) CellMsg_default] else m)"
  have rng: "0 \<le> ix p" "nat (ix p) < length m"
    using Cons.prems(2) by (auto simp: indices_ok_def)
  have step: "update_MapData m (cell_changes (map pc (p # cells)) Ps)
                = update_MapData m1 (cell_changes (map pc cells) Qs)"
    using Cons.prems(1) rng by (simp add: Ps m1_def)
  have idx: "\<forall>q \<in> set cells. index (pc q) = ix q" "indices_ok ix cells (length m1)"
    "length cells \<le> length Qs"
    using Cons.prems by (auto simp: indices_ok_def m1_def Ps)
  have apart: "nat (ix q) \<noteq> nat (ix p)" if "q \<in> set cells" for q
    using that Cons.prems(2) by (auto simp: indices_ok_def nat_eq_iff rev_image_eqI)
  from Cons.IH [OF idx] obtain m' where
    m': "update_MapData m1 (cell_changes (map pc cells) Qs) = Return m'" "length m' = length m1"
    and upd: "\<forall>k < length cells. m' ! nat (ix (cells ! k)) =
                (if pc (cells ! k) \<noteq> Qs ! k then copy_to (pc (cells ! k)) CellMsg_default
                 else m1 ! nat (ix (cells ! k)))"
    and keep: "\<forall>i. (\<forall>q \<in> set cells. nat (ix q) \<noteq> i) \<longrightarrow> m' ! i = m1 ! i"
    by blast
  have head: "m' ! nat (ix p) = m1 ! nat (ix p)"
    using keep apart by blast
  have tail: "m1 ! nat (ix (cells ! k)) = m ! nat (ix (cells ! k))" if "k < length cells" for k
    using apart [of "cells ! k"] that by (simp add: m1_def)
  have cases: "m' ! nat (ix ((p # cells) ! k)) =
      (if pc ((p # cells) ! k) \<noteq> Ps ! k then copy_to (pc ((p # cells) ! k)) CellMsg_default
       else m ! nat (ix ((p # cells) ! k)))" if "k < length (p # cells)" for k
    using that upd head tail rng by (cases k) (auto simp: Ps m1_def)
  have rest: "m' ! i = m ! i" if "\<forall>q \<in> set (p # cells). nat (ix q) \<noteq> i" for i
    using that keep by (auto simp: m1_def)
  show ?case
    using step m' cases rest by (intro exI [of _ m']) (simp add: m1_def)
qed

text \<open>One frame: the comparison, then the update of the copy. \<open>cm\<close> is the state of the cells in that
  frame.\<close>

definition map_frame ::
  "(int \<Rightarrow> int \<Rightarrow> u32 option) \<Rightarrow> tib_tables \<Rightarrow> bounds \<Rightarrow> (u32 \<Rightarrow> CellClass)
     \<Rightarrow> u32 list \<times> Cell list \<times> CellMsg list \<Rightarrow> (u32 list \<times> Cell list \<times> CellMsg list) outcome"
where
  "map_frame try_get tt L cm = (\<lambda>(valid, Ps, m).
     obind (parse_map try_get tt cm L valid Ps []) (\<lambda>(valid', Ps', d).
     obind (update_MapData m d) (\<lambda>m'. Return (valid', Ps', m'))))"

fun map_frames ::
  "(int \<Rightarrow> int \<Rightarrow> u32 option) \<Rightarrow> tib_tables \<Rightarrow> bounds \<Rightarrow> (u32 \<Rightarrow> CellClass) list
     \<Rightarrow> u32 list \<times> Cell list \<times> CellMsg list \<Rightarrow> (u32 list \<times> Cell list \<times> CellMsg list) outcome"
where
  "map_frames try_get tt L [] s = Return s"
| "map_frames try_get tt L (cm # cms) s = obind (map_frame try_get tt L cm s) (map_frames try_get tt L cms)"

text \<open>The cells can be read in a frame, at the positions \<open>ix\<close>.\<close>

definition frame_ok ::
  "tib_tables \<Rightarrow> bounds \<Rightarrow> (u32 \<Rightarrow> int) \<Rightarrow> u32 list \<Rightarrow> (u32 \<Rightarrow> CellClass) \<Rightarrow> (u32 \<Rightarrow> Cell) \<Rightarrow> bool"
where
  "frame_ok tt L ix cells cm pc \<longleftrightarrow>
     (\<forall>p \<in> set cells. cell_index L (cm p) = ix p \<and> parse_Cell tt (ix p) (cm p) = Return (pc p))"

lemma parse_Cell_index: "parse_Cell tt i cc = Return c \<Longrightarrow> index c = i"
  by (auto simp: parse_Cell_def)

lemma map_frame_mirrors:
  assumes "frame_ok tt L ix cells cm pc" and "indices_ok ix cells (length m)"
    and "cells = (if valid = [] then get_valid_cells try_get L else valid)"
    and "length cells \<le> length Ps" and "mirrors ix cells Ps m"
  shows "\<exists>m'. map_frame try_get tt L cm (valid, Ps, m)
                = Return (cells, map pc cells @ drop (length cells) Ps, m')
           \<and> length m' = length m \<and> mirrors ix cells (map pc cells @ drop (length cells) Ps) m'"
proof -
  have pcs: "\<forall>p \<in> set cells. parse_Cell tt (cell_index L (cm p)) (cm p) = Return (pc p)"
    using assms(1) by (simp add: frame_ok_def)
  have ixs: "\<forall>p \<in> set cells. index (pc p) = ix p"
    using assms(1) by (auto simp: frame_ok_def dest: parse_Cell_index)
  have pm: "parse_map try_get tt cm L valid Ps []
              = Return (cells, map pc cells @ drop (length cells) Ps, cell_changes (map pc cells) Ps)"
    using map_chunks_eq [OF pcs assms(4) refl] assms(3,4) by (simp add: parse_map_def Let_def)
  obtain m' where m': "update_MapData m (cell_changes (map pc cells) Ps) = Return m'" "length m' = length m"
    and upd: "\<forall>k < length cells. m' ! nat (ix (cells ! k)) =
                (if pc (cells ! k) \<noteq> Ps ! k then copy_to (pc (cells ! k)) CellMsg_default
                 else m ! nat (ix (cells ! k)))"
    using update_MapData_changes [OF ixs assms(2,4)] by blast
  have "mirrors ix cells (map pc cells @ drop (length cells) Ps) m'"
    using upd assms(5) by (auto simp: mirrors_def nth_append)
  then show ?thesis
    using pm m' by (intro exI [of _ m']) (simp add: map_frame_def)
qed

lemma map_frames_mirror:
  assumes "\<forall>cm \<in> set cms. \<exists>pc. frame_ok tt L ix cells cm pc" and "indices_ok ix cells (length m)"
    and "cells = (if valid = [] then get_valid_cells try_get L else valid)" and "cells \<noteq> []"
    and "length cells \<le> length Ps" and "mirrors ix cells Ps m"
  shows "\<exists>valid' Ps' m'. map_frames try_get tt L cms (valid, Ps, m) = Return (valid', Ps', m')
           \<and> length Ps' = length Ps \<and> length m' = length m \<and> mirrors ix cells Ps' m'
           \<and> cells = (if valid' = [] then get_valid_cells try_get L else valid')"
  using assms
proof (induction cms arbitrary: valid Ps m)
  case Nil
  then show ?case by simp
next
  case (Cons cm cms)
  from Cons.prems(1) obtain pc where "frame_ok tt L ix cells cm pc"
    by auto
  from map_frame_mirrors [OF this Cons.prems(2,3,5,6)] obtain m1 where
    m1: "map_frame try_get tt L cm (valid, Ps, m) = Return (cells, map pc cells @ drop (length cells) Ps, m1)"
      "length m1 = length m" "mirrors ix cells (map pc cells @ drop (length cells) Ps) m1"
    by blast
  have len: "length (map pc cells @ drop (length cells) Ps) = length Ps"
    using Cons.prems(5) by simp
  have pre: "\<forall>cm \<in> set cms. \<exists>pc. frame_ok tt L ix cells cm pc" "indices_ok ix cells (length m1)"
    "cells = (if cells = [] then get_valid_cells try_get L else cells)"
    "length cells \<le> length (map pc cells @ drop (length cells) Ps)"
    using Cons.prems(1,2,4,5) m1(2) by auto
  from Cons.IH [OF pre(1-3) Cons.prems(4) pre(4) m1(3)] show ?case
    using m1(1,2) len by auto
qed

lemma map_frames_append:
  "map_frames try_get tt L (cms @ [cm]) s = obind (map_frames try_get tt L cms s) (map_frame try_get tt L cm)"
proof (induction cms arbitrary: s)
  case Nil
  have "map_frames try_get tt L [] = Return" by (simp add: fun_eq_iff)
  then show ?case by simp
next
  case (Cons c cms)
  then have "map_frames try_get tt L (cms @ [cm])
               = (\<lambda>s. obind (map_frames try_get tt L cms s) (map_frame try_get tt L cm))"
    by (simp add: fun_eq_iff)
  then show ?case by (simp add: obind_assoc)
qed

text \<open>C11: the copy of the map that clients read follows the game. Start with value-initialised previous
  cells and run any number of frames in which the valid cells can be read, keep their distinct positions
  and lie inside the copy. No frame fails, and after the last one every valid cell that is not still a
  value-initialised one is shown in the copy exactly as the game has it in that frame.\<close>

theorem map_copy_follows_game:
  assumes "\<forall>cm' \<in> set cms. \<exists>pc'. frame_ok tt L ix cells cm' pc'" and "frame_ok tt L ix cells cm pc"
    and "indices_ok ix cells (length m)" and "cells = get_valid_cells try_get L" and "cells \<noteq> []"
    and "length cells \<le> n"
  shows "\<exists>Ps m'. map_frames try_get tt L (cms @ [cm]) ([], replicate n Cell_zero, m) = Return (cells, Ps, m')
           \<and> length m' = length m
           \<and> (\<forall>p \<in> set cells. pc p \<noteq> Cell_zero \<longrightarrow> m' ! nat (ix p) = copy_to (pc p) CellMsg_default)"
proof -
  have init: "mirrors ix cells (replicate n Cell_zero) m"
    using assms(6) by (simp add: mirrors_def)
  have val: "cells = (if ([] :: u32 list) = [] then get_valid_cells try_get L else [])"
    and len: "length cells \<le> length (replicate n Cell_zero)"
    using assms(4,6) by simp_all
  from map_frames_mirror [OF assms(1,3) val assms(5) len init] obtain valid1 Ps1 m1 where
    one: "map_frames try_get tt L cms ([], replicate n Cell_zero, m) = Return (valid1, Ps1, m1)"
      "length Ps1 = n" "length m1 = length m" "mirrors ix cells Ps1 m1"
      "cells = (if valid1 = [] then get_valid_cells try_get L else valid1)"
    by auto
  have pre: "indices_ok ix cells (length m1)" "length cells \<le> length Ps1"
    using assms(3,6) one(2,3) by simp_all
  from map_frame_mirrors [OF assms(2) pre(1) one(5) pre(2) one(4)] obtain m2 where
    two: "map_frame try_get tt L cm (valid1, Ps1, m1) = Return (cells, map pc cells @ drop (length cells) Ps1, m2)"
      "length m2 = length m1" "mirrors ix cells (map pc cells @ drop (length cells) Ps1) m2"
    by blast
  have "\<forall>p \<in> set cells. pc p \<noteq> Cell_zero \<longrightarrow> m2 ! nat (ix p) = copy_to (pc p) CellMsg_default"
    using two(3) by (auto simp: mirrors_def in_set_conv_nth nth_append)
  then show ?thesis
    using one two by (simp add: map_frames_append)
qed

theorem map_copy_follows_game_witness:
  "\<exists>Ps m'. map_frames demo_try_get demo_tib demo_bounds [demo_cm 0, demo_cm 0x900]
             ([], replicate 2 Cell_zero, [CellMsg_default, CellMsg_default]) = Return ([0x100, 0x200], Ps, m')
     \<and> length m' = 2 \<and> m' ! 0 = copy_to (demo_cell 0 0) CellMsg_default
     \<and> m' ! 1 = copy_to (demo_cell 1 0x900) CellMsg_default"
proof -
  define ix :: "u32 \<Rightarrow> int" where "ix p = (if p = 0x100 then 0 else 1)" for p
  have fr: "frame_ok demo_tib demo_bounds ix [0x100, 0x200] (demo_cm ob) (demo_pc ob)" for ob
    using demo_parse [of _ ob] by (simp add: frame_ok_def ix_def)
  have ok: "indices_ok ix [0x100, 0x200] (length [CellMsg_default, CellMsg_default])"
    by (simp add: indices_ok_def ix_def)
  have all: "\<forall>cm' \<in> set [demo_cm 0]. \<exists>pc'. frame_ok demo_tib demo_bounds ix [0x100, 0x200] cm' pc'"
    using fr by auto
  have side: "[0x100, 0x200 :: u32] \<noteq> []" "length [0x100, 0x200 :: u32] \<le> 2"
    by simp_all
  from map_copy_follows_game [OF all fr [of "0x900"] ok demo_valid_cells [symmetric] side]
  obtain Ps m' where
    run: "map_frames demo_try_get demo_tib demo_bounds ([demo_cm 0] @ [demo_cm 0x900])
            ([], replicate 2 Cell_zero, [CellMsg_default, CellMsg_default]) = Return ([0x100, 0x200], Ps, m')"
    and len: "length m' = length [CellMsg_default, CellMsg_default]"
    and shown: "\<forall>p \<in> set [0x100, 0x200]. demo_pc 0x900 p \<noteq> Cell_zero
                  \<longrightarrow> m' ! nat (ix p) = copy_to (demo_pc 0x900 p) CellMsg_default"
    by blast
  have "demo_cell 0 0 \<noteq> Cell_zero" "demo_cell 1 0x900 \<noteq> Cell_zero"
    by (simp_all add: demo_cell_def Cell_zero_def)
  then have "m' ! 0 = copy_to (demo_cell 0 0) CellMsg_default"
    "m' ! 1 = copy_to (demo_cell 1 0x900) CellMsg_default"
    using shown by (simp_all add: ix_def demo_pc_def)
  then show ?thesis
    using run len by (intro exI [of _ Ps] exI [of _ m']) (simp del: map_frames.simps)
qed

end
