(* ===== verification/Save_State.thy ===== *)
theory Save_State
  imports Callbacks Map_Parser Event_List
begin

text \<open>
  \<^verbatim>\<open>src/src/hooks_yr.cpp\<close>, the callbacks that run in the game: saving the state of a frame
  (\<open>CBSaveState\<close>), the load progress, the network tunnel, and the wrapper \<open>CBYR::do_call\<close>.

  The game of one frame is a record of what the parsers read. A frame either completes or ends with
  an exception; what an exception leaves behind is not described.
\<close>

section \<open>One frame\<close>

record frame_input =
  fi_types :: "type_object list"
  fi_prereq :: PrerequisiteGroups
  fi_crc :: u32
  fi_frame :: u32
  fi_tech :: int
  fi_houses :: "house_object list"
  fi_technos :: "game_object list"
  fi_factories :: "factory_object list"
  fi_lists :: event_lists
  fi_num :: "EventType \<Rightarrow> nat"
  fi_try_get :: "int \<Rightarrow> int \<Rightarrow> u32 option"
  fi_tib :: tib_tables
  fi_shroud :: "u32 \<Rightarrow> bool"
  fi_tibv :: "u32 \<Rightarrow> int"
  fi_cells :: "u32 \<Rightarrow> CellClass"
  fi_bounds :: bounds

text \<open>The members of \<open>CBSaveState\<close>, and the static list of valid cells of \<open>parse_map\<close>.\<close>

record save_state =
  ss_cells :: "Cell list"
  ss_valid :: "u32 list"
  ss_initialized :: bool

definition save_state_new :: save_state where
  "save_state_new = \<lparr>ss_cells = [], ss_valid = [], ss_initialized = False\<rparr>"

definition no_prereq :: PrerequisiteGroups where
  "no_prereq = \<lparr>pg_proc = [], pg_tech = [], pg_radar = [], pg_barracks = [], pg_factory = [], pg_power = []\<rparr>"

text \<open>The type classes are parsed into the initial state and copied to the state of the frame.\<close>

definition save_types :: "bool \<Rightarrow> frame_input \<Rightarrow> StorageValue \<Rightarrow> StorageValue outcome" where
  "save_types do_type_classes I sv =
     (let g = (sv_game_state sv)\<lparr>load_progresses := sv_load_state sv, object_types := [], prereq_groups := no_prereq\<rparr>;
          init = sv_initial_game_state sv
      in if do_type_classes
         then obind (parse_AbstractTypeClasses (fi_types I) (object_types init)) (\<lambda>ts.
                let pg = parse_prerequisiteGroups (fi_prereq I) (prereq_groups init)
                in Return (sv\<lparr>sv_initial_game_state := init\<lparr>object_types := ts, prereq_groups := pg\<rparr>,
                              sv_game_state := g\<lparr>object_types := ts, prereq_groups := pg\<rparr>\<rparr>))
         else Return (sv\<lparr>sv_game_state := g\<rparr>))"

definition save_objects :: "frame_input \<Rightarrow> GameState \<Rightarrow> GameState outcome" where
  "save_objects I g =
     (let g1 = g\<lparr>crc := fi_crc I, current_frame := fi_frame I, tech_level := fi_tech I\<rparr>
      in obind (parse_HouseClasses (fi_houses I) g1) (\<lambda>g2.
         obind (parse_Objects (fi_technos I) g2) (\<lambda>g3.
         obind (parse_Factories (fi_factories I) (factories g3)) (\<lambda>fs.
           Return (g3\<lparr>factories := fs, stage := STAGE_INGAME\<rparr>)))))"

text \<open>The map: the first copy, the previous cells, and the comparison when the frame number is a
  multiple of the configured interval.\<close>

definition init_map :: "frame_input \<Rightarrow> StorageValue \<Rightarrow> StorageValue outcome" where
  "init_map I sv =
     (if current_frame (sv_game_state sv) > 0 \<and> md_cells (sv_map_data sv) = []
      then obind (parse_MapData (fi_try_get I) (fi_tib I) (fi_shroud I) (fi_tibv I) (fi_cells I) (fi_bounds I)
                    (sv_map_data sv)) (\<lambda>md. Return (sv\<lparr>sv_map_data := md\<rparr>))
      else Return sv)"

definition init_cells :: "frame_input \<Rightarrow> GameState \<Rightarrow> save_state \<Rightarrow> save_state" where
  "init_cells I g ss =
     (if ss_cells ss = [] \<and> current_frame g > 0
      then ss\<lparr>ss_cells := replicate (length (get_valid_cells (fi_try_get I) (fi_bounds I))) Cell_zero\<rparr>
      else ss)"

definition save_map ::
  "Configuration \<Rightarrow> frame_input \<Rightarrow> StorageValue \<times> save_state \<Rightarrow> (StorageValue \<times> save_state) outcome"
where
  "save_map cfg I s =
     (case s of (sv, ss) \<Rightarrow>
        let g = sv_game_state sv
        in if ss_cells ss = [] then Return (sv, ss)
           else if cf_parse_map_data_interval cfg = 0 then Undefined
           else if current_frame g mod cf_parse_map_data_interval cfg = 0
           then obind (parse_map (fi_try_get I) (fi_tib I) (fi_cells I) (fi_bounds I) (ss_valid ss) (ss_cells ss) [])
                  (\<lambda>(valid, cells, diff).
                obind (update_MapData (md_cells (sv_map_data sv)) diff) (\<lambda>md.
                  Return (sv\<lparr>sv_game_state := g\<lparr>cells_difference := diff\<rparr>,
                             sv_map_data := (sv_map_data sv)\<lparr>md_cells := md\<rparr>\<rparr>,
                          ss\<lparr>ss_valid := valid, ss_cells := cells\<rparr>)))
           else Return (sv, ss))"

definition save_initial :: "StorageValue \<times> save_state \<Rightarrow> StorageValue \<times> save_state" where
  "save_initial s =
     (case s of (sv, ss) \<Rightarrow>
        if ss_initialized ss then (sv, ss)
        else (sv\<lparr>sv_initial_game_state := sv_game_state sv\<rparr>, ss\<lparr>ss_initialized := True\<rparr>))"

definition state_to_protobuf ::
  "Configuration \<Rightarrow> bool \<Rightarrow> frame_input \<Rightarrow> StorageValue \<times> save_state \<Rightarrow> (StorageValue \<times> save_state) outcome"
where
  "state_to_protobuf cfg do_type_classes I s =
     (case s of (sv, ss) \<Rightarrow>
        obind (save_types do_type_classes I sv) (\<lambda>sv1.
        obind (save_objects I (sv_game_state sv1)) (\<lambda>g.
        obind (init_map I (sv1\<lparr>sv_game_state := g\<rparr>)) (\<lambda>sv2.
        obind (save_map cfg I (sv2, init_cells I g ss)) (\<lambda>s3.
          case save_initial s3 of (sv4, ss4) \<Rightarrow>
            obind (parse_EventLists (fi_num I) (fi_lists I) EVENT_BUFFER_SIZE (sv_game_state sv4) (sv_event_buffer sv4))
              (\<lambda>(g5, es). Return (sv4\<lparr>sv_game_state := g5, sv_event_buffer := es\<rparr>, ss4)))))))"

text \<open>\<open>CBSaveState::exec\<close>: the type classes are parsed when there are none yet. The saved state is then
  pushed to the worker that writes it to the record file.\<close>

definition save_state_exec ::
  "Configuration \<Rightarrow> frame_input \<Rightarrow> StorageValue \<times> save_state \<Rightarrow> (StorageValue \<times> save_state) outcome"
where
  "save_state_exec cfg I s =
     state_to_protobuf cfg (object_types (sv_initial_game_state (fst s)) = []) I s"

fun save_frames ::
  "Configuration \<Rightarrow> frame_input list \<Rightarrow> StorageValue \<times> save_state \<Rightarrow> (StorageValue \<times> save_state) outcome"
where
  "save_frames cfg [] s = Return s"
| "save_frames cfg (I # Is) s = obind (save_state_exec cfg I s) (save_frames cfg Is)"

section \<open>Other callbacks\<close>

text \<open>\<open>CBUpdateLoadProgress\<close>: \<open>sizeof(*B) / sizeof(B)\<close> is the size of a \<open>double\<close> divided by the size of
  a pointer, on the 32-bit target 2, whatever the length of the array.\<close>

definition progress_count :: nat where
  "progress_count = 8 div 4"

fun copy_progresses :: "rat list \<Rightarrow> nat \<Rightarrow> nat \<Rightarrow> rat list \<Rightarrow> rat list outcome" where
  "copy_progresses B i 0 ps = Return ps"
| "copy_progresses B i (Suc n) ps =
     (if i < length B then copy_progresses B (Suc i) n (ps[i := B ! i]) else Undefined)"

definition update_load_progress :: "rat list \<Rightarrow> StorageValue \<Rightarrow> StorageValue outcome" where
  "update_load_progress B sv =
     (let ps = (if sv_load_state sv = [] then replicate progress_count 0 else sv_load_state sv)
      in obind (copy_progresses B 0 (length ps) ps) (\<lambda>ps'.
           Return (sv\<lparr>sv_load_state := ps', sv_game_state := (sv_game_state sv)\<lparr>stage := STAGE_LOADING\<rparr>\<rparr>)))"

record TunnelPacket =
  tp_source :: u32
  tp_destination :: u32
  tp_data :: "u8 list"

record packet_buffer =
  pb_data :: u32
  pb_size :: int
  pb_source :: u32
  pb_destination :: u32

definition recvfrom_buffer :: "X86Regs \<Rightarrow> packet_buffer" where
  "recvfrom_buffer r = \<lparr>pb_data = ebp r + 0x3f074, pb_size = sint (esi r), pb_source = 1, pb_destination = 0\<rparr>"

definition sendto_buffer :: "X86Regs \<Rightarrow> packet_buffer" where
  "sendto_buffer r = \<lparr>pb_data = ecx r, pb_size = sint (eax r), pb_source = 0, pb_destination = 1\<rparr>"

text \<open>\<open>CBTunnel::exec\<close>: \<open>wr\<close> is the message stream; a failed write throws.\<close>

definition write_packet ::
  "('o \<Rightarrow> TunnelPacket \<Rightarrow> 'o \<times> bool) \<Rightarrow> string \<Rightarrow> TunnelPacket \<Rightarrow> 'o \<Rightarrow> 'o \<times> unit outcome"
where
  "write_packet wr nm P out =
     (case wr out P of
        (out', ok) \<Rightarrow> (out', if ok then Return () else Raise (runtime_error (nm @ '' write_packet failed''))))"

definition tunnel_exec ::
  "('o \<Rightarrow> TunnelPacket \<Rightarrow> 'o \<times> bool) \<Rightarrow> string \<Rightarrow> mem \<Rightarrow> packet_buffer \<Rightarrow> 'o \<Rightarrow> 'o \<times> unit outcome"
where
  "tunnel_exec wr nm m b out =
     (if pb_size b > 0
      then write_packet wr nm \<lparr>tp_source = pb_source b, tp_destination = pb_destination b,
             tp_data = load_bytes m (pb_data b) (nat (pb_size b))\<rparr> out
      else (out, Return ()))"

text \<open>\<open>CBYR::do_call\<close>: the recursive lock of the storage is held while \<open>exec\<close> runs, and released also
  when it throws a standard exception.\<close>

record 's locked =
  lk_depth :: nat
  lk_state :: 's

definition lock_storage :: "'s locked \<Rightarrow> 's locked" where
  "lock_storage s = s\<lparr>lk_depth := Suc (lk_depth s)\<rparr>"

definition unlock_storage :: "'s locked \<Rightarrow> 's locked outcome" where
  "unlock_storage s = (if lk_depth s = 0 then Undefined else Return (s\<lparr>lk_depth := lk_depth s - 1\<rparr>))"

definition do_call :: "('s locked \<Rightarrow> 's locked \<times> unit outcome) \<Rightarrow> 's locked \<Rightarrow> 's locked outcome" where
  "do_call run s =
     (case run (lock_storage s) of
        (s1, Undefined) \<Rightarrow> Undefined
      | (s1, _) \<Rightarrow> unlock_storage s1)"

section \<open>Every frame is saved\<close>

text \<open>The game of a frame can be read: every object reports its class or throws an exception, the event
  lists are rings, the type classes report their class, and the valid cells of the map can be
  parsed and have distinct positions inside the map.\<close>

definition map_size :: "bounds \<Rightarrow> nat" where
  "map_size L = nat ((b_Right L + 1) * (b_Bottom L + 1))"

definition map_ok :: "frame_input \<Rightarrow> bool" where
  "map_ok I \<longleftrightarrow> 0 \<le> b_Right (fi_bounds I) \<and> 0 \<le> b_Bottom (fi_bounds I)
     \<and> (let cells = get_valid_cells (fi_try_get I) (fi_bounds I); ix = (\<lambda>p. cell_index (fi_bounds I) (fi_cells I p))
        in (\<exists>pc. frame_ok (fi_tib I) (fi_bounds I) ix cells (fi_cells I) pc) \<and> indices_ok ix cells (map_size (fi_bounds I)))"

definition game_ok :: "frame_input \<Rightarrow> bool" where
  "game_ok I \<longleftrightarrow> (\<forall>P \<in> set (fi_technos I). tame P) \<and> (\<forall>P \<in> set (fi_types I). \<exists>t. t_what P = Return t)
     \<and> wf_ctx (gl_OutList (fi_lists I)) \<and> wf_ctx (gl_DoList (fi_lists I)) \<and> wf_ctx (gl_MegaMissionList (fi_lists I))
     \<and> map_ok I"

text \<open>The stored copy of the map and the previous cells belong to the map of the game.\<close>

definition storage_ok :: "(int \<Rightarrow> int \<Rightarrow> u32 option) \<Rightarrow> bounds \<Rightarrow> StorageValue \<times> save_state \<Rightarrow> bool" where
  "storage_ok try_get L s \<longleftrightarrow>
     (case s of (sv, ss) \<Rightarrow>
        (ss_valid ss = [] \<or> ss_valid ss = get_valid_cells try_get L)
        \<and> (length (md_cells (sv_map_data sv)) = map_size L \<or> md_cells (sv_map_data sv) = [] \<and> ss_cells ss = [])
        \<and> (ss_cells ss = [] \<or> length (ss_cells ss) = length (get_valid_cells try_get L))
        \<and> history_ok EVENT_BUFFER_SIZE (sv_event_buffer sv))"

definition describes_frame :: "frame_input \<Rightarrow> GameState \<Rightarrow> bool" where
  "describes_frame I g \<longleftrightarrow>
     houses g = map (\<lambda>s. parse_HouseClass s House_default) (fi_houses I)
     \<and> list_all2 describes (objects g) (filter parse_ok (fi_technos I))
     \<and> map f_object (factories g) = map fo_Object (fi_factories I)
     \<and> crc g = fi_crc I \<and> current_frame g = fi_frame I \<and> tech_level g = fi_tech I \<and> stage g = STAGE_INGAME"

definition reports_events :: "frame_input \<Rightarrow> GameState \<Rightarrow> bool" where
  "reports_events I g \<longleftrightarrow> list_reports (out_list g) (gl_OutList (fi_lists I))
     \<and> list_reports (do_list g) (gl_DoList (fi_lists I))
     \<and> list_reports (megamission_list g) (gl_MegaMissionList (fi_lists I))"

lemma describes_frame_events [simp]:
  "describes_frame I (g\<lparr>out_list := a, do_list := b, megamission_list := c\<rparr>) = describes_frame I g"
  "describes_frame I (g\<lparr>cells_difference := d\<rparr>) = describes_frame I g"
  by (simp_all add: describes_frame_def)

lemma save_types_ok:
  assumes "\<forall>P \<in> set (fi_types I). \<exists>t. t_what P = Return t"
  obtains sv1 where "save_types b I sv = Return sv1" "sv_map_data sv1 = sv_map_data sv"
    "sv_event_buffer sv1 = sv_event_buffer sv" "\<not> b \<Longrightarrow> sv_initial_game_state sv1 = sv_initial_game_state sv"
    "b \<Longrightarrow> fi_types I \<noteq> [] \<Longrightarrow> object_types (sv_game_state sv1) \<noteq> []"
proof (cases b)
  case True
  have "parse_AbstractTypeClasses (fi_types I) T
      = Return (map2 TC_of (fi_types I) (init_arrays ObjectTypeClass_default (length (fi_types I)) T))" for T
    unfolding parse_AbstractTypeClasses_def by (rule type_parser.parse_array [OF assms])
  moreover have "map2 TC_of (fi_types I) (init_arrays ObjectTypeClass_default (length (fi_types I)) T) = []
      \<longleftrightarrow> fi_types I = []" for T
    by (auto simp: zip_eq_Nil_iff) (metis length_0_conv length_init_arrays)
  ultimately show ?thesis
    using that True by (auto simp: save_types_def Let_def)
qed (use that in \<open>simp add: save_types_def Let_def\<close>)

lemma save_objects_ok:
  assumes "\<forall>P \<in> set (fi_technos I). tame P"
  obtains g' where "save_objects I g = Return g'" "describes_frame I g'" "object_types g' = object_types g"
proof -
  let ?g1 = "g\<lparr>crc := fi_crc I, current_frame := fi_frame I, tech_level := fi_tech I\<rparr>"
  let ?g2 = "?g1\<lparr>houses := map (\<lambda>s. parse_HouseClass s House_default) (fi_houses I)\<rparr>"
  obtain H where H: "parse_Objects (fi_technos I) ?g2 = Return (?g2\<lparr>objects := H\<rparr>)"
    "list_all2 describes H (filter parse_ok (fi_technos I))"
    using parse_Objects_describes [OF assms, of ?g2] by blast
  show ?thesis
    using that H
    by (simp add: save_objects_def Let_def parse_HouseClasses_exact parse_Factories_exact describes_frame_def comp_def)
qed

lemma fill_cells_ok:
  assumes "\<forall>(i, j) \<in> set ps. 0 \<le> (b_Right L + 1) * j + i \<and> nat ((b_Right L + 1) * j + i) < length m"
  shows "\<exists>m'. fill_cells try_get mc cm L ps m = Return m' \<and> length m' = length m"
  using assms by (induction try_get mc cm L ps m rule: fill_cells.induct) (auto simp: Let_def split: option.splits)

lemma map_positions_in:
  assumes "(i, j) \<in> set (map_positions L)"
  shows "0 \<le> (b_Right L + 1) * j + i \<and> nat ((b_Right L + 1) * j + i) < map_size L"
proof -
  have ij: "0 \<le> i" "i \<le> b_Right L" "0 \<le> j" "j \<le> b_Bottom L"
    using assms by (auto simp: map_positions_def)
  then have "(b_Right L + 1) * j + i < (b_Right L + 1) * (j + 1)" by (simp add: algebra_simps)
  also have "\<dots> \<le> (b_Right L + 1) * (b_Bottom L + 1)" using ij by (intro mult_left_mono) auto
  finally show ?thesis using ij by (simp add: map_size_def)
qed

lemma parse_MapData_ok:
  assumes "0 \<le> b_Right L" and "0 \<le> b_Bottom L" and "md_cells md = []"
  obtains md' where "parse_MapData try_get tt shroud tibv cm L md = Return md'" "length (md_cells md') = map_size L"
proof -
  let ?sz = "(b_Right L + 1) * (b_Bottom L + 1)"
  have "0 < ?sz" using assms(1,2) by simp
  then have "length (fill_repeated_empty CellMsg_default (nat ?sz) ([] :: CellMsg list)) = map_size L" "?sz \<noteq> 0"
    using assms(1,2) by (simp_all add: map_size_def)
  then show ?thesis
    using that fill_cells_ok [of "map_positions L" L "fill_repeated_empty CellMsg_default (nat ?sz) []" try_get
        "map_cell tt shroud tibv" cm] map_positions_in [of _ _ L] assms(3)
    by (fastforce simp: parse_MapData_def Let_def)
qed

lemma init_map_ok:
  assumes "map_ok I"
  obtains md where "init_map I sv = Return (sv\<lparr>sv_map_data := md\<rparr>)"
    "current_frame (sv_game_state sv) > 0 \<and> md_cells (sv_map_data sv) = [] \<longrightarrow> length (md_cells md) = map_size (fi_bounds I)"
    "\<not> (current_frame (sv_game_state sv) > 0 \<and> md_cells (sv_map_data sv) = []) \<longrightarrow> md = sv_map_data sv"
proof (cases "current_frame (sv_game_state sv) > 0 \<and> md_cells (sv_map_data sv) = []")
  case True
  obtain md where "parse_MapData (fi_try_get I) (fi_tib I) (fi_shroud I) (fi_tibv I) (fi_cells I) (fi_bounds I)
      (sv_map_data sv) = Return md" "length (md_cells md) = map_size (fi_bounds I)"
    by (rule parse_MapData_ok [OF _ _ conjunct2 [OF True]]) (use assms in \<open>auto simp: map_ok_def\<close>)
  then show ?thesis using that [of md] True by (simp add: init_map_def)
next
  case False
  then show ?thesis using that [of "sv_map_data sv"] by (auto simp: init_map_def)
qed

lemma same_storage:
  "sv\<lparr>sv_game_state := (sv_game_state sv)\<lparr>cells_difference := cells_difference (sv_game_state sv)\<rparr>,
      sv_map_data := (sv_map_data sv)\<lparr>md_cells := md_cells (sv_map_data sv)\<rparr>\<rparr> = sv"
  by (intro StorageValue.equality GameState.equality MapData.equality) simp_all

lemma save_map_ok:
  assumes "map_ok I" and "cf_parse_map_data_interval cfg \<noteq> 0"
    and "ss_valid ss = [] \<or> ss_valid ss = get_valid_cells (fi_try_get I) (fi_bounds I)"
    and "ss_cells ss \<noteq> [] \<Longrightarrow> length (md_cells (sv_map_data sv)) = map_size (fi_bounds I)
           \<and> length (ss_cells ss) = length (get_valid_cells (fi_try_get I) (fi_bounds I))"
  obtains diff md ss' where "save_map cfg I (sv, ss)
      = Return (sv\<lparr>sv_game_state := (sv_game_state sv)\<lparr>cells_difference := diff\<rparr>,
                  sv_map_data := (sv_map_data sv)\<lparr>md_cells := md\<rparr>\<rparr>, ss')"
    "length md = length (md_cells (sv_map_data sv))" "length (ss_cells ss') = length (ss_cells ss)"
    "ss_valid ss' = [] \<or> ss_valid ss' = get_valid_cells (fi_try_get I) (fi_bounds I)"
    "ss_initialized ss' = ss_initialized ss"
proof (cases "ss_cells ss \<noteq> [] \<and> current_frame (sv_game_state sv) mod cf_parse_map_data_interval cfg = 0")
  case False
  then show ?thesis
    using that [where diff = "cells_difference (sv_game_state sv)" and md = "md_cells (sv_map_data sv)" and ss' = ss] assms(2,3)
    by (auto simp: save_map_def Let_def same_storage)
next
  case True
  define cells where "cells = get_valid_cells (fi_try_get I) (fi_bounds I)"
  define ix where "ix = (\<lambda>p. cell_index (fi_bounds I) (fi_cells I p))"
  have len: "length (md_cells (sv_map_data sv)) = map_size (fi_bounds I)" "length (ss_cells ss) = length cells"
    using assms(4) True by (auto simp: cells_def)
  obtain pc where fr: "frame_ok (fi_tib I) (fi_bounds I) ix cells (fi_cells I) pc"
    and io: "indices_ok ix cells (length (md_cells (sv_map_data sv)))"
    using assms(1) len(1) by (auto simp: map_ok_def Let_def ix_def cells_def)
  have pcs: "\<forall>p \<in> set cells. parse_Cell (fi_tib I) (cell_index (fi_bounds I) (fi_cells I p)) (fi_cells I p) = Return (pc p)"
    and ixs: "\<forall>p \<in> set cells. index (pc p) = ix p"
    using fr by (auto simp: frame_ok_def ix_def dest: parse_Cell_index)
  have le: "length cells \<le> length (ss_cells ss)" using len(2) by simp
  have v: "(if ss_valid ss = [] then get_valid_cells (fi_try_get I) (fi_bounds I) else ss_valid ss) = cells"
    using assms(3) by (auto simp: cells_def)
  have pm: "parse_map (fi_try_get I) (fi_tib I) (fi_cells I) (fi_bounds I) (ss_valid ss) (ss_cells ss) []
      = Return (cells, map pc cells @ drop (length cells) (ss_cells ss), cell_changes (map pc cells) (ss_cells ss))"
    using map_chunks_eq [OF pcs le refl] le by (simp add: parse_map_def Let_def v)
  obtain md where md: "update_MapData (md_cells (sv_map_data sv)) (cell_changes (map pc cells) (ss_cells ss)) = Return md"
    "length md = length (md_cells (sv_map_data sv))"
    using update_MapData_changes [OF ixs io le] by blast
  show ?thesis
    using that [where diff = "cell_changes (map pc cells) (ss_cells ss)" and md = md
        and ss' = "ss\<lparr>ss_valid := cells, ss_cells := map pc cells @ drop (length cells) (ss_cells ss)\<rparr>"]
      True assms(2) pm md len(2) by (simp add: save_map_def Let_def cells_def)
qed

text \<open>The initial state is fixed by the first frame.\<close>

definition initial_fixed :: "StorageValue \<times> save_state \<Rightarrow> bool" where
  "initial_fixed s \<longleftrightarrow> ss_initialized (snd s) \<and> object_types (sv_initial_game_state (fst s)) \<noteq> []"

text \<open>The initial state is the state of the frame, copied before the events of the frame are added.\<close>

definition copies_frame :: "frame_input \<Rightarrow> GameState \<Rightarrow> GameState \<Rightarrow> bool" where
  "copies_frame I init g \<longleftrightarrow> describes_frame I init \<and>
     g\<lparr>out_list := [], do_list := [], megamission_list := []\<rparr> = init\<lparr>out_list := [], do_list := [], megamission_list := []\<rparr>"

lemma save_exec_ok:
  assumes "game_ok I" and "storage_ok (fi_try_get I) (fi_bounds I) s" and "cf_parse_map_data_interval cfg \<noteq> 0"
  obtains s' where "save_state_exec cfg I s = Return s'" "storage_ok (fi_try_get I) (fi_bounds I) s'"
    "describes_frame I (sv_game_state (fst s'))" "reports_events I (sv_game_state (fst s'))"
    "initial_fixed s \<Longrightarrow> sv_initial_game_state (fst s') = sv_initial_game_state (fst s)"
    "initial_fixed s \<or> fi_types I \<noteq> [] \<and> object_types (sv_initial_game_state (fst s)) = [] \<and> \<not> ss_initialized (snd s)
       \<Longrightarrow> initial_fixed s'"
    "\<not> ss_initialized (snd s) \<Longrightarrow> copies_frame I (sv_initial_game_state (fst s')) (sv_game_state (fst s'))"
proof -
  obtain sv ss where s: "s = (sv, ss)" by fastforce
  let ?b = "object_types (sv_initial_game_state sv) = []"
  have ok: "\<forall>P \<in> set (fi_technos I). tame P" "\<forall>P \<in> set (fi_types I). \<exists>t. t_what P = Return t" "map_ok I"
    using assms(1) by (simp_all add: game_ok_def)
  obtain sv1 where t: "save_types ?b I sv = Return sv1" "sv_map_data sv1 = sv_map_data sv"
    "sv_event_buffer sv1 = sv_event_buffer sv" "\<not> ?b \<Longrightarrow> sv_initial_game_state sv1 = sv_initial_game_state sv"
    "?b \<Longrightarrow> fi_types I \<noteq> [] \<Longrightarrow> object_types (sv_game_state sv1) \<noteq> []"
    using save_types_ok [OF ok(2)] by blast
  obtain g where g: "save_objects I (sv_game_state sv1) = Return g" "describes_frame I g"
    "object_types g = object_types (sv_game_state sv1)"
    by (rule save_objects_ok [OF ok(1)])
  let ?svg = "sv1\<lparr>sv_game_state := g\<rparr>"
  obtain md where m0: "init_map I ?svg = Return (?svg\<lparr>sv_map_data := md\<rparr>)"
    "current_frame (sv_game_state ?svg) > 0 \<and> md_cells (sv_map_data ?svg) = [] \<longrightarrow> length (md_cells md) = map_size (fi_bounds I)"
    "\<not> (current_frame (sv_game_state ?svg) > 0 \<and> md_cells (sv_map_data ?svg) = []) \<longrightarrow> md = sv_map_data ?svg"
    by (rule init_map_ok [OF ok(3), where sv = ?svg])
  have m: "init_map I ?svg = Return (?svg\<lparr>sv_map_data := md\<rparr>)"
    "current_frame g > 0 \<and> md_cells (sv_map_data sv) = [] \<Longrightarrow> length (md_cells md) = map_size (fi_bounds I)"
    "\<not> (current_frame g > 0 \<and> md_cells (sv_map_data sv) = []) \<Longrightarrow> md = sv_map_data sv"
    using m0 t(2) by simp_all
  let ?sv2 = "?svg\<lparr>sv_map_data := md\<rparr>" and ?ss = "init_cells I g ss"
  have st: "ss_valid ss = [] \<or> ss_valid ss = get_valid_cells (fi_try_get I) (fi_bounds I)"
    "length (md_cells (sv_map_data sv)) = map_size (fi_bounds I) \<or> md_cells (sv_map_data sv) = [] \<and> ss_cells ss = []"
    "ss_cells ss = [] \<or> length (ss_cells ss) = length (get_valid_cells (fi_try_get I) (fi_bounds I))"
    "history_ok EVENT_BUFFER_SIZE (sv_event_buffer sv)"
    using assms(2) by (simp_all add: storage_ok_def s)
  have v: "ss_valid ?ss = [] \<or> ss_valid ?ss = get_valid_cells (fi_try_get I) (fi_bounds I)"
    and c: "ss_cells ?ss = [] \<or> length (ss_cells ?ss) = length (get_valid_cells (fi_try_get I) (fi_bounds I))"
    and ini: "ss_initialized ?ss = ss_initialized ss"
    using st(1,3) by (auto simp: init_cells_def)
  have ml: "length (md_cells md) = map_size (fi_bounds I) \<or> md_cells md = [] \<and> ss_cells ?ss = []"
    using st(2) m(2,3) by (auto simp: init_cells_def)
  have pre: "length (md_cells (sv_map_data ?sv2)) = map_size (fi_bounds I)
      \<and> length (ss_cells ?ss) = length (get_valid_cells (fi_try_get I) (fi_bounds I))" if "ss_cells ?ss \<noteq> []"
    using that ml c by auto
  obtain diff mc ss' where sm0: "save_map cfg I (?sv2, ?ss)
      = Return (?sv2\<lparr>sv_game_state := (sv_game_state ?sv2)\<lparr>cells_difference := diff\<rparr>,
                     sv_map_data := (sv_map_data ?sv2)\<lparr>md_cells := mc\<rparr>\<rparr>, ss')"
    "length mc = length (md_cells (sv_map_data ?sv2))" "length (ss_cells ss') = length (ss_cells ?ss)"
    "ss_valid ss' = [] \<or> ss_valid ss' = get_valid_cells (fi_try_get I) (fi_bounds I)"
    "ss_initialized ss' = ss_initialized ?ss"
    by (rule save_map_ok [OF ok(3) assms(3) v pre])
  have sm: "save_map cfg I (?sv2, ?ss)
      = Return (?sv2\<lparr>sv_game_state := g\<lparr>cells_difference := diff\<rparr>, sv_map_data := md\<lparr>md_cells := mc\<rparr>\<rparr>, ss')"
    "length mc = length (md_cells md)" "length (ss_cells ss') = length (ss_cells ?ss)"
    "ss_valid ss' = [] \<or> ss_valid ss' = get_valid_cells (fi_try_get I) (fi_bounds I)"
    "ss_initialized ss' = ss_initialized ss"
    using sm0 ini by simp_all
  let ?sv3 = "?sv2\<lparr>sv_game_state := g\<lparr>cells_difference := diff\<rparr>, sv_map_data := md\<lparr>md_cells := mc\<rparr>\<rparr>"
  obtain sv4 ss4 where si: "save_initial (?sv3, ss') = (sv4, ss4)" by fastforce
  have k: "sv_game_state sv4 = g\<lparr>cells_difference := diff\<rparr>" "sv_map_data sv4 = md\<lparr>md_cells := mc\<rparr>"
    "sv_event_buffer sv4 = sv_event_buffer sv" "ss_cells ss4 = ss_cells ss'" "ss_valid ss4 = ss_valid ss'"
    "ss_initialized ss4"
    "sv_initial_game_state sv4 = (if ss_initialized ss then sv_initial_game_state sv1 else g\<lparr>cells_difference := diff\<rparr>)"
    using si t(3) sm(5) by (auto simp: save_initial_def split: if_splits)
  have ew: "wf_ctx (gl_OutList (fi_lists I))" "wf_ctx (gl_DoList (fi_lists I))" "wf_ctx (gl_MegaMissionList (fi_lists I))"
    and ep: "0 < EVENT_BUFFER_SIZE" and eh: "history_ok EVENT_BUFFER_SIZE (sv_event_buffer sv4)"
    using assms(1) st(4) k(3) by (simp_all add: game_ok_def EVENT_BUFFER_SIZE_def)
  obtain ol dl ml' ES' where e: "parse_EventLists (fi_num I) (fi_lists I) EVENT_BUFFER_SIZE (sv_game_state sv4) (sv_event_buffer sv4)
      = Return ((sv_game_state sv4)\<lparr>out_list := ol, do_list := dl, megamission_list := ml'\<rparr>, ES')"
    "list_reports ol (gl_OutList (fi_lists I))" "list_reports dl (gl_DoList (fi_lists I))"
    "list_reports ml' (gl_MegaMissionList (fi_lists I))" "history_ok EVENT_BUFFER_SIZE ES'"
    by (rule parse_EventLists_ok [OF ew ep eh])
  let ?sv5 = "sv4\<lparr>sv_game_state := (sv_game_state sv4)\<lparr>out_list := ol, do_list := dl, megamission_list := ml'\<rparr>,
      sv_event_buffer := ES'\<rparr>"
  have run: "save_state_exec cfg I s = Return (?sv5, ss4)"
    using t(1) g(1) m(1) sm(1) si e(1) by (simp add: save_state_exec_def state_to_protobuf_def s)
  show ?thesis
  proof (rule that [of "(?sv5, ss4)"])
    show "storage_ok (fi_try_get I) (fi_bounds I) (?sv5, ss4)"
      using sm(2-4) ml c e(5) by (auto simp: storage_ok_def k)
  qed (use run g(2,3) e(2-4) t(4,5) in \<open>auto simp: reports_events_def k initial_fixed_def copies_frame_def s\<close>)
qed

text \<open>All frames of one game: readable, and of the same map.\<close>

definition same_game :: "(int \<Rightarrow> int \<Rightarrow> u32 option) \<Rightarrow> bounds \<Rightarrow> frame_input list \<Rightarrow> bool" where
  "same_game try_get L Is \<longleftrightarrow> (\<forall>I \<in> set Is. game_ok I \<and> fi_try_get I = try_get \<and> fi_bounds I = L)"

lemma save_frames_ok:
  assumes "same_game try_get L Is" and "storage_ok try_get L s" and "cf_parse_map_data_interval cfg \<noteq> 0"
  shows "\<exists>s'. save_frames cfg Is s = Return s' \<and> storage_ok try_get L s'
           \<and> (initial_fixed s \<longrightarrow> initial_fixed s' \<and> sv_initial_game_state (fst s') = sv_initial_game_state (fst s))"
  using assms(1,2)
proof (induction Is arbitrary: s)
  case Nil
  then show ?case by simp
next
  case (Cons I Is)
  have I: "game_ok I" "fi_try_get I = try_get" "fi_bounds I = L" and Is: "same_game try_get L Is"
    using Cons.prems(1) by (simp_all add: same_game_def)
  obtain s1 where s1: "save_state_exec cfg I s = Return s1" "storage_ok try_get L s1"
    "initial_fixed s \<longrightarrow> initial_fixed s1 \<and> sv_initial_game_state (fst s1) = sv_initial_game_state (fst s)"
    using save_exec_ok [OF I(1) _ assms(3), of s] Cons.prems(2) I(2,3) by metis
  from Cons.IH [OF Is s1(2)] s1 show ?case by auto
qed

lemma save_frames_append:
  "save_frames cfg (Is @ Js) s = obind (save_frames cfg Is s) (save_frames cfg Js)"
proof (induction Is arbitrary: s)
  case (Cons I Is)
  then have "save_frames cfg (Is @ Js) = (\<lambda>s. obind (save_frames cfg Is s) (save_frames cfg Js))"
    by (simp add: fun_eq_iff)
  then show ?case by (simp add: obind_assoc)
qed simp

lemma storage_ok_start: "storage_ok try_get L (StorageValue_default, save_state_new)"
  by (simp add: storage_ok_def StorageValue_default_def save_state_new_def history_ok_def)

text \<open>C13: every frame of a readable game is saved. From the start of the program, any number of frames
  complete without an exception or undefined behaviour, and after the last one the stored state
  describes that frame: its number, checksum and stage, all houses and factories, one message for
  each object that could be parsed, and the queued events of the three lists in order; the history
  of events stays within its bound.\<close>

theorem frames_are_saved:
  assumes "same_game try_get L (Is @ [I])" and "cf_parse_map_data_interval cfg \<noteq> 0"
  shows "\<exists>s'. save_frames cfg (Is @ [I]) (StorageValue_default, save_state_new) = Return s'
           \<and> describes_frame I (sv_game_state (fst s')) \<and> reports_events I (sv_game_state (fst s'))
           \<and> history_ok EVENT_BUFFER_SIZE (sv_event_buffer (fst s'))"
proof -
  have Is: "same_game try_get L Is" and I: "game_ok I" "fi_try_get I = try_get" "fi_bounds I = L"
    using assms(1) by (simp_all add: same_game_def)
  obtain s where s: "save_frames cfg Is (StorageValue_default, save_state_new) = Return s" "storage_ok try_get L s"
    using save_frames_ok [OF Is storage_ok_start assms(2)] by blast
  obtain s' where "save_state_exec cfg I s = Return s'" "storage_ok try_get L s'"
    "describes_frame I (sv_game_state (fst s'))" "reports_events I (sv_game_state (fst s'))"
    using save_exec_ok [OF I(1) _ assms(2), of s] s(2) I(2,3) by metis
  then show ?thesis
    using s(1) by (auto simp: save_frames_append storage_ok_def)
qed

text \<open>C29: the initial state, and with it the list of type classes that commands refer to, is taken from
  the first frame and never changes afterwards. After the first frame it describes that frame, and it is the state that was
  saved for it, apart from the event lists, which are read later; after any number of further frames it is
  still the same.\<close>

theorem initial_state_kept:
  assumes "same_game try_get L (I # Is)" and "fi_types I \<noteq> []" and "cf_parse_map_data_interval cfg \<noteq> 0"
  shows "\<exists>s1 s'. save_frames cfg [I] (StorageValue_default, save_state_new) = Return s1
           \<and> save_frames cfg (I # Is) (StorageValue_default, save_state_new) = Return s'
           \<and> copies_frame I (sv_initial_game_state (fst s1)) (sv_game_state (fst s1))
           \<and> object_types (sv_initial_game_state (fst s1)) \<noteq> []
           \<and> sv_initial_game_state (fst s') = sv_initial_game_state (fst s1)"
proof -
  let ?s0 = "(StorageValue_default, save_state_new)"
  have Is: "same_game try_get L Is" and I: "game_ok I" "fi_try_get I = try_get" "fi_bounds I = L"
    using assms(1) by (simp_all add: same_game_def)
  have start: "object_types (sv_initial_game_state (fst ?s0)) = []" "\<not> ss_initialized (snd ?s0)"
    by (simp_all add: StorageValue_default_def GameState_default_def save_state_new_def)
  obtain s1 where s1: "save_state_exec cfg I ?s0 = Return s1" "storage_ok try_get L s1" "initial_fixed s1"
    "copies_frame I (sv_initial_game_state (fst s1)) (sv_game_state (fst s1))"
    using save_exec_ok [OF I(1) _ assms(3), of ?s0] storage_ok_start I(2,3) start assms(2) by metis
  from save_frames_ok [OF Is s1(2) assms(3)] s1 show ?thesis
    by (auto simp: initial_fixed_def)
qed

section \<open>Locking\<close>

text \<open>A callback releases the lock of the storage it took, whether its body returns or throws a
  standard exception, as long as the body itself leaves the lock as it found it; the changes the
  body made are kept.\<close>

lemma do_call_releases_lock:
  assumes "run (lock_storage s) = (s1, r)" and "r \<noteq> Undefined" and "lk_depth s1 = lk_depth (lock_storage s)"
  shows "\<exists>s'. do_call run s = Return s' \<and> lk_depth s' = lk_depth s \<and> lk_state s' = lk_state s1"
  using assms by (cases r) (auto simp: do_call_def lock_storage_def unlock_storage_def)

section \<open>Load progress\<close>

text \<open>Only two players' load progresses are ever reported: the number of entries is computed from
  the sizes of a number and of a pointer, not from the length of the array of the game.\<close>

lemma load_progress_two_entries:
  assumes "sv_load_state sv = []" and "2 \<le> length B"
  shows "\<exists>sv'. update_load_progress B sv = Return sv' \<and> sv_load_state sv' = take 2 B
           \<and> stage (sv_game_state sv') = STAGE_LOADING"
proof -
  obtain a b B' where "B = a # b # B'"
    using assms(2) by (cases B rule: list.exhaust; cases "tl B") auto
  then show ?thesis
    using assms(1) by (simp add: update_load_progress_def progress_count_def Let_def numeral_2_eq_2)
qed

section \<open>Example\<close>

definition demo_input :: "u32 \<Rightarrow> frame_input" where
  "demo_input fr =
     \<lparr>fi_types = [\<lparr>t_addr = 0x10, t_what = Return UnitTypeAbs, t_Name = ''MTNK'', t_ArrayIndex = 0, t_Armor = 0,
        t_Cost = 700, t_Soylent = 0, t_Prerequisite = [], t_RequiredHouses = 0, t_ForbiddenHouses = 0,
        t_OwnerFlags = 0, t_TechLevel = 1, t_BuildLimit = 0, t_Naval = False, t_StolenAllied = False,
        t_StolenSoviet = False, t_StolenThird = False, t_Strength = 300, t_PowerDrain = 0, t_PowerBonus = 0,
        t_IsBaseDefense = False, t_Wall = False, t_BuildCat = 0\<rparr>],
      fi_prereq = no_prereq, fi_crc = 5, fi_frame = fr, fi_tech = 10, fi_houses = [],
      fi_technos = [demo_unit 1 (Return UnitAbs) True], fi_factories = [], fi_lists = demo_lists,
      fi_num = (\<lambda>_. 0), fi_try_get = demo_try_get, fi_tib = demo_tib, fi_shroud = (\<lambda>_. False),
      fi_tibv = (\<lambda>_. 0), fi_cells = demo_cm fr, fi_bounds = demo_bounds\<rparr>"

lemma demo_game_ok: "game_ok (demo_input fr)"
proof -
  have "frame_ok demo_tib demo_bounds (\<lambda>p. cell_index demo_bounds (demo_cm fr p)) [0x100, 0x200] (demo_cm fr) (demo_pc fr)"
    using demo_parse [of _ fr] by (simp add: frame_ok_def)
  then have "map_ok (demo_input fr)"
    using demo_parse [of _ fr] by (auto simp: map_ok_def demo_input_def demo_valid_cells indices_ok_def map_size_def
        demo_bounds_def [THEN arg_cong, of b_Right] demo_bounds_def [THEN arg_cong, of b_Bottom])
  then show ?thesis
    by (simp add: game_ok_def) (simp add: demo_input_def tame_def demo_unit_def demo_lists_def demo_ring_wf)
qed

lemma demo_same_game: "same_game demo_try_get demo_bounds [demo_input 0, demo_input 1]"
  by (simp add: same_game_def demo_game_ok) (simp add: demo_input_def)

lemma demo_interval: "cf_parse_map_data_interval default_configuration \<noteq> 0"
  by (simp add: default_configuration_def)

theorem frames_are_saved_witness:
  "\<exists>s'. save_frames default_configuration [demo_input 0, demo_input 1] (StorageValue_default, save_state_new) = Return s'
     \<and> describes_frame (demo_input 1) (sv_game_state (fst s'))"
  using frames_are_saved [of demo_try_get demo_bounds "[demo_input 0]" "demo_input 1" default_configuration]
    demo_same_game demo_interval by auto

theorem initial_state_kept_witness:
  "\<exists>s1 s'. save_frames default_configuration [demo_input 0] (StorageValue_default, save_state_new) = Return s1
     \<and> save_frames default_configuration [demo_input 0, demo_input 1] (StorageValue_default, save_state_new) = Return s'
     \<and> copies_frame (demo_input 0) (sv_initial_game_state (fst s1)) (sv_game_state (fst s1))
     \<and> sv_initial_game_state (fst s') = sv_initial_game_state (fst s1)"
proof -
  have "fi_types (demo_input 0) \<noteq> []" by (simp add: demo_input_def)
  then show ?thesis using initial_state_kept [OF demo_same_game _ demo_interval] by blast
qed

end
