(* ===== verification/Is_Command.thy ===== *)
theory Is_Command
  imports Instrumentation_Service Callbacks
begin

text \<open>
  \<^verbatim>\<open>src/src/command/is_command.hpp\<close>, the wrapper of every command of the service: it unpacks the
  message of the command, runs the body, and packs the result; and the way of a command into the
  game loop, \<open>get_gameloop_command\<close> and \<open>CBGameCommand\<close> of \<^verbatim>\<open>src/src/hooks_yr.hpp\<close>. The single-step mode
  of that callback is in \<open>Single_Step\<close>.
\<close>

section \<open>The wrapper of commands\<close>

type_synonym 'h icmd = "(ISArg, 'h) command"

text \<open>The message library is a parameter: \<open>mc_unpack\<close> is \<open>UnpackTo\<close> on a default message, \<open>mc_pack\<close>
  is \<open>PackFrom\<close>.\<close>

record 'm codec =
  mc_unpack :: "any \<Rightarrow> 'm"
  mc_pack :: "'m \<Rightarrow> any"
  mc_default :: 'm

definition any_clear :: any where
  "any_clear = \<lparr>type_url = [], payload = []\<rparr>"

definition set_msg :: "any \<Rightarrow> 'h icmd \<Rightarrow> 'h icmd" where
  "set_msg a c = c\<lparr>command_data := (command_data c)\<lparr>arg_msg := a\<rparr>\<rparr>"

definition save_command_result :: "'m codec \<Rightarrow> 'h icmd \<times> 'm \<Rightarrow> 'h icmd \<times> 'm" where
  "save_command_result K q =
     (case q of (c, d) \<Rightarrow>
        if \<not> pending c then (set_msg (mc_pack K d) c, d) else (c, mc_default K))"

definition is_async :: "'m codec \<Rightarrow> 'h icmd \<times> 'm \<Rightarrow> 'h icmd \<times> 'm" where
  "is_async K q = (case save_command_result K q of (c, d) \<Rightarrow> (c\<lparr>pending := True\<rparr>, d))"

text \<open>The body sees the world, the command and its unpacked data, and may change all of them. After an
  exception the message is cleared; the destructor of the wrapper then runs in any case.\<close>

type_synonym ('m, 'h, 'w) body = "'w \<Rightarrow> 'h icmd \<Rightarrow> 'm \<Rightarrow> 'w \<times> 'h icmd \<times> 'm \<times> exn option"

definition get_cmd ::
  "'m codec \<Rightarrow> ('m, 'h, 'w) body \<Rightarrow> bool \<Rightarrow> 'w \<Rightarrow> 'h icmd \<Rightarrow> 'w \<times> 'h icmd \<times> exn option"
where
  "get_cmd K fn as w c =
     (let q = (c, mc_unpack K (arg_msg (command_data c)));
          (c1, d1) = (if as then is_async K q else q)
      in case fn w c1 d1 of
           (w', c2, d2, None) \<Rightarrow> (w', fst (save_command_result K (c2, d2)), None)
         | (w', c2, d2, Some e) \<Rightarrow> (w', fst (save_command_result K (set_msg any_clear c2, d2)), Some e))"

definition get_async_cmd ::
  "'m codec \<Rightarrow> ('m, 'h, 'w) body \<Rightarrow> 'w \<Rightarrow> 'h icmd \<Rightarrow> 'w \<times> 'h icmd \<times> exn option"
where
  "get_async_cmd K fn = get_cmd K fn True"

definition message_result :: "'m codec \<Rightarrow> 'h icmd \<Rightarrow> 'm" where
  "message_result K c = mc_unpack K (arg_msg (command_data c))"

section \<open>Commands for the game loop\<close>

text \<open>The part of the world that the game loop needs: whether the callback object exists, and its queue
  of commands.\<close>

record 'g loop_world =
  lw_has_cb :: bool
  lw_work :: "cmd_ptr list async_queue"
  lw_game :: 'g

definition put_work :: "cmd_ptr \<Rightarrow> 'g loop_world \<Rightarrow> 'g loop_world" where
  "put_work p w =
     (case aq_push std_queue_ops [] p (lw_work w) of
        Some (Return q) \<Rightarrow> w\<lparr>lw_work := q\<rparr>
      | _ \<Rightarrow> w)"

definition get_gameloop_command ::
  "'h \<Rightarrow> cmd_ptr \<Rightarrow> 'g loop_world \<Rightarrow> 'h icmd \<Rightarrow> 'g loop_world \<times> 'h icmd \<times> exn option"
where
  "get_gameloop_command fn p w c =
     (if \<not> lw_has_cb w then (w, c, Some (out_of_range ''map::at''))
      else (put_work p w, set_async_handler fn c, None))"

text \<open>A command whose body only queues its work.\<close>

definition gameloop_body :: "('m \<Rightarrow> 'h) \<Rightarrow> cmd_ptr \<Rightarrow> ('m, 'h, 'g loop_world) body" where
  "gameloop_body mk p w c d =
     (case get_gameloop_command (mk d) p w c of (w', c', e) \<Rightarrow> (w', c', d, e))"

text \<open>\<open>CBGameCommand::exec\<close> without single-step mode: pop everything, run it in order. A command that
  no longer exists is undefined behaviour.\<close>

fun run_items ::
  "('d, 'h, 'w) interp \<Rightarrow> cmd_ptr list \<Rightarrow> ('d, 'h, 'w) manager \<Rightarrow> ('d, 'h, 'w) manager outcome"
where
  "run_items call [] m = Return m"
| "run_items call (p # ps) m = obind (game_run_async call p m) (run_items call ps)"

definition set_work :: "cmd_ptr list async_queue \<Rightarrow> ('d, 'h, 'g loop_world) manager \<Rightarrow> ('d, 'h, 'g loop_world) manager" where
  "set_work q m = m\<lparr>world := (world m)\<lparr>lw_work := q\<rparr>\<rparr>"

definition game_command_exec ::
  "('d, 'h, 'g loop_world) interp \<Rightarrow> ('d, 'h, 'g loop_world) manager \<Rightarrow> ('d, 'h, 'g loop_world) manager outcome option"
where
  "game_command_exec call m =
     (case aq_pop std_queue_ops 0 0 None [] (lw_work (world m)) of
        None \<Rightarrow> None
      | Some r \<Rightarrow> Some (obind r (\<lambda>(items, q). run_items call items (set_work q m))))"

section \<open>Results of commands\<close>

lemma arg_msg_set [simp]: "arg_msg (command_data (set_msg a c)) = a" "pending (set_msg a c) = pending c"
  "async_handler (set_msg a c) = async_handler c"
  by (simp_all add: set_msg_def)

text \<open>What a command leaves in its message, on every path. A body that returns without handing work
  to the game loop leaves its packed data; one that marks the command as pending leaves the message
  for the game loop. A synchronous command that throws does not leave an empty message, as the
  wrapper intends, but its packed data: the destructor of the wrapper packs them after the message
  was cleared. An asynchronous command that throws leaves an empty message and stays pending.\<close>

lemma get_cmd_message:
  assumes "fn w (if as then fst (is_async K (c, mc_unpack K (arg_msg (command_data c)))) else c)
             (mc_unpack K (arg_msg (command_data c))) = (w', c2, d2, e)"
    and "\<not> pending c"
  shows "\<exists>c'. get_cmd K fn as w c = (w', c', e) \<and> pending c' = pending c2 \<and> async_handler c' = async_handler c2
           \<and> arg_msg (command_data c') =
               (if pending c2 then (if e = None then arg_msg (command_data c2) else any_clear) else mc_pack K d2)"
  using assms
  by (cases e) (auto simp: get_cmd_def Let_def is_async_def save_command_result_def split: if_splits)

text \<open>A codec of uninterpreted messages, to evaluate the definitions.\<close>

definition raw_codec :: "any codec" where
  "raw_codec = \<lparr>mc_unpack = (\<lambda>a. a), mc_pack = (\<lambda>a. a), mc_default = any_clear\<rparr>"

definition demo_command :: "unit icmd" where
  "demo_command = new_command
     \<lparr>bd_name = ''x'', bd_queue_id = 7, bd_task_id = 1, bd_queue_size = 0, bd_type = USER\<rparr> (Some ())
     \<lparr>arg_msg = \<lparr>type_url = ''x'', payload = [1]\<rparr>\<rparr> None"

section \<open>The game loop\<close>

lemma owned_game: "owned (m\<lparr>world := w, store := st\<rparr>) p = owned m p"
  by (simp add: owned_def)

lemma run_async_not_pending: "run_async_handler call p w c = (w', c') \<Longrightarrow> \<not> pending c'"
  by (auto simp: run_async_handler_def set_error_def split: prod.splits option.splits)

lemma game_run_async_ok:
  assumes "owned m p" and "store m p = Some c"
  shows "\<exists>m' c'. game_run_async call p m = Return m' \<and> store m' = (store m)(p \<mapsto> c') \<and> \<not> pending c'
           \<and> (\<forall>q. owned m' q = owned m q)"
  using assms run_async_not_pending [of call p "world m" c]
  by (auto simp: game_run_async_def owned_game split: prod.splits)

lemma run_items_ok:
  assumes "\<forall>p \<in> set ps. owned m p \<and> store m p \<noteq> None" and "distinct ps"
  shows "\<exists>m'. run_items call ps m = Return m' \<and> (\<forall>p \<in> set ps. \<exists>c. store m' p = Some c \<and> \<not> pending c)
           \<and> (\<forall>p. p \<notin> set ps \<longrightarrow> store m' p = store m p)"
  using assms
proof (induction ps arbitrary: m)
  case Nil
  then show ?case by simp
next
  case (Cons p ps)
  then obtain c where "store m p = Some c" "owned m p" by auto
  then obtain m1 c1 where m1: "game_run_async call p m = Return m1" "store m1 = (store m)(p \<mapsto> c1)" "\<not> pending c1"
    "\<forall>q. owned m1 q = owned m q"
    using game_run_async_ok by blast
  have "\<forall>q \<in> set ps. owned m1 q \<and> store m1 q \<noteq> None"
    using Cons.prems m1(2,4) by auto
  with Cons.IH [of m1] Cons.prems obtain m' where "run_items call ps m1 = Return m'"
    "\<forall>q \<in> set ps. \<exists>c. store m' q = Some c \<and> \<not> pending c" "\<forall>q. q \<notin> set ps \<longrightarrow> store m' q = store m1 q"
    by auto
  then show ?case using m1 Cons.prems(2) by auto
qed

text \<open>C30: the next frame completes every command that waits for the game loop. The callback takes all
  queued commands, runs their asynchronous parts in the order in which they were queued, whatever
  they throw, and leaves each of them finished and every other command alone.\<close>

theorem gameloop_commands_complete:
  assumes "aq_q (lw_work (world m)) = ps" and "distinct ps" and "\<forall>p \<in> set ps. owned m p \<and> store m p \<noteq> None"
  shows "\<exists>m'. game_command_exec call m = Some (Return m')
           \<and> run_items call ps (set_work ((lw_work (world m))\<lparr>aq_q := []\<rparr>) m) = Return m'
           \<and> (\<forall>p \<in> set ps. \<exists>c. store m' p = Some c \<and> \<not> pending c)
           \<and> (\<forall>p. p \<notin> set ps \<longrightarrow> store m' p = store m p)"
proof -
  let ?q = "lw_work (world m)" and ?m = "set_work ((lw_work (world m))\<lparr>aq_q := []\<rparr>) m"
  have "\<forall>p \<in> set ps. owned ?m p \<and> store ?m p \<noteq> None"
    using assms(3) by (simp add: set_work_def owned_def)
  from run_items_ok [OF this assms(2), of call] obtain m' where m': "run_items call ps ?m = Return m'"
    "\<forall>p \<in> set ps. \<exists>c. store m' p = Some c \<and> \<not> pending c" "\<forall>p. p \<notin> set ps \<longrightarrow> store m' p = store m p"
    by (auto simp: set_work_def)
  have "aq_pop std_queue_ops 0 0 None [] ?q = Some (Return (ps, ?q\<lparr>aq_q := []\<rparr>))"
  proof (cases "ps = []")
    case True
    then show ?thesis
      using fifo.pop_empty [of "aq_q ?q" 0 "[]" 0 None "[]"] assms(1) by (simp add: aq_pop_def)
  next
    case False
    then show ?thesis
      using fifo.pop_all_ready [of "aq_q ?q" 0 None "[]" "[]"] assms(1) by (auto simp: aq_pop_def)
  qed
  then show ?thesis using m' by (simp add: game_command_exec_def)
qed

text \<open>A run of the worker alone stays reachable.\<close>

lemma reach_worker_run:
  assumes "cm_exec call (cm_init w) ps m" and "worker_run call n m = Return m'"
  shows "\<exists>ps. cm_exec call (cm_init w) ps m'"
  using assms
proof (induction n arbitrary: m ps)
  case 0
  then show ?case by auto
next
  case (Suc n)
  show ?case
  proof (cases "worker_step call m")
    case None
    then show ?thesis using Suc.prems by auto
  next
    case (Some r)
    then obtain m1 where m1: "r = Return m1" "worker_run call n m1 = Return m'"
      using Suc.prems(2) by (cases r) auto
    with Some have "worker_step call m = Some (Return m1)" by simp
    from Suc.IH [OF exec_step [OF Suc.prems(1) step_worker [OF this]] m1(2)] show ?thesis .
  qed
qed

text \<open>A service with one client and one queued command, whose handler leaves its work to the game loop.
  \<open>loop_call\<close> interprets the handler (\<open>False\<close>) and its asynchronous part (\<open>True\<close>).\<close>

definition loop_call :: "(ISArg, bool, unit loop_world) interp" where
  "loop_call h p w c =
     (if h then (w, c, None) else get_async_cmd raw_codec (gameloop_body (\<lambda>_. True) p) w c)"

definition loop_init :: "bool \<Rightarrow> unit loop_world" where
  "loop_init b = \<lparr>lw_has_cb = b, lw_work = aq_new [] 0, lw_game = ()\<rparr>"

definition run_or :: "nat \<Rightarrow> (bool, unit loop_world) service \<Rightarrow> (bool, unit loop_world) service" where
  "run_or n m = (case worker_run loop_call n m of Return m' \<Rightarrow> m' | _ \<Rightarrow> m)"

definition loop_cmd :: proto_command where
  "loop_cmd = \<lparr>command_type = CLIENT_COMMAND, command_any = \<lparr>type_url = ''x'', payload = [1]\<rparr>, blocking = False\<rparr>"

definition loop_ran :: "bool \<Rightarrow> (bool, unit loop_world) service" where
  "loop_ran b =
     run_or 1 (fst (handle_cmd 7 loop_cmd False None
       (run_or 1 (fst (on_accept \<lparr>arg_msg = any_clear\<rparr> 7 (add_command ''x'' False (cm_init (loop_init b))))))))"

lemma reach_run_or:
  "\<exists>ps. cm_exec loop_call (cm_init w) ps m \<Longrightarrow> \<exists>ps. cm_exec loop_call (cm_init w) ps (run_or n m)"
  using reach_worker_run by (fastforce simp: run_or_def split: outcome.splits)

lemma reach_accept:
  "\<exists>ps. cm_exec call (cm_init w) ps m \<Longrightarrow> \<exists>ps. cm_exec call (cm_init w) ps (fst (on_accept d s m))"
  using on_accept_step by (metis exec_step prod.collapse)

lemma reach_handle:
  assumes "\<exists>ps. cm_exec call (cm_init w) ps m"
  shows "\<exists>ps. cm_exec call (cm_init w) ps (fst (handle_cmd q cmd d cb m))"
proof -
  obtain m1 r where h: "handle_cmd q cmd d cb m = (m1, r)" by fastforce
  then have "r \<noteq> Undefined"
    using make_command_cases by (fastforce simp: handle_cmd_def Let_def split: prod.splits outcome.splits)
  from handle_cmd_step [OF h this] h assms show ?thesis by (auto intro: exec_step)
qed

lemma loop_ran_reach: "\<exists>ps. cm_exec loop_call (cm_init (loop_init b)) ps (loop_ran b)"
  unfolding loop_ran_def
  by (intro reach_run_or reach_handle reach_accept) (rule exI, rule exec_step [OF exec_refl step_add])

text \<open>A pending command without an asynchronous part that the worker is done with: no thread ever finishes it.\<close>

definition orphan :: "cmd_ptr \<Rightarrow> ('d, 'h, 'w) manager \<Rightarrow> bool" where
  "orphan p m \<longleftrightarrow> (\<exists>c. store m p = Some c \<and> pending c \<and> async_handler c = None)
     \<and> p \<notin> set (work_queue m) \<and> p \<notin> running m"

lemma orphan_same:
  "orphan p m \<Longrightarrow> store m1 p = store m p \<Longrightarrow> set (work_queue m1) \<subseteq> insert (next_addr m) (set (work_queue m)) \<Longrightarrow>
     worker_state m1 = worker_state m \<Longrightarrow> p \<noteq> next_addr m \<Longrightarrow> orphan p m1"
  by (auto simp: orphan_def running_def)

lemma worker_pick_store:
  assumes pk: "worker_pick call m = Return m1" and q: "wq_top (work_queue m) = Return q" "q \<noteq> p"
  shows "store m1 p = store m p"
proof -
  from pk q obtain wq c where "wq_pop (QueueCompare (store m)) (work_queue m) = Return wq" "store m q = Some c"
    by (auto simp: worker_pick_def Let_def split: option.splits)
  with pk q show ?thesis
    by (cases "cmd_type c") (auto simp: worker_pick_def user_command_run_def create_queue_def destroy_queue_def upd_cmd_def
        Let_def split: prod.splits if_splits)
qed

lemma orphan_worker:
  assumes wf: "cm_wf m" and st: "worker_step call m = Some (Return m1)" and o: "orphan p m"
  shows "orphan p m1"
proof (cases "worker_state m")
  case WIdle
  then have ne: "work_queue m \<noteq> []" and pk: "worker_pick call m = Return m1"
    using st by (auto simp: worker_step_def split: if_splits)
  obtain q B where q: "picked m q B m1"
    using cm_wf_pick [OF wf WIdle ne, of call] pk by (metis outcome.inject(1))
  then have "q \<noteq> p" using o by (auto simp: picked_def orphan_def)
  moreover have "wq_top (work_queue m) = Return q" using q by (simp add: picked_def)
  ultimately have "store m1 p = store m p" using worker_pick_store [OF pk] by blast
  moreover have "set (work_queue m1) \<subseteq> set (work_queue m)" "running m1 \<subseteq> set (work_queue m)"
    using q by (auto simp: picked_def running_def split: worker_pc.splits)
  ultimately show ?thesis using o unfolding orphan_def by auto
next
  case (WRan q e)
  then have "q \<noteq> p" using o by (auto simp: orphan_def running_def)
  obtain c where c: "store m q = Some c" using wf WRan by (auto simp: cm_wf_def running_def bases_def)
  have "m1 = deliver q (user_command_code e c) (m\<lparr>store := (store m)(q \<mapsto> user_command_code e c), worker_state := WIdle\<rparr>)"
    using publish_deliver [OF wf WRan c] st WRan by (simp add: worker_step_def)
  then show ?thesis using o \<open>q \<noteq> p\<close> by (auto simp: orphan_def running_def deliver_def)
qed

lemma orphan_step:
  assumes "cm_step call m m1" and "cm_wf m" and "orphan p m"
  shows "orphan p m1"
proof -
  have old: "p \<noteq> next_addr m" using assms(2,3) by (auto simp: orphan_def cm_wf_def bases_def dom_def)
  show ?thesis
    using assms(1)
  proof (cases rule: cm_step.cases)
    case step_worker
    then show ?thesis using orphan_worker assms by blast
  next
    case (step_poll i timeout res)
    then show ?thesis
      using cm_wf_poll [OF assms(2) step_poll] by (intro orphan_same [OF assms(3) _ _ _ old]) auto
  next
    case (step_game q c)
    then have "q \<noteq> p" using assms(3) by (auto simp: orphan_def)
    then show ?thesis
      using cm_wf_game [OF assms(2) step_game(3)] by (intro orphan_same [OF assms(3) _ _ _ old]) auto
  qed (rule orphan_same [OF assms(3) _ _ _ old]; use old in \<open>auto simp: add_command_def enqueue_command_def upd_cmd_def
      make_builtin_command_def alloc_cmd_def execute_create_queue_def execute_destroy_queue_def cm_shutdown_def Let_def
      dest!: make_command_cases\<close>)+
qed

lemma orphan_exec: "cm_exec call m ps m1 \<Longrightarrow> cm_wf m \<Longrightarrow> orphan p m \<Longrightarrow> orphan p m1"
  by (induction rule: cm_exec.induct) (auto dest: orphan_step cm_wf_exec)

lemma orphan_not_polled:
  assumes "cm_wf m" and "orphan p m" and "flush_results i t (\<lambda>m. m) m = (m1, Return res)"
  shows "p \<notin> set res"
proof -
  obtain rq where rq: "results_queue m i = Some rq"
    using assms(3) by (auto simp: flush_results_def split: option.splits)
  then have "rb_wf (aq_q (rq_queue rq))" using assms(1) by (auto simp: cm_wf_def wf_result_def)
  from flush_results_eq [OF rq refl, of t "\<lambda>m. m" rq] this rq assms(3) have
    "res = rev (filter (not_pending m) (ptrs rq))" by auto
  then show ?thesis using assms(2) by (auto simp: orphan_def not_pending_def)
qed

text \<open>C31: when the body of an asynchronous command throws before its work reached the game loop, for
  instance because the callbacks do not exist yet, the command stays pending although nobody will
  finish it. Its error is stored in the client's queue, but in no state that any threads can reach from there does a
  poll, of any queue and with any timeout, return it.\<close>

theorem async_error_never_delivered:
  assumes "cm_exec call (cm_init w0) ps m" and "worker_state m = WRan p (Some e)" and "store m p = Some c"
    and "get_async_cmd K (gameloop_body mk p) w c0 = (w', c, Some e)" and "\<not> lw_has_cb w" and "\<not> pending c0"
    and "async_handler c0 = None" and "\<not> discard_result c" and "results_queue m (queue_id c) = Some rq"
  shows "\<exists>m' rq'. worker_finish m = Return m' \<and> results_queue m' (queue_id c) = Some rq' \<and> p \<in> set (ptrs rq')
           \<and> map_option (\<lambda>c. (result_code c, async_handler c)) (store m' p) = Some (RC_ERROR, None)
           \<and> (\<forall>qs m1 i t m2 res. cm_exec call m' qs m1 \<and> flush_results i t (\<lambda>m. m) m1 = (m2, Return res) \<longrightarrow> p \<notin> set res)"
proof -
  have c: "pending c" "async_handler c = None"
    using assms(4-7)
    by (auto simp: get_async_cmd_def get_cmd_def Let_def gameloop_body_def get_gameloop_command_def is_async_def
        save_command_result_def set_msg_def)
  have wf: "cm_wf m" using assms(1) by (rule reachable_wf)
  obtain m' rq' where m': "worker_finish m = Return m'" "store m' p = Some (user_command_code (Some e) c)"
    "results_queue m' (queue_id c) = Some rq'" "last (ptrs rq') = p"
    "ptrs rq' = drop (Suc (length (ptrs rq)) - rb_max (aq_q (rq_queue rq))) (ptrs rq @ [p])"
    using publish_result [OF wf assms(2,3)] assms(8,9) by metis
  from cm_wf_finish [OF wf assms(2)] m'(1) have
    wf': "cm_wf m'" and fin: "worker_state m' = WIdle" "work_queue m' = work_queue m" by auto
  have rb: "rb_wf (aq_q (rq_queue rq))" using wf assms(9) by (auto simp: cm_wf_def wf_result_def)
  then have "ptrs rq' \<noteq> []" unfolding m'(5) by (simp add: rb_wf_def)
  then have mem: "p \<in> set (ptrs rq')" using m'(4) last_in_set by blast
  have "p \<notin> set (work_queue m)" using wf assms(2) by (auto simp: cm_wf_def running_def)
  then have "orphan p m'"
    using m'(2) c fin by (simp add: orphan_def running_def user_command_code_def set_error_def)
  then have "\<forall>qs m1 i t m2 res. cm_exec call m' qs m1 \<and> flush_results i t (\<lambda>m. m) m1 = (m2, Return res) \<longrightarrow> p \<notin> set res"
    using orphan_exec orphan_not_polled cm_wf_exec wf' by metis
  moreover have "map_option (\<lambda>c. (result_code c, async_handler c)) (store m' p) = Some (RC_ERROR, None)"
    using m'(2) c(2) by (simp add: user_command_code_def set_error_def)
  ultimately show ?thesis using m' mem by blast
qed

lemma loop_ran_cold:
  "worker_state (loop_ran False) = WRan 2 (Some (out_of_range ''map::at''))"
  "results_queue (loop_ran False) 7 \<noteq> None"
  "map_option queue_id (store (loop_ran False) 2) = Some 7"
  "map_option discard_result (store (loop_ran False) 2) = Some False"
  by code_simp+

definition loop_c0 :: "bool icmd" where
  "loop_c0 = new_command
     \<lparr>bd_name = ''x'', bd_queue_id = 7, bd_task_id = 2, bd_queue_size = 0, bd_type = USER\<rparr> (Some False)
     \<lparr>arg_msg = \<lparr>type_url = ''x'', payload = [1]\<rparr>\<rparr> None"

lemma loop_ran_cmd:
  "store (loop_ran False) 2 = Some (fst (snd (get_async_cmd raw_codec (gameloop_body (\<lambda>_. True) 2) (loop_init False) loop_c0)))"
  by code_simp

theorem async_error_never_delivered_witness:
  "\<exists>m' rq'. worker_finish (loop_ran False) = Return m' \<and> results_queue m' 7 = Some rq' \<and> 2 \<in> set (ptrs rq')
     \<and> (\<forall>qs m1 i t m2 res. cm_exec loop_call m' qs m1 \<and> flush_results i t (\<lambda>m. m) m1 = (m2, Return res) \<longrightarrow> 2 \<notin> set res)"
proof -
  obtain ps where ps: "cm_exec loop_call (cm_init (loop_init False)) ps (loop_ran False)"
    using loop_ran_reach by blast
  obtain c where c: "store (loop_ran False) 2 = Some c" "queue_id c = 7" "\<not> discard_result c"
    using loop_ran_cold(3,4) by auto
  obtain rq where rq: "results_queue (loop_ran False) 7 = Some rq" using loop_ran_cold(2) by blast
  have g: "get_async_cmd raw_codec (gameloop_body (\<lambda>_. True) 2) (loop_init False) loop_c0 =
      (loop_init False, c, Some (out_of_range ''map::at''))"
    using loop_ran_cmd c(1)
    by (auto simp: get_async_cmd_def get_cmd_def Let_def gameloop_body_def get_gameloop_command_def loop_init_def
        split: prod.splits)
  have "\<not> lw_has_cb (loop_init False)" "\<not> pending loop_c0" "async_handler loop_c0 = None"
    by (simp_all add: loop_init_def loop_c0_def new_command_def)
  from async_error_never_delivered [OF ps loop_ran_cold(1) c(1) g this c(3)] rq c(2) show ?thesis
    by fastforce
qed

text \<open>With the callbacks in place, the same command is queued for the game loop.\<close>

lemma loop_ran_warm:
  "aq_q (lw_work (world (loop_ran True))) = [2]"
  "worker_state (loop_ran True) = WRan 2 None"
  "store (loop_ran True) 2 \<noteq> None"
  by code_simp+

theorem gameloop_commands_complete_witness:
  "\<exists>m'. game_command_exec loop_call (loop_ran True) = Some (Return m') \<and> (\<exists>c. store m' 2 = Some c \<and> \<not> pending c)"
proof -
  have "\<forall>p \<in> set [2]. owned (loop_ran True) p \<and> store (loop_ran True) p \<noteq> None"
    using loop_ran_warm by (simp add: owned_def)
  from gameloop_commands_complete [OF loop_ran_warm(1) _ this, where call = loop_call] show ?thesis by auto
qed

end
