(* ===== verification/Single_Step.thy ===== *)
theory Single_Step
  imports Prelude
begin

text \<open>
  Single-step mode: the handshake between the game thread, in the callbacks of a frame
  (\<open>CBGameCommand::exec\<close> of \<^verbatim>\<open>src/src/hooks_yr.hpp\<close>, \<open>CBYR::do_call\<close> and \<open>CBSaveState\<close> of
  \<^verbatim>\<open>src/src/hooks_yr.cpp\<close>), and the worker thread of the service in the command \<open>GetGameState\<close>
  of \<^verbatim>\<open>src/src/commands_yr.cpp\<close>. They share the storage mutex, the stored state, and the variable
  \<open>game_paused\<close>, an \<open>AtomicVariable\<close> of \<^verbatim>\<open>src/src/utility/sync.hpp\<close>.

  Each thread is a function that performs its next operation on the shared state, or returns
  \<open>None\<close> while it is blocked; a run interleaves the two. The stored state is represented by the
  number of the frame it describes.
\<close>

section \<open>Shared state\<close>

datatype thread = Game | Worker

text \<open>Where the game thread is in a frame: before the callback for commands; in it, with the storage
  locked; after unlocking it; waiting for \<open>game_paused\<close> to become false; about to lock the
  storage again; running the queued commands; before the callback that saves the state; in it.\<close>

datatype game_pc = GStart | GExec | GUnlocked | GWait | GRelock | GWork | GSave | GSaving

text \<open>Where the worker is in \<open>GetGameState\<close>: between two requests; with the storage locked, before
  the check; waiting for \<open>game_paused\<close>; about to lock the storage again; about to copy the
  state; about to release the game; about to unlock the storage.\<close>

datatype request_pc = RIdle | RCheck | RWait | RRelock | RCopy | RRelease | RUnlock

record handshake =
  hs_single_step :: bool
  hs_lock :: "thread option"
  hs_paused :: bool
  hs_frame :: nat
  hs_saved :: nat
  hs_game :: game_pc
  hs_request :: request_pc
  hs_replies :: "nat list"

definition hs_init :: "bool \<Rightarrow> handshake" where
  "hs_init ss =
     \<lparr>hs_single_step = ss, hs_lock = None, hs_paused = False, hs_frame = 1, hs_saved = 0, hs_game = GStart,
      hs_request = RIdle, hs_replies = []\<rparr>"

section \<open>The threads\<close>

definition try_lock :: "thread \<Rightarrow> handshake \<Rightarrow> handshake option" where
  "try_lock t s = (if hs_lock s = None then Some (s\<lparr>hs_lock := Some t\<rparr>) else None)"

definition unlock :: "handshake \<Rightarrow> handshake" where
  "unlock s = s\<lparr>hs_lock := None\<rparr>"

text \<open>\<open>AtomicVariable::wait\<close> goes on once the variable has the value.\<close>

definition wait_value :: "bool \<Rightarrow> handshake \<Rightarrow> handshake option" where
  "wait_value v s = (if hs_paused s = v then Some s else None)"

definition store_value :: "bool \<Rightarrow> handshake \<Rightarrow> handshake" where
  "store_value v s = s\<lparr>hs_paused := v\<rparr>"

definition goto :: "game_pc \<Rightarrow> handshake \<Rightarrow> handshake" where
  "goto pc s = s\<lparr>hs_game := pc\<rparr>"

definition rgoto :: "request_pc \<Rightarrow> handshake \<Rightarrow> handshake" where
  "rgoto pc s = s\<lparr>hs_request := pc\<rparr>"

fun game_at :: "game_pc \<Rightarrow> handshake \<Rightarrow> handshake option" where
  "game_at GStart s = map_option (goto GExec) (try_lock Game s)"
| "game_at GExec s = Some (if hs_single_step s then goto GUnlocked (unlock s) else goto GWork s)"
| "game_at GUnlocked s = Some (goto GWait (store_value True s))"
| "game_at GWait s = map_option (goto GRelock) (wait_value False s)"
| "game_at GRelock s = map_option (goto GWork) (try_lock Game s)"
| "game_at GWork s = Some (goto GSave (unlock s))"
| "game_at GSave s = map_option (goto GSaving) (try_lock Game s)"
| "game_at GSaving s = Some (goto GStart (unlock (s\<lparr>hs_saved := hs_frame s, hs_frame := Suc (hs_frame s)\<rparr>)))"

definition game_step :: "handshake \<Rightarrow> handshake option" where
  "game_step s = game_at (hs_game s) s"

fun request_at :: "request_pc \<Rightarrow> handshake \<Rightarrow> handshake option" where
  "request_at RIdle s = map_option (rgoto RCheck) (try_lock Worker s)"
| "request_at RCheck s = Some (if hs_single_step s \<and> hs_paused s then rgoto RWait (unlock s) else rgoto RCopy s)"
| "request_at RWait s = map_option (rgoto RRelock) (wait_value True s)"
| "request_at RRelock s = map_option (rgoto RCopy) (try_lock Worker s)"
| "request_at RCopy s = Some (rgoto RRelease (s\<lparr>hs_replies := hs_replies s @ [hs_saved s]\<rparr>))"
| "request_at RRelease s = Some (rgoto RUnlock (if hs_single_step s then store_value False s else s))"
| "request_at RUnlock s = Some (rgoto RIdle (unlock s))"

definition get_game_state :: "handshake \<Rightarrow> handshake option" where
  "get_game_state s = request_at (hs_request s) s"

inductive hs_reach :: "bool \<Rightarrow> handshake \<Rightarrow> bool" for ss where
  reach_init: "hs_reach ss (hs_init ss)"
| reach_game: "hs_reach ss s \<Longrightarrow> game_step s = Some s' \<Longrightarrow> hs_reach ss s'"
| reach_request: "hs_reach ss s \<Longrightarrow> get_game_state s = Some s' \<Longrightarrow> hs_reach ss s'"

lemmas hs_defs = try_lock_def unlock_def wait_value_def store_value_def goto_def rgoto_def
  game_step_def get_game_state_def

section \<open>Invariants\<close>

abbreviation holds_game :: "game_pc \<Rightarrow> bool" where
  "holds_game pc \<equiv> pc \<in> {GExec, GWork, GSaving}"

abbreviation holds_request :: "request_pc \<Rightarrow> bool" where
  "holds_request pc \<equiv> pc \<in> {RCheck, RCopy, RRelease, RUnlock}"

text \<open>The mutex is held by exactly the thread that is inside a critical section, only a waiting game is
  paused, and the saved frame is the last completed one.\<close>

definition hs_inv :: "handshake \<Rightarrow> bool" where
  "hs_inv s \<longleftrightarrow> (hs_lock s = Some Game \<longleftrightarrow> holds_game (hs_game s))
     \<and> (hs_lock s = Some Worker \<longleftrightarrow> holds_request (hs_request s))
     \<and> (hs_paused s \<longrightarrow> hs_game s = GWait) \<and> hs_frame s = Suc (hs_saved s)
     \<and> (hs_request s \<in> {RWait, RRelock} \<longrightarrow> hs_paused s)"

lemma reach_single_step: "hs_reach ss s \<Longrightarrow> hs_single_step s = ss"
proof (induction rule: hs_reach.induct)
  case (reach_game s s')
  then show ?case by (cases "hs_game s") (auto simp: hs_defs split: if_splits)
next
  case (reach_request s s')
  then show ?case by (cases "hs_request s") (auto simp: hs_defs split: if_splits)
qed (simp add: hs_init_def)

lemma reach_inv: "hs_reach ss s \<Longrightarrow> hs_inv s"
proof (induction rule: hs_reach.induct)
  case (reach_game s s')
  then show ?case by (cases "hs_game s") (auto simp: hs_defs hs_inv_def split: if_splits)
next
  case (reach_request s s')
  then show ?case by (cases "hs_request s") (auto simp: hs_defs hs_inv_def split: if_splits)
qed (simp add: hs_init_def hs_inv_def)

text \<open>How far the game can get without another release: it can still finish the frame it is in when it
  was released, or when it can still be released by the request that has copied the state.\<close>

definition may_save :: "handshake \<Rightarrow> bool" where
  "may_save s \<longleftrightarrow> hs_game s \<in> {GRelock, GWork, GSave, GSaving} \<or> hs_game s = GWait \<and> \<not> hs_paused s
     \<or> hs_request s = RRelease \<and> hs_game s \<in> {GUnlocked, GWait}"

definition replies_ok :: "handshake \<Rightarrow> bool" where
  "replies_ok s \<longleftrightarrow> successively (\<lambda>r r'. r \<le> r' \<and> r' \<le> Suc r) (hs_replies s)
     \<and> (hs_replies s \<noteq> [] \<longrightarrow> last (hs_replies s) \<le> hs_saved s
          \<and> hs_saved s + of_bool (may_save s) \<le> Suc (last (hs_replies s)))
     \<and> (hs_replies s = [] \<longrightarrow> hs_saved s = 0 \<and> \<not> may_save s)"

lemma successively_snoc:
  "successively P (xs @ [y]) \<longleftrightarrow> successively P xs \<and> (xs \<noteq> [] \<longrightarrow> P (last xs) y)"
  by (auto simp: successively_append_iff)

lemma replies_ok_game:
  assumes "replies_ok s" and "hs_inv s" and "hs_single_step s" and "game_step s = Some s'"
  shows "replies_ok s'"
  using assms
  by (cases "hs_game s"; cases "hs_request s"; cases "hs_paused s"; clarsimp simp: hs_defs hs_inv_def split: if_splits)
    (simp_all add: replies_ok_def may_save_def le_SucI)

lemma replies_ok_request:
  assumes "replies_ok s" and "hs_inv s" and "hs_single_step s" and "get_game_state s = Some s'"
  shows "replies_ok s'"
  using assms
  by (cases "hs_request s"; cases "hs_game s"; cases "hs_paused s"; clarsimp simp: hs_defs hs_inv_def split: if_splits)
    (simp_all add: replies_ok_def may_save_def successively_snoc le_SucI)

text \<open>C32: in single-step mode a client that asks for the state again and again sees every frame of the
  game. Under every interleaving of the game and the requests, two successive replies show the
  same frame or two successive frames: no frame is skipped and none comes back. The game is
  never more than one frame ahead of the last reply, and before the first reply it does not
  complete a frame.\<close>

theorem single_step_no_frame_missed:
  assumes "hs_reach True s"
  shows "successively (\<lambda>r r'. r \<le> r' \<and> r' \<le> Suc r) (hs_replies s)
     \<and> hs_saved s \<le> (if hs_replies s = [] then 0 else Suc (last (hs_replies s)))"
proof -
  have "replies_ok s"
    using assms
  proof (induction rule: hs_reach.induct)
    case reach_init
    then show ?case by (simp add: hs_init_def replies_ok_def may_save_def)
  next
    case (reach_game s s')
    then show ?case using replies_ok_game reach_inv reach_single_step by blast
  next
    case (reach_request s s')
    then show ?case using replies_ok_request reach_inv reach_single_step by blast
  qed
  then show ?thesis by (auto simp: replies_ok_def split: if_splits)
qed

text \<open>Runs of given interleavings, to evaluate.\<close>

fun hs_run :: "thread list \<Rightarrow> handshake \<Rightarrow> handshake option" where
  "hs_run [] s = Some s"
| "hs_run (t # ts) s =
     (case (case t of Game \<Rightarrow> game_step s | Worker \<Rightarrow> get_game_state s) of
        None \<Rightarrow> None | Some s' \<Rightarrow> hs_run ts s')"

lemma hs_run_reach: "hs_run ts s = Some s' \<Longrightarrow> hs_reach ss s \<Longrightarrow> hs_reach ss s'"
  by (induction ts s rule: hs_run.induct)
    (auto intro: reach_game reach_request split: option.splits thread.splits)

text \<open>The game pauses in the first frame; a request releases it; a second one comes before the game
  wakes up; a third one after the next pause.\<close>

definition demo_schedule :: "thread list" where
  "demo_schedule = replicate 3 Game @ replicate 7 Worker @ replicate 5 Worker @ replicate 8 Game @ replicate 7 Worker"

theorem single_step_no_frame_missed_witness:
  "\<exists>s. hs_run demo_schedule (hs_init True) = Some s \<and> hs_replies s = [0, 0, 1]
     \<and> successively (\<lambda>r r'. r \<le> r' \<and> r' \<le> Suc r) (hs_replies s)"
proof -
  have "map_option hs_replies (hs_run demo_schedule (hs_init True)) = Some [0, 0, 1]" by code_simp
  then obtain s where s: "hs_run demo_schedule (hs_init True) = Some s" "hs_replies s = [0, 0, 1]" by auto
  from single_step_no_frame_missed [OF hs_run_reach [OF s(1) reach_init]] s show ?thesis by blast
qed

text \<open>The steps that the worker needs at most until it has copied the state for a reply.\<close>

fun steps_to_reply :: "request_pc \<Rightarrow> nat" where
  "steps_to_reply RIdle = 5"
| "steps_to_reply RCheck = 4"
| "steps_to_reply RWait = 3"
| "steps_to_reply RRelock = 2"
| "steps_to_reply RCopy = 1"
| "steps_to_reply RRelease = 7"
| "steps_to_reply RUnlock = 6"

lemma steps_to_reply_bound: "1 \<le> steps_to_reply pc" "steps_to_reply pc \<le> 7"
  by (cases pc; simp)+

lemma game_step_replies:
  "game_step s = Some s' \<Longrightarrow> hs_inv s \<Longrightarrow>
     hs_replies s' = hs_replies s \<and> hs_request s' = hs_request s \<and> hs_saved s \<le> hs_saved s'"
  by (cases "hs_game s") (auto simp: hs_defs hs_inv_def split: if_splits)

lemma request_step_replies:
  "get_game_state s = Some s' \<Longrightarrow> hs_saved s' = hs_saved s \<and>
     (hs_replies s' = hs_replies s @ [hs_saved s]
      \<or> hs_replies s' = hs_replies s \<and> Suc (steps_to_reply (hs_request s')) \<le> steps_to_reply (hs_request s))"
  by (cases "hs_request s") (auto simp: hs_defs split: if_splits)

lemma hs_run_replies:
  assumes "hs_run ts s = Some s'" and "hs_reach ss s"
  shows "\<exists>rs. hs_replies s' = hs_replies s @ rs \<and> (\<forall>r \<in> set rs. hs_saved s \<le> r \<and> r \<le> hs_saved s') \<and> hs_saved s \<le> hs_saved s'
    \<and> (rs = [] \<longrightarrow> count_list ts Worker + steps_to_reply (hs_request s') \<le> steps_to_reply (hs_request s))"
  using assms
proof (induction ts arbitrary: s)
  case (Cons t ts)
  show ?case
  proof (cases t)
    case Game
    with Cons.prems obtain s1 where s1: "game_step s = Some s1" "hs_run ts s1 = Some s'"
      by (auto split: option.splits)
    from Cons.IH [OF s1(2) reach_game [OF Cons.prems(2) s1(1)]] game_step_replies [OF s1(1) reach_inv [OF Cons.prems(2)]]
    show ?thesis using Game by fastforce
  next
    case Worker
    with Cons.prems obtain s1 where s1: "get_game_state s = Some s1" "hs_run ts s1 = Some s'"
      by (auto split: option.splits)
    from Cons.IH [OF s1(2) reach_request [OF Cons.prems(2) s1(1)]] obtain rs where
      rs: "hs_replies s' = hs_replies s1 @ rs" "\<forall>r \<in> set rs. hs_saved s1 \<le> r \<and> r \<le> hs_saved s'" "hs_saved s1 \<le> hs_saved s'"
        "rs = [] \<longrightarrow> count_list ts Worker + steps_to_reply (hs_request s') \<le> steps_to_reply (hs_request s1)" by blast
    from request_step_replies [OF s1(1)] have sv: "hs_saved s1 = hs_saved s" by blast
    from request_step_replies [OF s1(1)] consider
        "hs_replies s1 = hs_replies s @ [hs_saved s]"
      | "hs_replies s1 = hs_replies s" "Suc (steps_to_reply (hs_request s1)) \<le> steps_to_reply (hs_request s)" by blast
    then show ?thesis
    proof cases
      case 1
      then show ?thesis using rs sv by (intro exI [of _ "hs_saved s # rs"]) auto
    next
      case 2
      then show ?thesis using rs sv Worker by (intro exI [of _ rs]) auto
    qed
  qed
qed auto

lemma blocked_worker_released:
  assumes "hs_inv s" and "hs_single_step s" and "get_game_state s = None"
  shows "\<exists>s1. game_step s = Some s1 \<and> get_game_state s1 \<noteq> None"
proof -
  have "hs_lock s = Some Game"
    using assms by (cases "hs_request s"; cases "hs_lock s"; cases "the (hs_lock s)") (auto simp: hs_defs hs_inv_def split: if_splits)
  with assms show ?thesis
    by (cases "hs_request s"; cases "hs_game s") (auto simp: hs_defs hs_inv_def split: if_splits)
qed



end
