(* ===== verification/Game_Calls.thy ===== *)
theory Game_Calls
  imports Game_ABI
begin

text \<open>
  \<^verbatim>\<open>src/src/ra2/abi.hpp\<close> (\<open>Caller\<close> and its instances) and \<^verbatim>\<open>src/src/ra2/abi.cpp\<close>: the functions of the game
  that the program calls, through the thunks of \<open>Game_ABI\<close>.

  A \<open>Caller\<close> is the address of a game function (its index in the table of virtual functions for a virtual
  one), its number of arguments and the thunk that is generated for it. A call is a C call of
  the thunk: the arguments are pushed from right to left, then the return address, and removed by the
  caller. The functions of the game are the parameter \<open>callee\<close> of the interpreter.
\<close>

section \<open>Callers\<close>

datatype caller_gen = Gen gen_t | GenVirtual

record caller =
  cl_address :: u32
  cl_NumArgs :: nat
  cl_gen :: caller_gen
  cl_import :: bool

definition this_caller :: "u32 \<Rightarrow> nat \<Rightarrow> caller" where
  "this_caller a n = \<lparr>cl_address = a, cl_NumArgs = n, cl_gen = Gen GenThis, cl_import = False\<rparr>"

definition virtual_caller :: "u32 \<Rightarrow> nat \<Rightarrow> caller" where
  "virtual_caller i n = \<lparr>cl_address = i, cl_NumArgs = n, cl_gen = GenVirtual, cl_import = False\<rparr>"

text \<open>The address of an imported function is read from the import table of the game.\<close>

definition caller_addr :: "mem \<Rightarrow> caller \<Rightarrow> u32" where
  "caller_addr m c = (if cl_import c then read32 m (cl_address c) else cl_address c)"

definition vaddr :: "mem \<Rightarrow> caller \<Rightarrow> u32 \<Rightarrow> u32" where
  "vaddr m c object = read32 m (read32 m object + 4 * caller_addr m c)"

text \<open>\<open>call_noacquire\<close> up to the call: the thunk, generated when it is not in the store.\<close>

definition caller_thunk :: "mem \<Rightarrow> caller \<Rightarrow> u32 \<Rightarrow> codegen_store \<Rightarrow> codegen_store \<times> instr list" where
  "caller_thunk m c object st =
     (case cl_gen c of
        GenVirtual \<Rightarrow> get_virtual m (caller_addr m c) object st
      | Gen g \<Rightarrow> get_function g (caller_addr m c) (cl_NumArgs c - 1) st)"

text \<open>A C call: \<open>ret_addr\<close> is the address after the call instruction.\<close>

fun push_args :: "u32 list \<Rightarrow> cpu \<Rightarrow> cpu" where
  "push_args [] s = s"
| "push_args (a # as) s = push32 a (push_args as s)"

definition c_call ::
  "(u32 \<Rightarrow> u32) \<Rightarrow> u32 \<Rightarrow> (u32 \<Rightarrow> cpu \<Rightarrow> cpu) \<Rightarrow> u32 \<Rightarrow> instr list \<Rightarrow> u32 list \<Rightarrow> cpu \<Rightarrow> cpu"
where
  "c_call flag_of ra callee ret_addr thunk args s =
     (let u = exec flag_of ra callee thunk (push32 ret_addr (push_args args s))
      in u\<lparr>regs := (regs u)\<lparr>esp := esp (regs u) + of_nat (4 * length args)\<rparr>\<rparr>)"

definition caller_call ::
  "(u32 \<Rightarrow> u32) \<Rightarrow> u32 \<Rightarrow> (u32 \<Rightarrow> cpu \<Rightarrow> cpu) \<Rightarrow> u32 \<Rightarrow> caller \<Rightarrow> u32 list \<Rightarrow> codegen_store \<Rightarrow> cpu
     \<Rightarrow> codegen_store \<times> cpu"
where
  "caller_call flag_of ra callee ret_addr c args st s =
     (case caller_thunk (ram s) c (hd args) st of
        (st1, thunk) \<Rightarrow> (st1, c_call flag_of ra callee ret_addr thunk args s))"

section \<open>The functions of the game\<close>

definition ClickMission_caller :: caller where "ClickMission_caller = this_caller 0x6FFBE0 5"
definition ClickEvent_caller :: caller where "ClickEvent_caller = this_caller 0x6FFE00 2"
definition DeployObject_caller :: caller where "DeployObject_caller = this_caller 0x7393C0 1"
definition SellBuilding_caller :: caller where "SellBuilding_caller = this_caller 0x447110 2"
definition SelectObject_caller :: caller where "SelectObject_caller = this_caller 0x6FBFA0 1"
definition CanPlaceHere_caller :: caller where "CanPlaceHere_caller = this_caller 0x464AC0 3"
definition Passes_Proximity_Check_caller :: caller where "Passes_Proximity_Check_caller = this_caller 0x4A8EB0 5"
definition SomeCheck_caller :: caller where "SomeCheck_caller = this_caller 0x4A9070 5"
definition GetFoundationData_caller :: caller where "GetFoundationData_caller = this_caller 0x45EC20 2"
definition AddMessage_caller :: caller where "AddMessage_caller = this_caller 0x5D3BA0 8"

definition sprintf_caller :: caller where
  "sprintf_caller = \<lparr>cl_address = 0x7E14B0, cl_NumArgs = 2, cl_gen = Gen GenFast, cl_import = True\<rparr>"

definition GetContainedTiberiumValue_caller :: caller where "GetContainedTiberiumValue_caller = this_caller 0x485020 1"
definition WhatAmI_caller :: caller where "WhatAmI_caller = virtual_caller 11 1"
definition DemandProduction_caller :: caller where "DemandProduction_caller = this_caller 0x4C9C70 4"
definition GetOwners_caller :: caller where "GetOwners_caller = virtual_caller 28 1"
definition IsShrouded_caller :: caller where "IsShrouded_caller = this_caller 0x487950 1"
definition GetDestination_caller :: caller where "GetDestination_caller = virtual_caller 19 3"
definition GetPixels_caller :: caller where "GetPixels_caller = this_caller 0x69E740 2"
definition CanBuild_caller :: caller where "CanBuild_caller = this_caller 0x4F7870 4"

lemmas caller_defs = this_caller_def virtual_caller_def ClickMission_caller_def ClickEvent_caller_def DeployObject_caller_def
  SellBuilding_caller_def SelectObject_caller_def CanPlaceHere_caller_def Passes_Proximity_Check_caller_def
  SomeCheck_caller_def GetFoundationData_caller_def AddMessage_caller_def GetContainedTiberiumValue_caller_def
  sprintf_caller_def WhatAmI_caller_def IsShrouded_caller_def CanBuild_caller_def

text \<open>The callers that the parsers, the commands and the callbacks use. \<open>sprintf\<close> is called by the callback for
  debug output; the remaining four are used nowhere.\<close>

definition used_callers :: "caller list" where
  "used_callers =
     [ClickMission_caller, ClickEvent_caller, DeployObject_caller, SellBuilding_caller, SelectObject_caller,
      CanPlaceHere_caller, Passes_Proximity_Check_caller, SomeCheck_caller, GetFoundationData_caller, AddMessage_caller,
      sprintf_caller, GetContainedTiberiumValue_caller, WhatAmI_caller, IsShrouded_caller, CanBuild_caller]"

text \<open>The methods of \<open>ABIGameMD\<close>: the caller and the arguments. Pointers to local data (a cell, the characters
  of a message) are arguments.\<close>

definition abi_SelectObject :: "u32 \<Rightarrow> caller \<times> u32 list" where
  "abi_SelectObject address = (SelectObject_caller, [address])"

definition abi_SellBuilding :: "u32 \<Rightarrow> caller \<times> u32 list" where
  "abi_SellBuilding address = (SellBuilding_caller, [address, 1])"

definition abi_DeployObject :: "u32 \<Rightarrow> caller \<times> u32 list" where
  "abi_DeployObject address = (DeployObject_caller, [address])"

definition abi_ClickEvent :: "u32 \<Rightarrow> u8 \<Rightarrow> caller \<times> u32 list" where
  "abi_ClickEvent address event = (ClickEvent_caller, [address, ucast event])"

definition abi_CanPlaceHere :: "u32 \<Rightarrow> u32 \<Rightarrow> u32 \<Rightarrow> caller \<times> u32 list" where
  "abi_CanPlaceHere p_this cell house_owner = (CanPlaceHere_caller, [p_this, cell, house_owner])"

definition abi_AddMessage :: "u32 \<Rightarrow> u32 \<Rightarrow> u32 \<Rightarrow> u32 \<Rightarrow> u32 \<Rightarrow> bool \<Rightarrow> caller \<times> u32 list" where
  "abi_AddMessage i message color style duration_frames single_player =
     (AddMessage_caller,
      [0xA8BC60, 0, i, message, color, style, duration_frames, (if single_player then 1 else 0)])"

text \<open>\<open>fake_stack\<close> is the address of the local block of bytes, whose contents are \<open>sprintf_stack\<close>.\<close>

definition abi_sprintf :: "u32 \<Rightarrow> caller \<times> u32 list" where
  "abi_sprintf fake_stack = (sprintf_caller, [fake_stack, 128])"

section \<open>The store of thunks\<close>

text \<open>The stores that calls through the callers of a list lead to. The memory of the game may be
  different at every call, but the import table keeps the address \<open>imp\<close> of an imported function; a virtual function is
  not one of the functions called by address.\<close>

definition fixed_address :: "u32 \<Rightarrow> caller \<Rightarrow> u32" where
  "fixed_address imp c = (if cl_import c then imp else cl_address c)"

definition fixed_addresses :: "u32 \<Rightarrow> caller list \<Rightarrow> u32 list" where
  "fixed_addresses imp T = map (fixed_address imp) (filter (\<lambda>c. cl_gen c \<noteq> GenVirtual) T)"

definition target_ok :: "u32 \<Rightarrow> caller list \<Rightarrow> mem \<Rightarrow> caller \<Rightarrow> u32 \<Rightarrow> bool" where
  "target_ok imp T m c object \<longleftrightarrow>
     (if cl_gen c = GenVirtual then vaddr m c object \<notin> set (fixed_addresses imp T) else caller_addr m c = fixed_address imp c)"

inductive thunk_store :: "u32 \<Rightarrow> caller list \<Rightarrow> codegen_store \<Rightarrow> bool" for imp T where
  store_empty: "thunk_store imp T Map.empty"
| store_call: "thunk_store imp T st \<Longrightarrow> c \<in> set T \<Longrightarrow> target_ok imp T m c object
     \<Longrightarrow> thunk_store imp T (fst (caller_thunk m c object st))"

inductive_simps thunk_store_empty [simp]: "thunk_store imp T Map.empty"

text \<open>What the list of callers has to satisfy: no address is called with two numbers of arguments, there is one
  virtual function, without further arguments, and a block of bytes is passed as an address and a size.\<close>

definition consistent :: "u32 \<Rightarrow> caller list \<Rightarrow> bool" where
  "consistent imp T \<longleftrightarrow> distinct (fixed_addresses imp T)
     \<and> list_all (\<lambda>c. 1 \<le> cl_NumArgs c \<and> cl_NumArgs c \<le> 1001 \<and> (cl_gen c = Gen GenFast \<longrightarrow> cl_NumArgs c = 2)) T
     \<and> list_all (\<lambda>c. cl_gen c = GenVirtual \<longrightarrow> cl_NumArgs c = 1 \<and> \<not> cl_import c
         \<and> list_all (\<lambda>d. cl_gen d = GenVirtual \<longrightarrow> cl_address d = cl_address c) T) T"

text \<open>The imported function is not a function of the game itself.\<close>

definition import_ok :: "u32 \<Rightarrow> bool" where
  "import_ok imp \<longleftrightarrow> imp \<notin> cl_address ` set used_callers"

lemma used_callers_consistent: "import_ok imp \<Longrightarrow> consistent imp used_callers"
  by (simp add: import_ok_def consistent_def used_callers_def fixed_addresses_def fixed_address_def caller_defs)

definition thunk_of :: "u32 \<Rightarrow> caller \<Rightarrow> instr list" where
  "thunk_of imp c =
     (case cl_gen c of
        GenVirtual \<Rightarrow> VirtualCall (cl_address c) 0
      | Gen GenThis \<Rightarrow> ThisCall (fixed_address imp c) (cl_NumArgs c - 1)
      | Gen GenFast \<Rightarrow> FastCall (fixed_address imp c))"

definition thunks_ok :: "u32 \<Rightarrow> caller list \<Rightarrow> codegen_store \<Rightarrow> bool" where
  "thunks_ok imp T st \<longleftrightarrow> (\<forall>a code. st a = Some code \<longrightarrow>
     (\<exists>c \<in> set T. code = thunk_of imp c
        \<and> (if cl_gen c = GenVirtual then a \<notin> set (fixed_addresses imp T) else a = fixed_address imp c)))"

lemma consistentD:
  assumes "consistent imp T" and "c \<in> set T"
  shows "1 \<le> cl_NumArgs c" "cl_NumArgs c \<le> 1001" "cl_gen c = Gen GenFast \<Longrightarrow> cl_NumArgs c = 2"
    and "cl_gen c = GenVirtual \<Longrightarrow> cl_NumArgs c = 1" "cl_gen c = GenVirtual \<Longrightarrow> \<not> cl_import c"
    and "\<And>d. cl_gen c = GenVirtual \<Longrightarrow> d \<in> set T \<Longrightarrow> cl_gen d = GenVirtual \<Longrightarrow> cl_address d = cl_address c"
    and "\<And>d. cl_gen c \<noteq> GenVirtual \<Longrightarrow> d \<in> set T \<Longrightarrow> cl_gen d \<noteq> GenVirtual
      \<Longrightarrow> fixed_address imp d = fixed_address imp c \<Longrightarrow> d = c"
proof -
  have all: "\<forall>c \<in> set T. 1 \<le> cl_NumArgs c \<and> cl_NumArgs c \<le> 1001 \<and> (cl_gen c = Gen GenFast \<longrightarrow> cl_NumArgs c = 2)"
    and v: "\<forall>c \<in> set T. cl_gen c = GenVirtual \<longrightarrow> cl_NumArgs c = 1 \<and> \<not> cl_import c
      \<and> (\<forall>d \<in> set T. cl_gen d = GenVirtual \<longrightarrow> cl_address d = cl_address c)"
    using assms(1) unfolding consistent_def list_all_iff by blast+
  from all assms(2) show "1 \<le> cl_NumArgs c" "cl_NumArgs c \<le> 1001" "cl_gen c = Gen GenFast \<Longrightarrow> cl_NumArgs c = 2" by blast+
  show "cl_gen c = GenVirtual \<Longrightarrow> cl_NumArgs c = 1" "cl_gen c = GenVirtual \<Longrightarrow> \<not> cl_import c"
    "\<And>d. cl_gen c = GenVirtual \<Longrightarrow> d \<in> set T \<Longrightarrow> cl_gen d = GenVirtual \<Longrightarrow> cl_address d = cl_address c"
    using v assms(2) by blast+
  have "inj_on (fixed_address imp) (set (filter (\<lambda>c. cl_gen c \<noteq> GenVirtual) T))"
    using assms by (simp add: consistent_def fixed_addresses_def distinct_map)
  then show "\<And>d. cl_gen c \<noteq> GenVirtual \<Longrightarrow> d \<in> set T \<Longrightarrow> cl_gen d \<noteq> GenVirtual
      \<Longrightarrow> fixed_address imp d = fixed_address imp c \<Longrightarrow> d = c"
    using assms by (auto simp: inj_on_def)
qed

text \<open>A call finds or generates the thunk of its caller and keeps the store in order.\<close>

lemma fixed_member: "c \<in> set T \<Longrightarrow> cl_gen c \<noteq> GenVirtual \<Longrightarrow> fixed_address imp c \<in> set (fixed_addresses imp T)"
  by (auto simp: fixed_addresses_def)

lemma caller_thunk_lookup:
  assumes "target_ok imp T m c object" and "cl_gen c = GenVirtual \<Longrightarrow> \<not> cl_import c"
  shows "caller_thunk m c object st =
    (let a = (if cl_gen c = GenVirtual then vaddr m c object else fixed_address imp c)
     in case st a of Some code \<Rightarrow> (st, code) | None \<Rightarrow> (st(a \<mapsto> thunk_of imp c), thunk_of imp c))"
  using assms
  by (auto simp: caller_thunk_def get_virtual_def get_function_def find_codegen_def map_at_def add_entry_def target_ok_def
      thunk_of_def vaddr_def caller_addr_def [of m c] Let_def split: option.splits caller_gen.splits gen_t.splits)

lemma caller_thunk_ok:
  assumes T: "consistent imp T" and st: "thunks_ok imp T st" and c: "c \<in> set T" and t: "target_ok imp T m c object"
  shows "snd (caller_thunk m c object st) = thunk_of imp c" and "thunks_ok imp T (fst (caller_thunk m c object st))"
proof -
  note cD = consistentD [OF T c]
  define a where "a = (if cl_gen c = GenVirtual then vaddr m c object else fixed_address imp c)"
  have eq: "caller_thunk m c object st =
      (case st a of Some code \<Rightarrow> (st, code) | None \<Rightarrow> (st(a \<mapsto> thunk_of imp c), thunk_of imp c))"
    by (subst caller_thunk_lookup [OF t], rule cD(5), assumption) (simp only: Let_def a_def)
  have hit: "code = thunk_of imp c" if "st a = Some code" for code
  proof -
    from st that obtain d where d: "d \<in> set T" "code = thunk_of imp d"
      "if cl_gen d = GenVirtual then a \<notin> set (fixed_addresses imp T) else a = fixed_address imp d"
      unfolding thunks_ok_def by blast
    show ?thesis
    proof (cases "cl_gen c = GenVirtual")
      case True
      then have "a \<notin> set (fixed_addresses imp T)" using t by (simp add: a_def target_ok_def)
      then have v: "cl_gen d = GenVirtual" using d fixed_member [OF d(1)] by (auto split: if_splits)
      then show ?thesis using cD(6) [OF True d(1) v] d(2) True by (simp add: thunk_of_def)
    next
      case False
      then have "cl_gen d \<noteq> GenVirtual" using d(3) fixed_member [OF c False] by (auto simp: a_def)
      then show ?thesis using cD(7) [OF False d(1)] d False by (simp add: a_def)
    qed
  qed
  show "snd (caller_thunk m c object st) = thunk_of imp c" unfolding eq using hit by (simp split: option.splits)
  have new: "thunks_ok imp T (st(a \<mapsto> thunk_of imp c))"
    using st c t by (auto simp: thunks_ok_def a_def target_ok_def)
  show "thunks_ok imp T (fst (caller_thunk m c object st))" unfolding eq using st new by (simp split: option.splits)
qed

lemma thunk_store_ok:
  assumes "thunk_store imp T st" and "consistent imp T"
  shows "thunks_ok imp T st"
  using assms(1) by induction (simp_all add: thunks_ok_def [of imp T Map.empty] caller_thunk_ok(2) [OF assms(2)])

section \<open>The C call\<close>

lemma push32_simps [simp]:
  "esp (regs (push32 v s)) = esp (regs s) - 4" "ram (push32 v s) = write32 (ram s) (esp (regs s) - 4) v"
  by (simp_all add: push32_def)

lemma push_args_esp: "esp (regs (push_args as s)) = esp (regs s) - of_nat (4 * length as)"
  by (induction "as") (simp_all add: algebra_simps)

lemma push_args_read:
  "k < length as \<Longrightarrow> length as \<le> 1001
   \<Longrightarrow> read32 (ram (push_args as s)) (esp (regs (push_args as s)) + of_nat (4 * k)) = as ! k"
proof (induction "as" arbitrary: k)
  case (Cons a "as")
  let ?t = "push_args as s"
  show ?case
  proof (cases k)
    case (Suc j)
    have "read32 (write32 (ram ?t) (esp (regs ?t) - of_nat 4) a) (esp (regs ?t) + of_nat (4 * j)) =
        read32 (ram ?t) (esp (regs ?t) + of_nat (4 * j))"
      by (rule read_above_write_below) (use Cons.prems Suc in simp_all)
    with Cons.IH [of j] Cons.prems Suc show ?thesis by (simp add: algebra_simps)
  qed simp
qed simp

lemma c_call_entry:
  assumes "length args \<le> 1001"
  shows "k < length args \<Longrightarrow> c_arg (push32 ret_addr (push_args args s)) k = args ! k"
    and "top32 (push32 ret_addr (push_args args s)) = ret_addr"
    and "esp (regs (push32 ret_addr (push_args args s))) + 4 = esp (regs s) - of_nat (4 * length args)"
proof -
  let ?t = "push_args args s"
  show "c_arg (push32 ret_addr ?t) k = args ! k" if "k < length args"
  proof -
    have "read32 (write32 (ram ?t) (esp (regs ?t) - of_nat 4) ret_addr) (esp (regs ?t) + of_nat (4 * k)) =
        read32 (ram ?t) (esp (regs ?t) + of_nat (4 * k))"
      by (rule read_above_write_below) (use assms that in simp_all)
    with push_args_read [OF that assms, of s] show ?thesis by (simp add: c_arg_def algebra_simps)
  qed
  show "top32 (push32 ret_addr ?t) = ret_addr" by (simp add: top32_def)
  show "esp (regs (push32 ret_addr ?t)) + 4 = esp (regs s) - of_nat (4 * length args)"
    by (simp add: push_args_esp)
qed

text \<open>A virtual function without further arguments.\<close>

definition vfun :: "mem \<Rightarrow> u32 \<Rightarrow> u32 \<Rightarrow> u32" where
  "vfun m i object = read32 m (read32 m object + 4 * i)"

lemma VirtualCall0_entry:
  "exec flag_of ra callee (VirtualCall i 0) s =
     exec flag_of ra callee [CALL_R EAX, RET]
       (s\<lparr>regs := (regs s)\<lparr>ecx := c_arg s 0, eflags := flag_of (esp (regs s)), eax := vfun (ram s) i (c_arg s 0)\<rparr>\<rparr>)"
  by (simp add: VirtualCall_def copy_args_def c_arg_def vfun_def set_flags_def Let_def mult.commute)

lemma VirtualCall0_correct:
  assumes "thiscall_fn 0 ra (c_arg s 0) args res (callee (vfun (ram s) i (c_arg s 0)))"
  shows "let u = exec flag_of ra callee (VirtualCall i 0) s
    in eip u = top32 s \<and> esp (regs u) = esp (regs s) + 4 \<and> eax (regs u) = res"
proof -
  let ?t = "s\<lparr>regs := (regs s)\<lparr>ecx := c_arg s 0, eflags := flag_of (esp (regs s)), eax := vfun (ram s) i (c_arg s 0)\<rparr>\<rparr>"
  have "let u = exec flag_of ra callee [CALL_R EAX, RET] ?t
    in eip u = read32 (ram ?t) (esp (regs s)) \<and> esp (regs u) = esp (regs s) + 4 \<and> eax (regs u) = res"
    by (rule thunk_call [where n = 0 and obj = "c_arg s 0" and args = args]) (use assms in simp_all)
  then show ?thesis unfolding VirtualCall0_entry by (simp add: top32_def)
qed

text \<open>The thunk of a virtual function is generated for a function without arguments. A function with arguments
  reads the return address of the C call in place of its first argument.\<close>

lemma virtual_arguments_lost:
  assumes "find_codegen (vaddr m GetDestination_caller object) st = None"
  shows "\<exists>t. exec flag_of ra callee (snd (caller_thunk m GetDestination_caller object st)) s =
      exec1 flag_of ra callee RET (callee (vfun (ram s) 19 (c_arg s 0)) t)
    \<and> read32 (ram t) (esp (regs t) + 4) = top32 s"
proof -
  have "snd (caller_thunk m GetDestination_caller object st) = VirtualCall 19 0"
    using assms by (simp add: caller_thunk_def get_virtual_def GetDestination_caller_def virtual_caller_def
        vaddr_def caller_addr_def add_entry_def Let_def)
  moreover have "read32 (write32 (ram s) (esp (regs s) - of_nat 4) ra) (esp (regs s) + of_nat 0) = top32 s"
    unfolding top32_def by (subst read_above_write_below) simp_all
  ultimately show ?thesis by (simp add: VirtualCall0_entry push32_def) (rule exI, rule conjI [OF refl], simp)
qed

section \<open>Calls\<close>

text \<open>The dword at an address does not overlap with the \<open>n\<close> bytes below the stack pointer.\<close>

definition off_stack :: "u32 \<Rightarrow> nat \<Rightarrow> u32 \<Rightarrow> bool" where
  "off_stack sp n x \<longleftrightarrow> n \<le> unat (x - (sp - of_nat n)) \<and> unat (x - (sp - of_nat n)) \<le> 2 ^ 32 - 4"

lemma off_stack_read:
  assumes "off_stack sp 8 x"
  shows "read32 (write32 (write32 m (sp - 4) v) (sp - 8) w) x = read32 m x"
proof -
  have o: "8 \<le> unat (x - (sp - 8))" "unat (x - (sp - 8)) \<le> 2 ^ 32 - 4" using assms by (simp_all add: off_stack_def)
  have le: "4 \<le> x - (sp - 8)" using o by (simp add: word_le_nat_alt)
  have eq: "x - (sp - 4) = (x - (sp - 8)) - 4" by simp
  have "unat (x - (sp - 4)) = unat (x - (sp - 8)) - 4" unfolding eq using unat_sub [OF le] by simp
  then show ?thesis using o by (simp add: read32_write32_other)
qed

text \<open>The function that a caller stands for, and what it promises. \<open>sprintf\<close> is passed a block of bytes.\<close>

definition game_function :: "mem \<Rightarrow> caller \<Rightarrow> u32 list \<Rightarrow> u32" where
  "game_function m c args = (if cl_gen c = GenVirtual then vaddr m c (hd args) else caller_addr m c)"

definition game_fn :: "mem \<Rightarrow> caller \<Rightarrow> u32 \<Rightarrow> u32 list \<Rightarrow> u32 \<Rightarrow> (cpu \<Rightarrow> cpu) \<Rightarrow> bool" where
  "game_fn m c ra args res fn \<longleftrightarrow>
     (if cl_gen c = Gen GenFast
      then cdecl_fn (unat (args ! 1)) ra (load_bytes m (args ! 0) (unat (args ! 1))) res fn
      else thiscall_fn (cl_NumArgs c - 1) ra (hd args) (\<lambda>k. args ! Suc k) res fn)"

text \<open>What a call has to satisfy. The object of a virtual call and its table of functions, and the block of bytes for
  \<open>sprintf\<close>, are not in the part of the stack that the call uses.\<close>

definition call_ready :: "u32 \<Rightarrow> caller list \<Rightarrow> caller \<Rightarrow> u32 list \<Rightarrow> cpu \<Rightarrow> bool" where
  "call_ready imp T c args s \<longleftrightarrow> c \<in> set T \<and> length args = cl_NumArgs c \<and> target_ok imp T (ram s) c (hd args)
     \<and> (cl_gen c = GenVirtual \<longrightarrow> off_stack (esp (regs s)) 8 (hd args)
         \<and> off_stack (esp (regs s)) 8 (read32 (ram s) (hd args) + 4 * cl_address c))
     \<and> (cl_gen c = Gen GenFast \<longrightarrow> unat (args ! 1) \<le> 2 ^ 31
         \<and> block_off (esp (regs s)) (unat (args ! 1) + 16) (args ! 0) (unat (args ! 1)))"

text \<open>The three kinds of thunks. \<open>t\<close> is the state after the C call, \<open>s\<close> the one before.\<close>

definition returns_to :: "u32 \<Rightarrow> cpu \<Rightarrow> cpu \<Rightarrow> bool" where
  "returns_to res t u \<longleftrightarrow> eip u = top32 t \<and> esp (regs u) = esp (regs t) + 4 \<and> eax (regs u) = res"

lemma thunk_virtual:
  assumes r: "call_ready imp T c [a] s" and v: "cl_gen c = GenVirtual" "\<not> cl_import c" "cl_NumArgs c = 1"
    and fn: "game_fn (ram s) c ra [a] res (callee (game_function (ram s) c [a]))"
  shows "returns_to res (push32 ret_addr (push_args [a] s))
    (exec flag_of ra callee (thunk_of imp c) (push32 ret_addr (push_args [a] s)))"
proof -
  let ?s = "push32 ret_addr (push_args [a] s)"
  have obj: "c_arg ?s 0 = a" using c_call_entry(1) [of "[a]" 0 ret_addr s] by simp
  have "vfun (ram ?s) (cl_address c) a = vfun (ram s) (cl_address c) a"
    using r v by (simp add: vfun_def call_ready_def off_stack_read)
  then have "thiscall_fn 0 ra (c_arg ?s 0) (\<lambda>k. [a] ! Suc k) res (callee (vfun (ram ?s) (cl_address c) (c_arg ?s 0)))"
    using fn v obj by (simp add: game_fn_def game_function_def vaddr_def vfun_def caller_addr_def)
  from VirtualCall0_correct [where callee = callee, OF this, of flag_of] v show ?thesis
    by (simp add: thunk_of_def returns_to_def Let_def)
qed

lemma thunk_member:
  assumes r: "call_ready imp T c args s" and g: "cl_gen c = Gen GenThis" "1 \<le> cl_NumArgs c" "cl_NumArgs c \<le> 1001"
    and fn: "game_fn (ram s) c ra args res (callee (game_function (ram s) c args))"
  shows "returns_to res (push32 ret_addr (push_args args s))
    (exec flag_of ra callee (thunk_of imp c) (push32 ret_addr (push_args args s)))"
proof -
  let ?s = "push32 ret_addr (push_args args s)"
  have len: "length args = cl_NumArgs c" "length args \<le> 1001" "args \<noteq> []" using r g by (auto simp: call_ready_def)
  note entry = c_call_entry(1) [OF len(2), where ret_addr = ret_addr and s = s]
  have obj: "c_arg ?s 0 = hd args" using entry [where k = 0] len(3) by (simp add: hd_conv_nth)
  have "(\<lambda>k. args ! Suc k) k = c_arg ?s (k + 1)" if "k < cl_NumArgs c - 1" for k
    using entry [where k = "Suc k"] len(1) that by simp
  then have "thiscall_fn (cl_NumArgs c - 1) ra (c_arg ?s 0) (\<lambda>k. c_arg ?s (k + 1)) res (callee (fixed_address imp c))"
    using fn g obj r by (simp add: thiscall_fn_def game_fn_def game_function_def call_ready_def target_ok_def)
  from ThisCall_correct [where callee = callee, OF _ this, of flag_of] g show ?thesis
    by (simp add: thunk_of_def returns_to_def Let_def)
qed

lemma thunk_block:
  assumes r: "call_ready imp T c [a, k] s" and g: "cl_gen c = Gen GenFast"
    and fn: "game_fn (ram s) c ra [a, k] res (callee (game_function (ram s) c [a, k]))"
  shows "returns_to res (push32 ret_addr (push_args [a, k] s))
    (exec flag_of ra callee (thunk_of imp c) (push32 ret_addr (push_args [a, k] s)))"
proof -
  let ?s = "push32 ret_addr (push_args [a, k] s)" and ?n = "unat k" and ?sp = "esp (regs s)"
  have b: "block_off ?sp (?n + 16) a ?n" "?n \<le> 2 ^ 31" using r g by (simp_all add: call_ready_def)
  have arg: "c_arg ?s 0 = a" "c_arg ?s 1 = of_nat ?n"
    using c_call_entry(1) [of "[a, k]" 0 ret_addr s] c_call_entry(1) [of "[a, k]" 1 ret_addr s] by simp_all
  have "esp (regs ?s) - of_nat (?n + 4) = ?sp - of_nat (?n + 16)" by simp
  then have off: "block_off (esp (regs ?s)) (?n + 4) (c_arg ?s 0) ?n"
    using b(1) unfolding block_off_def arg(1) by (simp only:) (meson add_leD1 add_le_cancel_left le_trans order_refl numeral_le_iff semiring_norm)
  have "load_bytes (ram ?s) a ?n = load_bytes (ram s) a ?n"
    using load_far [OF b(1), of "le32 k" 4] load_far [OF b(1), of "le32 a" 8] load_far [OF b(1), of "le32 ret_addr" 12]
    by (simp add: write32_def)
  then have "cdecl_fn ?n ra (load_bytes (ram ?s) (c_arg ?s 0) ?n) res (callee (fixed_address imp c))"
    using fn g r arg by (simp add: game_fn_def game_function_def call_ready_def target_ok_def)
  from FastCall_correct [where callee = callee, OF arg(2) b(2) off this, of flag_of] g show ?thesis
    by (simp add: thunk_of_def returns_to_def Let_def)
qed

lemma thunk_of_correct:
  assumes T: "consistent imp T" and r: "call_ready imp T c args s"
    and fn: "game_fn (ram s) c ra args res (callee (game_function (ram s) c args))"
  shows "returns_to res (push32 ret_addr (push_args args s))
    (exec flag_of ra callee (thunk_of imp c) (push32 ret_addr (push_args args s)))"
proof -
  have c: "c \<in> set T" "length args = cl_NumArgs c" using r by (simp_all add: call_ready_def)
  note cD = consistentD [OF T c(1)]
  consider "cl_gen c = GenVirtual" | "cl_gen c = Gen GenThis" | "cl_gen c = Gen GenFast"
    by (metis caller_gen.exhaust gen_t.exhaust)
  then show ?thesis
  proof cases
    case 1
    then obtain a where "args = [a]" using c cD(4) by (cases args) auto
    then show ?thesis using thunk_virtual [of imp T c a s] r fn 1 cD(4,5) by simp
  next
    case 2
    then show ?thesis using thunk_member [OF r] cD(1,2) fn by simp
  next
    case 3
    then obtain a k where "args = [a, k]" using c cD(3) by (cases args; cases "tl args") auto
    then show ?thesis using thunk_block [of imp T c a k s] r fn 3 by simp
  qed
qed

text \<open>C20: Whatever functions of the game were called before, in any order and on any objects, a call of
  one of the functions that the program uses runs that function with its object and its arguments (with its block of
  bytes for \<open>sprintf\<close>), and returns its result with the stack as before: the store never hands out the thunk of another
  function or of another number of arguments. It is assumed that the import table keeps the address \<open>imp\<close> of
  \<open>sprintf\<close>, that this is not a function of the game, and that a virtual function is none of the functions called by
  address.\<close>

theorem game_call_correct:
  assumes "import_ok imp" and "thunk_store imp used_callers st" and "call_ready imp used_callers c args s"
    and "game_fn (ram s) c ra args res (callee (game_function (ram s) c args))"
  shows "case caller_call flag_of ra callee ret_addr c args st s of (st1, u) \<Rightarrow>
    eip u = ret_addr \<and> esp (regs u) = esp (regs s) \<and> eax (regs u) = res \<and> thunk_store imp used_callers st1"
proof -
  note T = used_callers_consistent [OF assms(1)]
  have c: "c \<in> set used_callers" "target_ok imp used_callers (ram s) c (hd args)" "length args \<le> 1001"
    using assms(3) consistentD(2) [OF T] by (simp_all add: call_ready_def)
  have "snd (caller_thunk (ram s) c (hd args) st) = thunk_of imp c"
    by (rule caller_thunk_ok(1) [OF T thunk_store_ok [OF assms(2) T] c(1,2)])
  moreover have "thunk_store imp used_callers (fst (caller_thunk (ram s) c (hd args) st))"
    by (rule store_call [OF assms(2) c(1,2)])
  moreover note thunk_of_correct [where callee = callee, OF T assms(3,4), of ret_addr flag_of]
    c_call_entry(2,3) [OF c(3), of ret_addr s]
  ultimately show ?thesis
    by (cases "caller_thunk (ram s) c (hd args) st") (simp add: caller_call_def c_call_def returns_to_def Let_def)
qed

text \<open>Two functions, a member function and an imported one.\<close>

definition demo_fn :: "u32 \<Rightarrow> cpu \<Rightarrow> cpu" where
  "demo_fn a t =
     (if a = 0x500 then t\<lparr>regs := (regs t)\<lparr>esp := esp (regs t) + 4, eax := 5\<rparr>, eip := top32 t\<rparr>
      else t\<lparr>regs := (regs t)\<lparr>esp := esp (regs t) + 8, eax := a + 1\<rparr>, eip := top32 t\<rparr>)"

definition demo_frame :: cpu where
  "demo_frame = \<lparr>regs = \<lparr>eflags = 0, edi = 0, esi = 0, ebp = 0, esp = 0x1000, ebx = 0, edx = 0, ecx = 0, eax = 0\<rparr>,
     ram = write32 (\<lambda>_. 0) 0x7E14B0 0x500, eip = 0\<rparr>"

lemma demo_store:
  "thunk_store 0x500 used_callers
     (fst (caller_thunk (ram demo_frame) sprintf_caller 0x2000 Map.empty))"
  by (rule store_call)
    (simp_all add: used_callers_def target_ok_def demo_frame_def caller_addr_def fixed_address_def caller_defs)

theorem game_call_correct_witness:
  "(case caller_call (\<lambda>x. x) 9 demo_fn 7 SellBuilding_caller [0x100, 1]
      (fst (caller_thunk (ram demo_frame) sprintf_caller 0x2000 Map.empty)) demo_frame of (st1, u) \<Rightarrow>
    eip u = 7 \<and> esp (regs u) = 0x1000 \<and> eax (regs u) = 0x447111 \<and> thunk_store 0x500 used_callers st1)
   \<and> (case caller_call (\<lambda>x. x) 9 demo_fn 7 sprintf_caller [0x2000, 128]
      (fst (caller_thunk (ram demo_frame) sprintf_caller 0x2000 Map.empty)) demo_frame of (st1, u) \<Rightarrow>
    eip u = 7 \<and> esp (regs u) = 0x1000 \<and> eax (regs u) = 5 \<and> thunk_store 0x500 used_callers st1)"
proof -
  have imp: "import_ok 0x500" by (simp add: import_ok_def used_callers_def caller_defs)
  have esp: "esp (regs demo_frame) = 0x1000" by (simp add: demo_frame_def)
  note call = game_call_correct [where callee = demo_fn and flag_of = "\<lambda>x. x" and ret_addr = 7, OF imp demo_store,
      where s = demo_frame and ra = 9, unfolded esp]
  have m: "call_ready 0x500 used_callers SellBuilding_caller [0x100, 1] demo_frame"
    by (simp add: call_ready_def used_callers_def target_ok_def caller_addr_def fixed_address_def caller_defs)
  have mf: "game_fn (ram demo_frame) SellBuilding_caller 9 [0x100, 1] 0x447111
      (demo_fn (game_function (ram demo_frame) SellBuilding_caller [0x100, 1]))"
    by (simp add: game_fn_def thiscall_fn_def demo_fn_def game_function_def caller_addr_def caller_defs)
  have "block_off 0x1000 144 0x2000 128"
    by (simp add: block_off_def unat_word_ariths unat_of_nat)
  then have b: "call_ready 0x500 used_callers sprintf_caller [0x2000, 128] demo_frame"
    by (simp add: call_ready_def used_callers_def target_ok_def caller_addr_def fixed_address_def demo_frame_def caller_defs)
  have bf: "game_fn (ram demo_frame) sprintf_caller 9 [0x2000, 128] 5
      (demo_fn (game_function (ram demo_frame) sprintf_caller [0x2000, 128]))"
    by (simp add: game_fn_def cdecl_fn_def demo_fn_def game_function_def caller_addr_def demo_frame_def caller_defs)
  show ?thesis by (rule conjI [OF call [OF m mf] call [OF b bf]])
qed

text \<open>Every method of \<open>ABIGameMD\<close> passes as many arguments as its function takes.\<close>

lemma abi_arity:
  "c \<in> {abi_SelectObject a, abi_SellBuilding a, abi_DeployObject a, abi_ClickEvent a e, abi_CanPlaceHere a b d,
        abi_AddMessage a b d f g p, abi_sprintf a} \<Longrightarrow> length (snd c) = cl_NumArgs (fst c) \<and> fst c \<in> set used_callers"
  by (auto simp: abi_SelectObject_def abi_SellBuilding_def abi_DeployObject_def abi_ClickEvent_def abi_CanPlaceHere_def
      abi_AddMessage_def abi_sprintf_def used_callers_def caller_defs)

end
