(* ===== verification/Dll_Loader.thy ===== *)
theory Dll_Loader
  imports X86_Code Protocol
begin

text \<open>
  \<^verbatim>\<open>src/src/is_context.cpp\<close>, the code that is injected into the process of the game to load the library
  and start the service (\<open>DLLLoader\<close>), and \<^verbatim>\<open>src/src/dll_inject.cpp\<close>, the way it is injected into a
  suspended thread. \<open>LoadLibraryA\<close>, \<open>GetProcAddress\<close> and the exported function are functions
  outside the program: the theorems rely on their calling conventions, as contracts.
\<close>

section \<open>The loader\<close>

record ProcAddrs =
  p_LoadLibrary :: u32
  p_GetProcAddress :: u32

record loader_options =
  PA :: ProcAddrs
  path_dll :: string
  name_init :: string
  max_clients :: u32
  ld_port :: u32
  indirect :: bool
  no_init_hooks :: bool

definition vecu8cstr :: "string \<Rightarrow> vecu8" where
  "vecu8cstr s = to_bytes s @ [0]"

definition load_address :: "loader_options \<Rightarrow> u32 \<Rightarrow> instr" where
  "load_address opt p = (if indirect opt then MOV_RA EAX p else MOV_RI EAX p)"

definition call_LoadLibrary :: "loader_options \<Rightarrow> instr list" where
  "call_LoadLibrary opt =
     (case bytes_to_stack (vecu8cstr (path_dll opt)) of (pushes, sz) \<Rightarrow>
        pushes @ [LEA EAX EBP (- of_nat sz), PUSH_R EAX, load_address opt (p_LoadLibrary (PA opt)), CALL_R EAX,
                MOV_RR ESP EBP])"

definition call_GetProcAddress :: "loader_options \<Rightarrow> instr list" where
  "call_GetProcAddress opt =
     (case bytes_to_stack (vecu8cstr (name_init opt)) of (pushes, sz) \<Rightarrow>
        [PUSH_R EAX] @ pushes
        @ [LEA EAX EBP (- of_nat sz - 4), PUSH_R EAX, MOV_RM EAX EBP (- 4), PUSH_R EAX,
           load_address opt (p_GetProcAddress (PA opt)), CALL_R EAX])"

definition call_init :: "loader_options \<Rightarrow> instr list" where
  "call_init opt = [PUSH (of_bool (no_init_hooks opt)), PUSH (ld_port opt), PUSH (max_clients opt), CALL_R EAX]"

definition DLLLoader :: "loader_options \<Rightarrow> instr list" where
  "DLLLoader opt =
     save_regs @ [PUSH_R EBP, MOV_RR EBP ESP]
     @ call_LoadLibrary opt @ call_GetProcAddress opt @ call_init opt
     @ [MOV_RR ESP EBP, POP_R EBP] @ restore_regs"

text \<open>\<open>get_procaddr\<close>, the code that the tests use to look up one function.\<close>

definition get_procaddr :: "u32 \<Rightarrow> string \<Rightarrow> u32 \<Rightarrow> instr list" where
  "get_procaddr m name p_GetProcAddr =
     (case bytes_to_stack (vecu8cstr name) of (pushes, sz) \<Rightarrow>
        [PUSH_R EBP, MOV_RR EBP ESP] @ pushes
        @ [LEA EAX EBP (- of_nat sz), PUSH_R EAX, PUSH m, MOV_RI EAX p_GetProcAddr, CALL_R EAX,
           MOV_RR ESP EBP, POP_R EBP, RET])"

section \<open>Memory above the stack pointer\<close>

text \<open>The \<open>n\<close> bytes from \<open>b\<close> on are the same in both memories.\<close>

definition keeps :: "u32 \<Rightarrow> nat \<Rightarrow> mem \<Rightarrow> mem \<Rightarrow> bool" where
  "keeps b n m m' \<longleftrightarrow> (\<forall>x. unat (x - b) < n \<longrightarrow> m' x = m x)"

lemma keeps_refl [simp]: "keeps b n m m"
  by (simp add: keeps_def)

lemma keeps_trans: "keeps b n m1 m2 \<Longrightarrow> keeps b n m2 m3 \<Longrightarrow> keeps b n m1 m3"
  by (simp add: keeps_def)

lemma write32_below:
  fixes a x :: u32
  assumes "unat (x - a) + d < 2 ^ 32" and "4 \<le> d"
  shows "write32 m (a - of_nat d) w x = m x"
proof -
  have eq: "x - (a - of_nat d) = (x - a) + of_nat d" by simp
  have "unat (of_nat d :: u32) = d" using assms by (simp add: unat_of_nat)
  then have "unat ((x - a) + of_nat d) = unat (x - a) + d"
    using assms(1) by (subst unat_add_lem [THEN iffD1]) simp_all
  then have "4 \<le> unat (x - (a - of_nat d))" unfolding eq using assms(2) by simp
  then show ?thesis unfolding write32_def by (intro store_bytes_other) simp
qed

lemma keeps_write32: "4 \<le> d \<Longrightarrow> n + d \<le> 2 ^ 32 \<Longrightarrow> keeps b n m (write32 m (b - of_nat d) w)"
  by (auto simp: keeps_def intro!: write32_below)

lemma keeps_read32:
  assumes "keeps b n m m'" and "d + 4 \<le> n" and "n \<le> 2 ^ 32"
  shows "read32 m' (b + of_nat d) = read32 m (b + of_nat d)"
proof -
  have "m' (b + of_nat d + of_nat i) = m (b + of_nat d + of_nat i)" if "i < 4" for i
  proof -
    have "unat (of_nat (d + i) :: u32) = d + i"
      using that assms by (intro unat_of_nat32) simp
    then have "unat (b + of_nat d + of_nat i - b) < n" using that assms(2) by simp
    then show ?thesis using assms(1) by (simp add: keeps_def)
  qed
  from this [of 0] this [of 1] this [of 2] this [of 3] show ?thesis by (simp add: read32_def)
qed

lemma keeps_load_bytes:
  assumes "keeps b n m m'" and "k \<le> n" and "n \<le> 2 ^ 32"
  shows "load_bytes m' b k = load_bytes m b k"
proof -
  have "m' (b + of_nat i) = m (b + of_nat i)" if "i < k" for i
  proof -
    have "unat (of_nat i :: u32) = i" using that assms by (intro unat_of_nat32) simp
    then show ?thesis using assms that by (simp add: keeps_def)
  qed
  then show ?thesis by (simp add: load_bytes_def)
qed

lemma exec_pushes_keep:
  "n + 4 * length ds \<le> 2 ^ 32 \<Longrightarrow>
   (let t = exec flag_of ra callee (map PUSH ds) s
    in keeps (esp (regs s)) n (ram s) (ram t) \<and> regs t = (regs s)\<lparr>esp := esp (regs s) - of_nat (4 * length ds)\<rparr>
       \<and> eip t = eip s)"
proof (induction ds rule: rev_induct)
  case Nil
  then show ?case by simp
next
  case (snoc d ds)
  let ?t = "exec flag_of ra callee (map PUSH ds) s" and ?b = "esp (regs s)"
  from snoc have IH: "keeps ?b n (ram s) (ram ?t)" "regs ?t = (regs s)\<lparr>esp := ?b - of_nat (4 * length ds)\<rparr>"
    "eip ?t = eip s"
    by (auto simp: Let_def)
  have eq: "esp (regs ?t) - 4 = ?b - of_nat (4 * length (ds @ [d]))"
    unfolding IH(2) by (simp add: diff_diff_eq add.commute)
  have "keeps ?b n (ram ?t) (write32 (ram ?t) (?b - of_nat (4 * length (ds @ [d]))) d)"
    using snoc.prems by (intro keeps_write32) simp_all
  then have "keeps ?b n (ram s) (ram (push32 d ?t))"
    using keeps_trans [OF IH(1)] by (simp add: push32_def eq)
  moreover have "regs (push32 d ?t) = (regs s)\<lparr>esp := ?b - of_nat (4 * length (ds @ [d]))\<rparr>"
    unfolding push32_def using IH(2) eq by simp
  ultimately show ?case using IH(3) by (simp add: push32_def Let_def)
qed

section \<open>Calls\<close>

text \<open>The arguments a callee finds on the stack, and a C string in memory.\<close>

definition arg :: "cpu \<Rightarrow> nat \<Rightarrow> u32" where
  "arg t k = read32 (ram t) (esp (regs t) + 4 + of_nat (4 * k))"

definition cstr_at :: "mem \<Rightarrow> u32 \<Rightarrow> string \<Rightarrow> bool" where
  "cstr_at m a s \<longleftrightarrow> load_bytes m a (Suc (length s)) = vecu8cstr s"

text \<open>What a function promises when it is called with \<open>pre\<close>: it returns, having removed \<open>pops\<close> arguments,
  with the callee-saved \<open>ebp\<close> intact and \<open>post\<close>; it does not write to the frame of its caller,
  the \<open>n\<close> bytes from \<open>b\<close> on.\<close>

definition fn_contract ::
  "u32 \<Rightarrow> nat \<Rightarrow> nat \<Rightarrow> (cpu \<Rightarrow> bool) \<Rightarrow> (cpu \<Rightarrow> bool) \<Rightarrow> (cpu \<Rightarrow> cpu) \<Rightarrow> bool"
where
  "fn_contract b n pops pre post fn \<longleftrightarrow>
     (\<forall>t. pre t \<longrightarrow> esp (regs (fn t)) = esp (regs t) + 4 + of_nat (4 * pops) \<and> ebp (regs (fn t)) = ebp (regs t)
        \<and> keeps b n (ram t) (ram (fn t)) \<and> post (fn t))"

lemma fn_contractD:
  assumes "fn_contract b n pops pre post fn" and "pre t"
  shows "esp (regs (fn t)) = esp (regs t) + 4 + of_nat (4 * pops)" "ebp (regs (fn t)) = ebp (regs t)"
    "keeps b n (ram t) (ram (fn t))" "post (fn t)"
  using assms by (auto simp: fn_contract_def)

definition loads_library :: "loader_options \<Rightarrow> u32 \<Rightarrow> u32 \<Rightarrow> (cpu \<Rightarrow> cpu) \<Rightarrow> bool" where
  "loads_library opt b hmod =
     fn_contract b 44 1 (\<lambda>t. cstr_at (ram t) (arg t 0) (path_dll opt)) (\<lambda>t. eax (regs t) = hmod)"

definition gets_address :: "loader_options \<Rightarrow> u32 \<Rightarrow> u32 \<Rightarrow> u32 \<Rightarrow> (cpu \<Rightarrow> cpu) \<Rightarrow> bool" where
  "gets_address opt b hmod init_fn =
     fn_contract b 44 2 (\<lambda>t. arg t 0 = hmod \<and> cstr_at (ram t) (arg t 1) (name_init opt))
       (\<lambda>t. eax (regs t) = init_fn)"

definition inits_service :: "loader_options \<Rightarrow> u32 \<Rightarrow> (mem \<Rightarrow> bool) \<Rightarrow> (cpu \<Rightarrow> cpu) \<Rightarrow> bool" where
  "inits_service opt b Q =
     fn_contract b 44 0
       (\<lambda>t. arg t 0 = max_clients opt \<and> arg t 1 = ld_port opt \<and> arg t 2 = of_bool (no_init_hooks opt))
       (\<lambda>t. Q (ram t))"

lemma length_vecu8cstr [simp]: "length (vecu8cstr s) = Suc (length s)"
  by (simp add: vecu8cstr_def to_bytes_def)

text \<open>The string that \<open>bytes_to_stack\<close> leaves on the stack.\<close>

lemma pushed_string:
  assumes "length str < 2 ^ 31" and "bytes_to_stack (vecu8cstr str) = (pushes, sz)"
  shows "let t = exec flag_of ra callee pushes s; b = esp (regs s)
    in regs t = (regs s)\<lparr>esp := b - of_nat sz\<rparr> \<and> keeps b 4000 (ram s) (ram t)
       \<and> cstr_at (ram t) (b - of_nat sz) str \<and> Suc (length str) \<le> sz \<and> sz < length str + 5"
proof -
  let ?ds = "chunks4 (vecu8cstr str)" and ?t = "exec flag_of ra callee pushes s" and ?b = "esp (regs s)"
  have c: "pushes = map PUSH (rev ?ds)" "sz = 4 * length ?ds"
    using assms(2) by (auto simp: bytes_to_stack_def)
  have b: "esp (regs ?t) = ?b - of_nat sz" "load_bytes (ram ?t) (esp (regs ?t)) sz = zero_pad (vecu8cstr str)"
    "take (Suc (length str)) (zero_pad (vecu8cstr str)) = vecu8cstr str" "sz < Suc (length str) + 4"
    using bytes_to_stack_state [OF _ assms(2), of flag_of ra callee s] assms(1) by auto
  have len: "length (zero_pad (vecu8cstr str)) = sz"
    using b(2) by (metis length_load_bytes)
  then have le: "Suc (length str) \<le> sz" by (auto simp: zero_pad_def)
  have "load_bytes (ram ?t) (?b - of_nat sz) (Suc (length str)) = vecu8cstr str"
    using b le by (metis take_load_bytes)
  moreover have "4000 + 4 * length (rev ?ds) \<le> 2 ^ 32" using b(4) assms(1) c(2) by simp
  from exec_pushes_keep [OF this, of flag_of ra callee s] have "keeps ?b 4000 (ram s) (ram ?t)"
    "regs ?t = (regs s)\<lparr>esp := ?b - of_nat sz\<rparr>"
    unfolding c by (auto simp: Let_def)
  ultimately show ?thesis using le b(4) by (simp add: Let_def cstr_at_def)
qed

section \<open>The stages of the loader\<close>

text \<open>The state of the loader between two calls: the frame of the loader lies at \<open>b\<close>, with the saved
  \<open>ebp\<close>, registers and flags and the return address of the interrupted code.\<close>

definition in_loader :: "u32 \<Rightarrow> mem \<Rightarrow> cpu \<Rightarrow> bool" where
  "in_loader b m t \<longleftrightarrow> ebp (regs t) = b \<and> keeps b 44 m (ram t)"

lemma keeps_mono: "keeps b n m m' \<Longrightarrow> k \<le> n \<Longrightarrow> keeps b k m m'"
  by (simp add: keeps_def)

lemma of_nat_add4: "a - of_nat n - 4 = (a - of_nat (n + 4) :: u32)"
  by (simp add: diff_diff_eq)

text \<open>A register pushed below a string and the return address of the call.\<close>

lemma keeps_below:
  assumes "4 \<le> d" and "d + k \<le> 2 ^ 32" and "a = b - of_nat d"
  shows "keeps b k m (write32 m a w)"
  unfolding assms(3) using assms(1,2) by (intro keeps_write32) simp_all

lemma keeps_shift:
  assumes "keeps (b - of_nat d) n m m'" and "k + d \<le> n" and "n \<le> 2 ^ 32"
  shows "keeps b k m m'"
  unfolding keeps_def
proof (intro allI impI)
  fix x
  assume x: "unat (x - b) < k"
  have eq: "x - (b - of_nat d) = (x - b) + of_nat d" by simp
  have "unat (of_nat d :: u32) = d" using assms x by (intro unat_of_nat32) simp
  then have "unat ((x - b) + of_nat d) = unat (x - b) + d"
    using x assms by (subst unat_add_lem [THEN iffD1]) simp_all
  then have "unat (x - (b - of_nat d)) < n" unfolding eq using x assms(2) by simp
  then show "m' x = m x" using assms(1) by (simp add: keeps_def)
qed

lemma call_LoadLibrary_state:
  assumes t: "in_loader b m t" "esp (regs t) = b" and len: "length (path_dll opt) < 2 ^ 31"
    and dir: "\<not> indirect opt" and fn: "loads_library opt b hmod (callee (p_LoadLibrary (PA opt)))"
  shows "let u = exec flag_of ra callee (call_LoadLibrary opt) t
    in in_loader b m u \<and> esp (regs u) = b \<and> eax (regs u) = hmod"
proof -
  obtain pushes sz where ps: "bytes_to_stack (vecu8cstr (path_dll opt)) = (pushes, sz)" by fastforce
  let ?t1 = "exec flag_of ra callee pushes t" and ?a = "b - of_nat sz" and ?f = "p_LoadLibrary (PA opt)"
  have t1: "regs ?t1 = (regs t)\<lparr>esp := ?a\<rparr>" "keeps b 4000 (ram t) (ram ?t1)" "cstr_at (ram ?t1) ?a (path_dll opt)"
    "Suc (length (path_dll opt)) \<le> sz" "sz < length (path_dll opt) + 5"
    using pushed_string [OF len ps, of flag_of ra callee t] t(2) by (auto simp: Let_def)
  let ?m1 = "write32 (ram ?t1) (?a - 4) ?a"
  let ?m2 = "write32 ?m1 (?a - 8) ra"
  let ?t2 = "?t1\<lparr>ram := ?m2, regs := (regs ?t1)\<lparr>eax := ?f, esp := ?a - 8\<rparr>, eip := ?f\<rparr>"
  have c: "exec flag_of ra callee (call_LoadLibrary opt) t =
      (let u = callee ?f ?t2 in u\<lparr>regs := (regs u)\<lparr>esp := ebp (regs u)\<rparr>\<rparr>)"
    using t by (simp add: call_LoadLibrary_def ps load_address_def dir t1(1) push32_def in_loader_def diff_diff_eq add.commute Let_def)
  have k: "keeps ?a sz (ram ?t1) ?m1" "keeps ?a sz ?m1 ?m2"
    using keeps_below [of 4 sz _ ?a] keeps_below [of 8 sz _ ?a] t1(5) len by simp_all
  have str: "cstr_at ?m2 ?a (path_dll opt)"
    using keeps_load_bytes [OF keeps_trans [OF k] t1(4)] t1(3,5) len by (simp add: cstr_at_def)
  have "arg ?t2 0 = ?a"
    using read32_write32_other [of "?a - 4" "?a - 8" ?m1 ra] by (simp add: arg_def)
  with str have pre: "cstr_at (ram ?t2) (arg ?t2 0) (path_dll opt)" by simp
  have "keeps b 44 (ram ?t1) ?m1" "keeps b 44 ?m1 ?m2"
    using keeps_below [of "sz + 4" 44 _ b] keeps_below [of "sz + 8" 44 _ b] t1(5) len
    by (simp_all add: diff_diff_eq)
  then have k2: "keeps b 44 m (ram ?t2)"
    using t(1) keeps_mono [OF t1(2), of 44] by (auto simp: in_loader_def intro: keeps_trans)
  note fnD = fn_contractD [OF fn [unfolded loads_library_def] pre]
  show ?thesis
    using fnD t(1) t1(1) keeps_trans [OF k2 fnD(3)] unfolding c by (simp add: in_loader_def Let_def)
qed

lemma call_GetProcAddress_state:
  assumes t: "in_loader b m t" "esp (regs t) = b" "eax (regs t) = hmod"
    and len: "length (name_init opt) < 2 ^ 31"
    and dir: "\<not> indirect opt" and fn: "gets_address opt b hmod init_fn (callee (p_GetProcAddress (PA opt)))"
  shows "\<exists>d. let u = exec flag_of ra callee (call_GetProcAddress opt) t
    in in_loader b m u \<and> esp (regs u) = b - of_nat d \<and> d < 2 ^ 31 + 16 \<and> 4 \<le> d \<and> eax (regs u) = init_fn"
proof -
  obtain pushes sz where ps: "bytes_to_stack (vecu8cstr (name_init opt)) = (pushes, sz)" by fastforce
  let ?t0 = "push32 hmod t"
  obtain t1 where t1_eq: "exec flag_of ra callee pushes ?t0 = t1" by blast
  let ?a = "b - of_nat (sz + 4)" and ?f = "p_GetProcAddress (PA opt)"
  have t0: "esp (regs ?t0) = b - 4" "ram ?t0 = write32 (ram t) (b - 4) hmod" "regs ?t0 = (regs t)\<lparr>esp := b - 4\<rparr>"
    using t(2) by (simp_all add: push32_def)
  have t1: "regs t1 = (regs t)\<lparr>esp := ?a\<rparr>" "keeps (b - 4) 4000 (ram ?t0) (ram t1)"
    "cstr_at (ram t1) ?a (name_init opt)"
    "Suc (length (name_init opt)) \<le> sz" "sz < length (name_init opt) + 5"
    using pushed_string [OF len ps, of flag_of ra callee ?t0] t0 unfolding t1_eq by (auto simp: Let_def diff_diff_eq add.commute)
  have h: "read32 (ram t1) (b - 4) = hmod"
    using keeps_read32 [OF t1(2), of 0] t0(2) by simp
  let ?m1 = "write32 (ram t1) (?a - 4) ?a"
  let ?m2 = "write32 ?m1 (?a - 8) hmod"
  let ?m3 = "write32 ?m2 (?a - 12) ra"
  let ?t2 = "t1\<lparr>ram := ?m3, regs := (regs t1)\<lparr>eax := ?f, esp := ?a - 12\<rparr>, eip := ?f\<rparr>"
  have k: "keeps ?a (sz + 4) (ram t1) ?m1" "keeps ?a (sz + 4) ?m1 ?m2" "keeps ?a (sz + 4) ?m2 ?m3"
    using keeps_below [of 4 "sz + 4" _ ?a] keeps_below [of 8 "sz + 4" _ ?a] keeps_below [of 12 "sz + 4" _ ?a]
      t1(5) len by simp_all
  have "read32 ?m1 (?a + of_nat sz) = read32 (ram t1) (?a + of_nat sz)"
    by (rule keeps_read32 [OF k(1)]) (use t1(5) len in simp_all)
  then have h1: "read32 ?m1 (b - 4) = hmod" using h by simp
  have lea: "b + (- of_nat sz - 4) = b - (of_nat sz + 4)" by simp
  have c: "exec flag_of ra callee (call_GetProcAddress opt) t = callee ?f ?t2"
  proof -
    have "exec flag_of ra callee (call_GetProcAddress opt) t = exec flag_of ra callee
        [LEA EAX EBP (- of_nat sz - 4), PUSH_R EAX, MOV_RM EAX EBP (- 4), PUSH_R EAX, MOV_RI EAX ?f, CALL_R EAX] t1"
      using t1_eq t(3) by (simp add: call_GetProcAddress_def ps load_address_def dir)
    also have "\<dots> = callee ?f ?t2"
      using t(1) t1(1) h1 by (simp add: lea push32_def in_loader_def diff_diff_eq add.commute)
    finally show ?thesis .
  qed
  have str: "cstr_at ?m3 ?a (name_init opt)"
    using keeps_load_bytes [OF keeps_trans [OF keeps_trans [OF k(1,2)] k(3)], of "Suc (length (name_init opt))"]
      t1(3-5) len by (simp add: cstr_at_def)
  have "read32 ?m3 (?a - 8) = hmod" "read32 ?m3 (?a - 4) = ?a"
    by (simp_all add: read32_write32_other)
  then have "arg ?t2 0 = hmod" "arg ?t2 1 = ?a" by (simp_all add: arg_def)
  with str have pre: "arg ?t2 0 = hmod \<and> cstr_at (ram ?t2) (arg ?t2 1) (name_init opt)" by simp
  have "keeps b 44 (ram t1) ?m1" "keeps b 44 ?m1 ?m2" "keeps b 44 ?m2 ?m3"
    using keeps_below [of "sz + 8" 44 _ b] keeps_below [of "sz + 12" 44 _ b] keeps_below [of "sz + 16" 44 _ b]
      t1(5) len by (simp_all add: diff_diff_eq add.commute)
  then have k1: "keeps b 44 (ram t1) (ram ?t2)" by (auto intro: keeps_trans)
  have "keeps b 44 (ram t) (ram ?t0)" unfolding t0(2) using keeps_below [of 4 44 _ b] by simp
  moreover have "keeps b 44 (ram ?t0) (ram t1)"
    by (rule keeps_shift [of b 4 4000]) (use t1(2) in simp_all)
  ultimately have k2: "keeps b 44 m (ram ?t2)" using t(1) k1 by (auto simp: in_loader_def intro: keeps_trans)
  note fnD = fn_contractD [OF fn [unfolded gets_address_def] pre]
  show ?thesis
    using fnD t(1) t1(1,5) len keeps_trans [OF k2 fnD(3)] unfolding c
    by (intro exI [of _ "sz + 4"]) (simp add: in_loader_def Let_def)
qed

lemma call_init_state:
  assumes t: "in_loader b m t" "esp (regs t) = b - of_nat d" "4 \<le> d" "d < 2 ^ 31 + 16"
    and fn: "inits_service opt b Q (callee (eax (regs t)))"
  shows "let u = exec flag_of ra callee (call_init opt) t in in_loader b m u \<and> Q (ram u)"
proof -
  let ?a = "b - of_nat d" and ?f = "eax (regs t)"
  let ?m1 = "write32 (ram t) (?a - 4) (of_bool (no_init_hooks opt))"
  let ?m2 = "write32 ?m1 (?a - 8) (ld_port opt)"
  let ?m3 = "write32 ?m2 (?a - 12) (max_clients opt)"
  let ?m4 = "write32 ?m3 (?a - 16) ra"
  let ?t2 = "t\<lparr>ram := ?m4, regs := (regs t)\<lparr>esp := ?a - 16\<rparr>, eip := ?f\<rparr>"
  have c: "exec flag_of ra callee (call_init opt) t = callee ?f ?t2"
    using t(2) by (simp add: call_init_def push32_def diff_diff_eq add.commute)
  have "arg ?t2 0 = max_clients opt" "arg ?t2 1 = ld_port opt" "arg ?t2 2 = of_bool (no_init_hooks opt)"
    by (simp_all add: arg_def read32_write32_other)
  then have pre: "arg ?t2 0 = max_clients opt \<and> arg ?t2 1 = ld_port opt
      \<and> arg ?t2 2 = of_bool (no_init_hooks opt)" by simp
  have below: "keeps b 44 m' (write32 m' (?a - of_nat k) w)" if "k \<le> 16" for m' k w
    by (rule keeps_below [of "d + k"]) (use t(3,4) that in \<open>simp_all add: diff_diff_eq\<close>)
  have ks: "keeps b 44 (ram t) ?m1" "keeps b 44 ?m1 ?m2" "keeps b 44 ?m2 ?m3" "keeps b 44 ?m3 ?m4"
    using below [of 4] below [of 8] below [of 12] below [of 16] by simp_all
  have "keeps b 44 m (ram t)" using t(1) by (simp add: in_loader_def)
  note k4 = keeps_trans [OF keeps_trans [OF keeps_trans [OF keeps_trans [OF this ks(1)] ks(2)] ks(3)] ks(4)]
  then have k2: "keeps b 44 m (ram ?t2)" by simp
  note fnD = fn_contractD [OF fn [unfolded inits_service_def] pre]
  show ?thesis
    using fnD t(1) keeps_trans [OF k2 fnD(3)] unfolding c by (simp add: in_loader_def Let_def)
qed

lemma keeps_regs_at:
  assumes "keeps b 44 m m'"
  shows "regs_at m' (b + 4) = regs_at m (b + 4)" "read32 m' b = read32 m b" "read32 m' (b + 40) = read32 m (b + 40)"
proof -
  have r: "read32 m' (b + of_nat d) = read32 m (b + of_nat d)" if "d \<le> 40" for d
    by (rule keeps_read32 [OF assms]) (use that in simp_all)
  show "regs_at m' (b + 4) = regs_at m (b + 4)"
    using r [of 4] r [of 8] r [of 12] r [of 16] r [of 20] r [of 24] r [of 28] r [of 32] r [of 36]
    by (simp add: regs_at_def add.assoc)
  show "read32 m' b = read32 m b" "read32 m' (b + 40) = read32 m (b + 40)"
    using r [of 0] r [of 40] by simp_all
qed

text \<open>The first instructions set up the frame.\<close>

lemma loader_prologue:
  fixes s :: cpu and flag_of ra callee
  defines "t \<equiv> exec flag_of ra callee (save_regs @ [PUSH_R EBP, MOV_RR EBP ESP]) s" and "b \<equiv> esp (regs s) - 40"
  shows "in_loader b (ram t) t" "esp (regs t) = b" "regs_at (ram t) (b + 4) = regs s"
    "read32 (ram t) b = ebp (regs s)" "read32 (ram t) (b + 40) = top32 s"
proof -
  let ?u = "exec flag_of ra callee save_regs s"
  note u = save_regs_state [where s = s and flag_of = flag_of and ra = ra and callee = callee]
  have t: "t = ?u\<lparr>ram := write32 (ram ?u) b (ebp (regs s)), regs := (regs s)\<lparr>esp := b, ebp := b\<rparr>\<rparr>"
    unfolding t_def b_def using u(3) by (simp add: push32_def)
  have k: "keeps (b + 4) 40 (ram ?u) (ram t)"
    unfolding t using keeps_below [of 4 40 b "b + 4"] by simp
  show "in_loader b (ram t) t" "esp (regs t) = b" "read32 (ram t) b = ebp (regs s)"
    unfolding t by (simp_all add: in_loader_def)
  have r: "read32 (ram t) (b + 4 + of_nat d) = read32 (ram ?u) (b + 4 + of_nat d)" if "d \<le> 36" for d
    by (rule keeps_read32 [OF k]) (use that in simp_all)
  have "regs_at (ram t) (b + 4) = regs_at (ram ?u) (b + 4)"
    using r [of 0] r [of 4] r [of 8] r [of 12] r [of 16] r [of 20] r [of 24] r [of 28] r [of 32]
    by (simp add: regs_at_def add.assoc)
  also have "b + 4 = esp (regs ?u)" using u(2) by (simp add: b_def)
  finally show "regs_at (ram t) (b + 4) = regs s" using u(1) u(2) by (simp add: b_def)
  have "ram ?u (esp (regs s) + of_nat i) = ram s (esp (regs s) + of_nat i)" if "i < 4" for i
    using that u(5) [of "esp (regs s) + of_nat i"] unat_of_nat32 [of "36 + i"] by (simp add: add.commute)
  from this [of 0] this [of 1] this [of 2] this [of 3] have "read32 (ram ?u) (esp (regs s)) = top32 s"
    by (simp add: read32_def top32_def)
  then show "read32 (ram t) (b + 40) = top32 s" using r [of 36] by (simp add: b_def)
qed

section \<open>Properties\<close>

text \<open>The code of the loader without a final \<open>ret\<close>: everything is restored, but the address where the
  interrupted thread was is still on the stack.\<close>

lemma DLLLoader_state:
  assumes len: "length (path_dll opt) < 2 ^ 31" "length (name_init opt) < 2 ^ 31" and dir: "\<not> indirect opt"
    and b: "b = esp (regs s) - 40"
    and fns: "loads_library opt b hmod (callee (p_LoadLibrary (PA opt)))"
      "gets_address opt b hmod init_fn (callee (p_GetProcAddress (PA opt)))"
      "inits_service opt b Q (callee init_fn)"
  shows "let u = exec flag_of ra callee (DLLLoader opt) s
    in regs u = regs s \<and> top32 u = top32 s \<and> Q (ram u)"
proof -
  let ?x = "exec flag_of ra callee"
  obtain t0 where t0: "?x (save_regs @ [PUSH_R EBP, MOV_RR EBP ESP]) s = t0" by blast
  note p = loader_prologue [where s = s and flag_of = flag_of and ra = ra and callee = callee, folded b, unfolded t0]
  obtain t1 where t1: "?x (call_LoadLibrary opt) t0 = t1" "in_loader b (ram t0) t1" "esp (regs t1) = b"
    "eax (regs t1) = hmod"
    using call_LoadLibrary_state [where callee = callee and flag_of = flag_of and ra = ra, OF p(1,2) len(1) dir fns(1)] by (auto simp: Let_def)
  obtain t2 d where t2: "?x (call_GetProcAddress opt) t1 = t2" "in_loader b (ram t0) t2"
    "esp (regs t2) = b - of_nat d" "4 \<le> d" "d < 2 ^ 31 + 16" "eax (regs t2) = init_fn"
    using call_GetProcAddress_state [where callee = callee and flag_of = flag_of and ra = ra, OF t1(2-4) len(2) dir fns(2)] by (auto simp: Let_def)
  from fns(3) t2(6) have "inits_service opt b Q (callee (eax (regs t2)))" by simp
  from call_init_state [where callee = callee and flag_of = flag_of and ra = ra, OF t2(2-5) this] obtain t3 where
    t3: "?x (call_init opt) t2 = t3" "in_loader b (ram t0) t3" "Q (ram t3)" by (auto simp: Let_def)
  have "DLLLoader opt = (save_regs @ [PUSH_R EBP, MOV_RR EBP ESP]) @ call_LoadLibrary opt
      @ call_GetProcAddress opt @ call_init opt @ [MOV_RR ESP EBP, POP_R EBP] @ restore_regs"
    by (simp add: DLLLoader_def)
  then have x: "?x (DLLLoader opt) s = ?x restore_regs (?x [MOV_RR ESP EBP, POP_R EBP] t3)"
    by (simp only: exec_append t0 [unfolded exec_append] t1(1) t2(1) t3(1))
  let ?t4 = "t3\<lparr>regs := (regs t3)\<lparr>esp := b + 4, ebp := read32 (ram t3) b\<rparr>\<rparr>"
  have x4: "?x [MOV_RR ESP EBP, POP_R EBP] t3 = ?t4"
    using t3(2) by (simp add: in_loader_def pop_reg_def drop32_def top32_def)
  have k: "keeps b 44 (ram t0) (ram t3)" using t3(2) by (simp add: in_loader_def)
  have sp: "esp (regs s) = b + 40" using b by simp
  have "?x (DLLLoader opt) s = ?t4\<lparr>regs := (regs s)\<lparr>esp := b + 40\<rparr>\<rparr>"
    unfolding x x4 restore_regs_state using keeps_regs_at(1) [OF k] p(3) by simp
  then show ?thesis
    using t3(3) keeps_regs_at(3) [OF k] p(5) sp by (simp add: Let_def top32_def)
qed

text \<open>The injected code, ended by a \<open>ret\<close> as in the tests, loads the library, looks up the exported
  function and calls it with the number of clients, the port and the flag for hooks, and then
  gives the interrupted thread back: every register, the flags and the stack pointer are as
  before, and execution goes on where the thread was interrupted. This holds for all paths and
  names, whatever the three functions do outside the frame of the loader.\<close>

lemma DLLLoader_restores:
  assumes "length (path_dll opt) < 2 ^ 31" and "length (name_init opt) < 2 ^ 31" and "\<not> indirect opt"
    and "loads_library opt (esp (regs s) - 40) hmod (callee (p_LoadLibrary (PA opt)))"
    and "gets_address opt (esp (regs s) - 40) hmod init_fn (callee (p_GetProcAddress (PA opt)))"
    and "inits_service opt (esp (regs s) - 40) Q (callee init_fn)"
  shows "let u = exec flag_of ra callee (DLLLoader opt @ [RET]) s
    in eip u = top32 s \<and> regs u = (regs s)\<lparr>esp := esp (regs s) + 4\<rparr> \<and> Q (ram u)"
  using DLLLoader_state [where callee = callee and flag_of = flag_of and ra = ra, OF assms(1-3) refl assms(4-6)] by (auto simp: Let_def drop32_def)

text \<open>Functions that keep the conventions; the exported one leaves a mark in memory.\<close>

definition demo_return :: "nat \<Rightarrow> u32 \<Rightarrow> cpu \<Rightarrow> cpu" where
  "demo_return pops v t = t\<lparr>regs := (regs t)\<lparr>esp := esp (regs t) + 4 + of_nat (4 * pops), eax := v\<rparr>, eip := top32 t\<rparr>"

definition demo_fns :: "u32 \<Rightarrow> cpu \<Rightarrow> cpu" where
  "demo_fns a t =
     (if a = 0x100 then demo_return 1 0x500 t
      else if a = 0x200 then demo_return 2 0x300 t
      else (demo_return 0 0 t)\<lparr>ram := (ram t)(0 := 1)\<rparr>)"

definition demo_options :: loader_options where
  "demo_options =
     \<lparr>PA = \<lparr>p_LoadLibrary = 0x100, p_GetProcAddress = 0x200\<rparr>, path_dll = ''a.dll'', name_init = ''init'',
      max_clients = 4, ld_port = 14521, indirect = False, no_init_hooks = False\<rparr>"

definition demo_cpu :: cpu where
  "demo_cpu =
     \<lparr>regs = \<lparr>eflags = 0, edi = 1, esi = 2, ebp = 3, esp = 0x1000, ebx = 4, edx = 5, ecx = 6, eax = 7\<rparr>,
      ram = write32 (\<lambda>_. 0) 0x1000 0x4711, eip = 0\<rparr>"

end
