(* ===== verification/Injection.thy ===== *)
theory Injection
  imports Dll_Loader
begin

text \<open>
  \<^verbatim>\<open>src/src/process.cpp\<close>, threads of a process and their suspension, and \<^verbatim>\<open>src/src/dll_inject.cpp\<close>, the
  injection of code into a suspended process, up to \<open>inject_dll\<close> of \<^verbatim>\<open>src/src/is_context.cpp\<close>.

  The threads of the system are a list, in the order in which the operating system enumerates
  them. What the system permits is a record of parameters: opening a process, opening and suspending a thread,
  writing memory and setting a context. A thread runs when its suspend count is zero.
\<close>

section \<open>Threads\<close>

record thread_ctx =
  th_id :: u32
  th_owner :: u32
  th_regs :: X86Regs
  th_eip :: u32
  th_suspend :: nat

record permissions =
  can_open_process :: "u32 \<Rightarrow> bool"
  can_open :: "u32 \<Rightarrow> bool"
  can_suspend :: "u32 \<Rightarrow> bool"
  can_set_context :: "u32 \<Rightarrow> bool"
  can_write_memory :: "u32 \<Rightarrow> nat \<Rightarrow> bool"
  platform_error :: "int \<Rightarrow> string"
  last_error :: int

definition sys_error :: "permissions \<Rightarrow> string \<Rightarrow> exn" where
  "sys_error P msg = system_error (platform_error P) msg (last_error P)"

definition open_process :: "permissions \<Rightarrow> u32 \<Rightarrow> unit outcome" where
  "open_process P pid = (if can_open_process P pid then Return () else Raise (sys_error P ''OpenProcess''))"

definition open_thread :: "permissions \<Rightarrow> thread_ctx \<Rightarrow> unit outcome" where
  "open_thread P T = (if can_open P (th_id T) then Return () else Raise (sys_error P ''open_thread''))"

definition thread_suspend :: "permissions \<Rightarrow> thread_ctx \<Rightarrow> thread_ctx outcome" where
  "thread_suspend P T =
     (if can_suspend P (th_id T) then Return (T\<lparr>th_suspend := Suc (th_suspend T)\<rparr>)
      else Raise (sys_error P ''suspend_thread''))"

text \<open>\<open>ResumeThread\<close> decrements a positive count; its result is ignored.\<close>

definition thread_resume :: "thread_ctx \<Rightarrow> thread_ctx" where
  "thread_resume T = T\<lparr>th_suspend := th_suspend T - 1\<rparr>"

text \<open>\<open>Process::for_each_thread\<close>: the callback may change the thread or throw, which ends the loop.\<close>

fun for_each_thread ::
  "permissions \<Rightarrow> u32 \<Rightarrow> (thread_ctx \<Rightarrow> thread_ctx outcome) \<Rightarrow> thread_ctx list \<Rightarrow> thread_ctx list \<times> unit outcome"
where
  "for_each_thread P pid f [] = ([], Return ())"
| "for_each_thread P pid f (T # Ts) =
     (if th_owner T \<noteq> pid
      then (case for_each_thread P pid f Ts of (Ts', r) \<Rightarrow> (T # Ts', r))
      else case obind (open_thread P T) (\<lambda>_. f T) of
             Return T' \<Rightarrow> (case for_each_thread P pid f Ts of (Ts', r) \<Rightarrow> (T' # Ts', r))
           | Raise e \<Rightarrow> (T # Ts, Raise e)
           | Undefined \<Rightarrow> (T # Ts, Undefined))"

definition suspend_threads ::
  "permissions \<Rightarrow> u32 \<Rightarrow> u32 list \<Rightarrow> thread_ctx list \<Rightarrow> thread_ctx list \<times> unit outcome"
where
  "suspend_threads P pid no_suspend_ids Ts =
     for_each_thread P pid (\<lambda>T. if th_id T \<notin> set no_suspend_ids then thread_suspend P T else Return T) Ts"

definition suspend_threads_main ::
  "permissions \<Rightarrow> u32 \<Rightarrow> u32 \<Rightarrow> thread_ctx list \<Rightarrow> thread_ctx list \<times> unit outcome"
where
  "suspend_threads_main P pid main_tid Ts = suspend_threads P pid [main_tid] Ts"

definition resume_threads_main ::
  "permissions \<Rightarrow> u32 \<Rightarrow> u32 \<Rightarrow> thread_ctx list \<Rightarrow> thread_ctx list \<times> unit outcome"
where
  "resume_threads_main P pid main_tid Ts =
     for_each_thread P pid (\<lambda>T. Return (if th_id T \<noteq> main_tid then thread_resume T else T)) Ts"

definition resume_threads ::
  "permissions \<Rightarrow> u32 \<Rightarrow> u32 list \<Rightarrow> thread_ctx list \<Rightarrow> thread_ctx list \<times> unit outcome"
where
  "resume_threads P pid no_resume Ts =
     for_each_thread P pid (\<lambda>T. Return (if th_id T \<notin> set no_resume then thread_resume T else T)) Ts"

text \<open>\<open>proc_basename\<close> and \<open>get_pid\<close>; the list of processes with their names is the operating system's.\<close>

definition rfind :: "char \<Rightarrow> string \<Rightarrow> nat option" where
  "rfind c s = (if c \<in> set s then Some (length s - 1 - length (takeWhile (\<lambda>x. x \<noteq> c) (rev s))) else None)"

definition proc_basename :: "string \<Rightarrow> string" where
  "proc_basename name = (let pos = (case rfind (CHR 0x5C) name of None \<Rightarrow> 0 | Some p \<Rightarrow> p) in drop (pos + 1) name)"

definition get_pid :: "(u32 \<times> string) list \<Rightarrow> string \<Rightarrow> u32" where
  "get_pid plist name =
     (case find_if (\<lambda>p. proc_basename (snd p) = name) plist of Some p \<Rightarrow> fst p | None \<Rightarrow> 0)"

section \<open>Injection\<close>

text \<open>The target: its threads and memory. \<open>inject_code\<close> opens the thread, pushes its instruction pointer
  and lets it continue in the copied code. \<open>sc_addr\<close> is the memory that the system allocates.
  \<open>write_memory\<close> is called for another process; writing local memory is in \<open>Windows_Process\<close>.\<close>

record target =
  tg_threads :: "thread_ctx list"
  tg_mem :: mem

definition write_memory :: "permissions \<Rightarrow> u32 \<Rightarrow> vecu8 \<Rightarrow> target \<Rightarrow> target \<times> unit outcome" where
  "write_memory P dest bytes g =
     (if can_write_memory P dest (length bytes) then (g\<lparr>tg_mem := store_bytes (tg_mem g) dest bytes\<rparr>, Return ())
      else (g, Raise (sys_error P ''WriteProcesMemory'')))"

definition upd_thread :: "u32 \<Rightarrow> (thread_ctx \<Rightarrow> thread_ctx) \<Rightarrow> thread_ctx list \<Rightarrow> thread_ctx list" where
  "upd_thread i f Ts = map (\<lambda>X. if th_id X = i then f X else X) Ts"

definition set_gpr :: "permissions \<Rightarrow> u32 \<Rightarrow> (thread_ctx \<Rightarrow> thread_ctx) \<Rightarrow> target \<Rightarrow> target \<times> unit outcome" where
  "set_gpr P i f g =
     (if can_set_context P i then (g\<lparr>tg_threads := upd_thread i f (tg_threads g)\<rparr>, Return ())
      else (g, Raise (sys_error P ''SetThreadContext'')))"

definition inject_code ::
  "permissions \<Rightarrow> u32 \<Rightarrow> thread_ctx \<Rightarrow> vecu8 \<Rightarrow> target \<Rightarrow> target \<times> unit outcome"
where
  "inject_code P sc_addr T shellcode g =
     sbind (g, open_thread P T) (\<lambda>_ g.
     let sp = esp (th_regs T) - 4
     in sbind (write_memory P sp (le32 (th_eip T)) g) (\<lambda>_ g.
        sbind (write_memory P sc_addr shellcode g) (\<lambda>_ g.
        sbind (set_gpr P (th_id T) (\<lambda>T. T\<lparr>th_regs := (th_regs T)\<lparr>esp := sp\<rparr>\<rparr>) g) (\<lambda>_ g.
        set_gpr P (th_id T) (\<lambda>T. T\<lparr>th_eip := sc_addr\<rparr>) g))))"

definition on_threads ::
  "(thread_ctx list \<Rightarrow> thread_ctx list \<times> unit outcome) \<Rightarrow> target \<Rightarrow> target \<times> unit outcome"
where
  "on_threads f g = (case f (tg_threads g) of (Ts, r) \<Rightarrow> (g\<lparr>tg_threads := Ts\<rparr>, r))"

text \<open>The thread that is chosen: the first one of the process; \<open>-1\<close> means that there is none.\<close>

definition first_tid :: "u32 \<Rightarrow> thread_ctx list \<Rightarrow> u32" where
  "first_tid pid Ts = (case find_if (\<lambda>T. th_owner T = pid) Ts of None \<Rightarrow> - 1 | Some T \<Rightarrow> th_id T)"

definition suspend_inject_resume ::
  "permissions \<Rightarrow> u32 \<Rightarrow> u32 \<Rightarrow> vecu8 \<Rightarrow> target \<Rightarrow> target \<times> unit outcome"
where
  "suspend_inject_resume P pid sc_addr shellcode g =
     sbind (on_threads (suspend_threads_main P pid (- 1)) g) (\<lambda>_ g.
     sbind (on_threads (for_each_thread P pid Return) g) (\<lambda>_ g.
     let i = first_tid pid (tg_threads g)
     in if i = - 1 then (g, Raise (runtime_error ''tid -1''))
        else case find_if (\<lambda>T. th_id T = i) (tg_threads g) of
               None \<Rightarrow> (g, Raise (sys_error P ''open_thread''))
             | Some T \<Rightarrow>
                 sbind (inject_code P sc_addr T shellcode g) (\<lambda>_ g.
                 sbind (on_threads (for_each_thread P pid
                          (\<lambda>X. Return (if th_id X = i then thread_resume X else X))) g) (\<lambda>_ g.
                 on_threads (resume_threads_main P pid i) g))))"

section \<open>Lemmas\<close>

definition on_process :: "u32 \<Rightarrow> (thread_ctx \<Rightarrow> thread_ctx) \<Rightarrow> thread_ctx list \<Rightarrow> thread_ctx list" where
  "on_process pid f Ts = map (\<lambda>T. if th_owner T = pid then f T else T) Ts"

lemma for_each_thread_ok:
  assumes "\<forall>T \<in> set Ts. th_owner T = pid \<longrightarrow> can_open P (th_id T) \<and> f T = Return (g T)"
  shows "for_each_thread P pid f Ts = (on_process pid g Ts, Return ())"
  using assms by (induction Ts) (auto simp: on_process_def open_thread_def)

lemma ball_on_process: "(\<forall>X \<in> set (on_process pid f Ts). Q X) \<longleftrightarrow> (\<forall>X \<in> set Ts. Q (if th_owner X = pid then f X else X))"
  by (induction Ts) (simp_all add: on_process_def)

lemma ball_upd_thread: "(\<forall>X \<in> set (upd_thread i f Ts). Q X) \<longleftrightarrow> (\<forall>X \<in> set Ts. Q (if th_id X = i then f X else X))"
  by (induction Ts) (simp_all add: upd_thread_def)

lemma on_process_comp: "(\<And>T. th_owner (g T) = th_owner T) \<Longrightarrow> on_process pid f (on_process pid g Ts) = on_process pid (\<lambda>T. f (g T)) Ts"
  by (simp add: on_process_def)

lemma first_tid_on_process:
  assumes "\<And>T. th_owner (f T) = th_owner T" and "\<And>T. th_id (f T) = th_id T"
  shows "first_tid pid (on_process pid f Ts) = first_tid pid Ts"
proof -
  have "find_if (\<lambda>T. th_owner T = pid) (on_process pid f Ts) = map_option f (find_if (\<lambda>T. th_owner T = pid) Ts)"
    by (induction Ts) (auto simp: on_process_def assms)
  then show ?thesis by (simp add: first_tid_def assms option.case_eq_if option.map_sel)
qed

text \<open>Everything the injection asks of the system is permitted.\<close>

definition permitted :: "permissions \<Rightarrow> u32 \<Rightarrow> u32 \<Rightarrow> vecu8 \<Rightarrow> thread_ctx \<Rightarrow> thread_ctx list \<Rightarrow> bool" where
  "permitted P pid sc_addr shellcode T Ts \<longleftrightarrow>
     (\<forall>X \<in> set Ts. th_owner X = pid \<longrightarrow> can_open P (th_id X) \<and> can_suspend P (th_id X) \<and> th_id X \<noteq> - 1)
     \<and> can_set_context P (th_id T) \<and> can_write_memory P (esp (th_regs T) - 4) 4
     \<and> can_write_memory P sc_addr (length shellcode)"

definition injected :: "u32 \<Rightarrow> thread_ctx \<Rightarrow> thread_ctx" where
  "injected sc_addr T = T\<lparr>th_regs := (th_regs T)\<lparr>esp := esp (th_regs T) - 4\<rparr>, th_eip := sc_addr\<rparr>"

definition suspended :: "thread_ctx \<Rightarrow> thread_ctx" where
  "suspended T = T\<lparr>th_suspend := Suc (th_suspend T)\<rparr>"

lemma suspended_simps [simp]:
  "th_id (suspended T) = th_id T" "th_owner (suspended T) = th_owner T" "th_regs (suspended T) = th_regs T"
  "th_eip (suspended T) = th_eip T" "thread_resume (suspended T) = T"
  by (simp_all add: suspended_def thread_resume_def)

lemma find_id:
  assumes "distinct (map th_id Ts)" and "T \<in> set Ts" and "\<And>X. th_id (f X) = th_id X"
  shows "find_if (\<lambda>X. th_id X = th_id T) (map f Ts) = Some (f T)"
  using assms(1,2)
  by (induction Ts) (auto simp: assms(3) rev_image_eqI)

text \<open>What the injection does to the whole system when nothing fails.\<close>

lemma suspend_inject_resume_ok:
  assumes T: "find_if (\<lambda>X. th_owner X = pid) (tg_threads g) = Some T"
    and d: "distinct (map th_id (tg_threads g))" and perm: "permitted P pid sc_addr shellcode T (tg_threads g)"
  shows "suspend_inject_resume P pid sc_addr shellcode g =
    (\<lparr>tg_threads = upd_thread (th_id T) (injected sc_addr) (tg_threads g),
      tg_mem = store_bytes (store_bytes (tg_mem g) (esp (th_regs T) - 4) (le32 (th_eip T))) sc_addr shellcode\<rparr>,
     Return ())"
proof -
  let ?Ts = "tg_threads g" and ?i = "th_id T"
  have Tin: "T \<in> set ?Ts" "th_owner T = pid" using find_if_Some_D [OF T] by auto
  have p: "\<forall>X \<in> set ?Ts. th_owner X = pid \<longrightarrow> can_open P (th_id X) \<and> can_suspend P (th_id X) \<and> th_id X \<noteq> - 1"
    and q: "can_set_context P ?i" "can_write_memory P (esp (th_regs T) - 4) 4" "can_write_memory P sc_addr (length shellcode)"
    using perm by (auto simp: permitted_def)
  let ?Ts1 = "on_process pid suspended ?Ts"
  have 1: "suspend_threads_main P pid (- 1) ?Ts = (?Ts1, Return ())"
    unfolding suspend_threads_main_def suspend_threads_def
    by (rule for_each_thread_ok) (use p in \<open>auto simp: thread_suspend_def suspended_def\<close>)
  have id1: "on_process pid (\<lambda>X. X) Ts = Ts" for Ts by (simp add: on_process_def)
  have open1: "\<forall>X \<in> set ?Ts1. th_owner X = pid \<longrightarrow> can_open P (th_id X)"
    using p by (simp add: ball_on_process)
  have 2: "for_each_thread P pid Return ?Ts1 = (?Ts1, Return ())"
    using for_each_thread_ok [of ?Ts1 pid P Return "\<lambda>X. X"] open1 by (simp add: id1)
  have i: "first_tid pid ?Ts1 = ?i" using T by (simp add: first_tid_on_process) (simp add: first_tid_def)
  have i': "?i \<noteq> - 1" using p Tin by auto
  have f: "find_if (\<lambda>X. th_id X = ?i) ?Ts1 = Some (suspended T)"
    using find_id [OF d Tin(1), of "\<lambda>X. if th_owner X = pid then suspended X else X"] Tin(2)
    by (simp add: on_process_def)
  let ?inj = "\<lambda>X. (X\<lparr>th_regs := (th_regs X)\<lparr>esp := esp (th_regs T) - 4\<rparr>\<rparr>)\<lparr>th_eip := sc_addr\<rparr>"
  let ?Ts2 = "upd_thread ?i (\<lambda>X. X\<lparr>th_eip := sc_addr\<rparr>)
    (upd_thread ?i (\<lambda>X. X\<lparr>th_regs := (th_regs X)\<lparr>esp := esp (th_regs T) - 4\<rparr>\<rparr>) ?Ts1)"
  let ?m = "store_bytes (store_bytes (tg_mem g) (esp (th_regs T) - 4) (le32 (th_eip T))) sc_addr shellcode"
  have 3: "inject_code P sc_addr (suspended T) shellcode (g\<lparr>tg_threads := ?Ts1\<rparr>) =
      (g\<lparr>tg_threads := ?Ts2, tg_mem := ?m\<rparr>, Return ())"
    using p q Tin by (simp add: inject_code_def open_thread_def write_memory_def set_gpr_def Let_def)
  have open2: "\<forall>X \<in> set ?Ts2. th_owner X = pid \<longrightarrow> can_open P (th_id X)"
    using open1 bspec [OF p Tin(1)] Tin(2) by (simp add: ball_upd_thread)
  let ?r1 = "\<lambda>X. if th_id X = ?i then thread_resume X else X"
  let ?r2 = "\<lambda>X. if th_id X \<noteq> ?i then thread_resume X else X"
  have 4: "for_each_thread P pid (\<lambda>X. Return (?r1 X)) ?Ts2 = (on_process pid ?r1 ?Ts2, Return ())"
    by (rule for_each_thread_ok) (use open2 in auto)
  have "\<forall>X \<in> set (on_process pid ?r1 ?Ts2). th_owner X = pid \<longrightarrow> can_open P (th_id X)"
    using open2 bspec [OF p Tin(1)] Tin(2) by (simp add: ball_on_process thread_resume_def)
  then have 5: "resume_threads_main P pid ?i (on_process pid ?r1 ?Ts2) =
      (on_process pid ?r2 (on_process pid ?r1 ?Ts2), Return ())"
    unfolding resume_threads_main_def by (intro for_each_thread_ok) auto
  have "on_process pid ?r2 (on_process pid ?r1 ?Ts2) = upd_thread ?i (injected sc_addr) ?Ts"
  proof -
    let ?o = "\<lambda>f X. if th_owner X = pid then f X else X" and ?u = "\<lambda>f X. if th_id X = ?i then f X else X"
    have pt: "?o ?r2 (?o ?r1 (?u (\<lambda>X. X\<lparr>th_eip := sc_addr\<rparr>)
        (?u (\<lambda>X. X\<lparr>th_regs := (th_regs X)\<lparr>esp := esp (th_regs T) - 4\<rparr>\<rparr>) (?o suspended X)))) =
        ?u (injected sc_addr) X" if "X \<in> set ?Ts" for X
    proof (cases "X = T")
      case True
      then show ?thesis using Tin(2) by (simp add: injected_def suspended_def thread_resume_def)
    next
      case False
      then have "th_id X \<noteq> ?i" using d that Tin(1) by (metis distinct_map inj_onD)
      then show ?thesis by simp
    qed
    show ?thesis
      unfolding on_process_def upd_thread_def map_map by (intro map_cong refl) (simp only: comp_apply pt)
  qed
  then show ?thesis
    using i' by (simp add: suspend_inject_resume_def on_threads_def 1 2 i f 3 4 5 Let_def)
qed

text \<open>Bytes below a region that does not wrap around.\<close>

lemma above_region:
  fixes a b :: u32
  assumes "k < unat (a - b)" and "unat (a - b) + n \<le> 2 ^ 32"
  shows "n \<le> unat (b + of_nat k - a)"
proof -
  let ?d = "(a - b) - of_nat k"
  have k: "unat (of_nat k :: u32) = k" using assms by (intro unat_of_nat32) simp
  then have "of_nat k \<le> a - b" using assms(1) by (simp add: word_le_nat_alt)
  then have d: "unat ?d = unat (a - b) - k" using k by (simp add: unat_sub)
  have eq: "b + of_nat k - a = - ?d" by simp
  have "\<not> unat (- ?d) + unat ?d < 2 ^ LENGTH(32)"
  proof
    assume "unat (- ?d) + unat ?d < 2 ^ LENGTH(32)"
    then have "unat (- ?d + ?d) = unat (- ?d) + unat ?d" by (rule unat_add_lem [THEN iffD1])
    then have "unat ?d = 0" by simp
    then show False using d assms(1) by simp
  qed
  then show ?thesis unfolding eq using d assms by simp
qed

text \<open>C12: injecting the loader into a running process is invisible to the process apart from the started
  service. When the operating system permits every step, the injection changes neither the
  suspend count of any thread nor any thread but the first one of the process; and when that
  thread runs the code (here the loader, ended by a \<open>ret\<close>), it continues at the instruction
  where it was interrupted, with all its registers, flags and stack pointer as before.\<close>

theorem injection_transparent:
  assumes "find_if (\<lambda>X. th_owner X = pid) (tg_threads g) = Some T" and "distinct (map th_id (tg_threads g))"
    and "permitted P pid sc_addr shellcode T (tg_threads g)"
    and sc: "4 \<le> unat (sc_addr - (esp (th_regs T) - 4))"
      "unat (sc_addr - (esp (th_regs T) - 4)) + length shellcode \<le> 2 ^ 32"
    and "length (path_dll opt) < 2 ^ 31" "length (name_init opt) < 2 ^ 31" "\<not> indirect opt"
    and "loads_library opt (esp (th_regs T) - 44) hmod (callee (p_LoadLibrary (PA opt)))"
    and "gets_address opt (esp (th_regs T) - 44) hmod init_fn (callee (p_GetProcAddress (PA opt)))"
    and "inits_service opt (esp (th_regs T) - 44) Q (callee init_fn)"
  shows "\<exists>g' T'. suspend_inject_resume P pid sc_addr shellcode g = (g', Return ())
    \<and> map th_suspend (tg_threads g') = map th_suspend (tg_threads g)
    \<and> (\<forall>X \<in> set (tg_threads g). th_id X \<noteq> th_id T \<longrightarrow> X \<in> set (tg_threads g'))
    \<and> T' \<in> set (tg_threads g') \<and> th_id T' = th_id T \<and> th_eip T' = sc_addr
    \<and> load_bytes (tg_mem g') sc_addr (length shellcode) = shellcode
    \<and> (let u = exec flag_of ra callee (DLLLoader opt @ [RET])
               \<lparr>regs = th_regs T', ram = tg_mem g', eip = th_eip T'\<rparr>
       in eip u = th_eip T \<and> regs u = th_regs T \<and> Q (ram u))"
proof -
  let ?sp = "esp (th_regs T) - 4"
  let ?m1 = "store_bytes (tg_mem g) ?sp (le32 (th_eip T))"
  let ?m = "store_bytes ?m1 sc_addr shellcode"
  let ?g' = "\<lparr>tg_threads = upd_thread (th_id T) (injected sc_addr) (tg_threads g), tg_mem = ?m\<rparr>"
  let ?T' = "injected sc_addr T"
  note ok = suspend_inject_resume_ok [OF assms(1-3)]
  have Tin: "T \<in> set (tg_threads g)" using find_if_Some_D [OF assms(1)] by auto
  have "?m (?sp + of_nat k) = ?m1 (?sp + of_nat k)" if "k < 4" for k
    by (rule store_bytes_other, rule above_region [of k sc_addr ?sp]) (use that sc in simp_all)
  from this [of 0] this [of 1] this [of 2] this [of 3] have "read32 ?m ?sp = read32 ?m1 ?sp"
    by (simp add: read32_def)
  then have top: "read32 ?m ?sp = th_eip T" using read32_write32 [of "tg_mem g" ?sp "th_eip T"] by (simp add: write32_def)
  have len: "length shellcode \<le> 2 ^ 32" using sc by simp
  have "let u = exec flag_of ra callee (DLLLoader opt @ [RET]) \<lparr>regs = th_regs ?T', ram = ?m, eip = th_eip ?T'\<rparr>
       in eip u = th_eip T \<and> regs u = th_regs T \<and> Q (ram u)"
    using DLLLoader_restores [where callee = callee and flag_of = flag_of and ra = ra and opt = opt and Q = Q
        and hmod = hmod and init_fn = init_fn and s = "\<lparr>regs = th_regs ?T', ram = ?m, eip = th_eip ?T'\<rparr>"] assms(6-11) top
    by (simp add: injected_def top32_def)
  then show ?thesis
    using ok Tin load_store_bytes [OF len]
    by (intro exI [of _ ?g'] exI [of _ ?T']) (auto simp: upd_thread_def injected_def)
qed

definition demo_target :: target where
  "demo_target =
     \<lparr>tg_threads = [\<lparr>th_id = 1, th_owner = 8, th_regs = regs demo_cpu, th_eip = 0x99, th_suspend = 0\<rparr>,
        \<lparr>th_id = 2, th_owner = 7, th_regs = regs demo_cpu, th_eip = 0x4711, th_suspend = 0\<rparr>,
        \<lparr>th_id = 3, th_owner = 7, th_regs = regs demo_cpu, th_eip = 0x55, th_suspend = 1\<rparr>],
      tg_mem = (\<lambda>_. 0)\<rparr>"

definition all_permitted :: permissions where
  "all_permitted =
     \<lparr>can_open_process = (\<lambda>_. True), can_open = (\<lambda>_. True), can_suspend = (\<lambda>_. True), can_set_context = (\<lambda>_. True),
      can_write_memory = (\<lambda>_ _. True), platform_error = (\<lambda>_. []), last_error = 0\<rparr>"

theorem injection_transparent_witness:
  "\<exists>g' T'. suspend_inject_resume all_permitted 7 0x9000 [1, 2, 3] demo_target = (g', Return ())
    \<and> map th_suspend (tg_threads g') = [0, 0, 1]
    \<and> T' \<in> set (tg_threads g') \<and> th_id T' = 2 \<and> th_eip T' = 0x9000
    \<and> (let u = exec (\<lambda>x. x) 9 demo_fns (DLLLoader demo_options @ [RET])
               \<lparr>regs = th_regs T', ram = tg_mem g', eip = th_eip T'\<rparr>
       in eip u = 0x4711 \<and> regs u = regs demo_cpu \<and> ram u 0 = 1)"
proof -
  let ?T = "\<lparr>th_id = 2, th_owner = 7, th_regs = regs demo_cpu, th_eip = 0x4711, th_suspend = 0\<rparr>"
  have "permitted all_permitted 7 0x9000 [1, 2, 3] ?T (tg_threads demo_target)"
    by (simp add: permitted_def all_permitted_def demo_target_def)
  moreover have "loads_library demo_options (esp (th_regs ?T) - 44) 0x500 (demo_fns (p_LoadLibrary (PA demo_options)))"
    by (simp add: loads_library_def fn_contract_def demo_fns_def demo_options_def demo_return_def)
  moreover have "gets_address demo_options (esp (th_regs ?T) - 44) 0x500 0x300
      (demo_fns (p_GetProcAddress (PA demo_options)))"
    by (simp add: gets_address_def fn_contract_def demo_fns_def demo_options_def demo_return_def)
  moreover have "inits_service demo_options (esp (th_regs ?T) - 44) (\<lambda>m. m 0 = 1) (demo_fns 0x300)"
    by (auto simp: inits_service_def fn_contract_def demo_fns_def demo_return_def keeps_def demo_cpu_def)
  moreover have "length (path_dll demo_options) < 2 ^ 31" "length (name_init demo_options) < 2 ^ 31"
    "\<not> indirect demo_options"
    by (simp_all add: demo_options_def)
  moreover have "find_if (\<lambda>X. th_owner X = 7) (tg_threads demo_target) = Some ?T"
    "distinct (map th_id (tg_threads demo_target))"
    "4 \<le> unat ((0x9000 :: u32) - (esp (th_regs ?T) - 4))"
    "unat ((0x9000 :: u32) - (esp (th_regs ?T) - 4)) + length [1, 2, 3 :: u8] \<le> 2 ^ 32"
    by (simp_all add: demo_target_def demo_cpu_def)
  ultimately obtain g' T' where r: "suspend_inject_resume all_permitted 7 0x9000 [1, 2, 3] demo_target = (g', Return ())"
    "map th_suspend (tg_threads g') = map th_suspend (tg_threads demo_target)"
    "T' \<in> set (tg_threads g')" "th_id T' = th_id ?T" "th_eip T' = 0x9000"
    "let u = exec (\<lambda>x. x) 9 demo_fns (DLLLoader demo_options @ [RET])
               \<lparr>regs = th_regs T', ram = tg_mem g', eip = th_eip T'\<rparr>
       in eip u = th_eip ?T \<and> regs u = th_regs ?T \<and> ram u 0 = 1"
    using injection_transparent [where g = demo_target and T = ?T and opt = demo_options and callee = demo_fns
        and hmod = "0x500" and init_fn = "0x300" and Q = "\<lambda>m. m 0 = 1" and flag_of = "\<lambda>x. x" and ra = 9
        and P = all_permitted and pid = 7 and sc_addr = "0x9000" and shellcode = "[1, 2, 3]"] by blast
  then show ?thesis by (intro exI [of _ g'] exI [of _ T']) (simp add: demo_target_def)
qed

text \<open>\<open>inject_dll\<close> injects the code of the loader without a \<open>ret\<close>: it ends with the registers restored, but
  the instruction pointer is past the end of the code, and the address of the interrupted
  instruction still on the stack.\<close>

lemma loader_without_ret_falls_off:
  assumes "length (path_dll opt) < 2 ^ 31" "length (name_init opt) < 2 ^ 31" "\<not> indirect opt"
    and "loads_library opt (esp (regs s) - 40) hmod (callee (p_LoadLibrary (PA opt)))"
    and "gets_address opt (esp (regs s) - 40) hmod init_fn (callee (p_GetProcAddress (PA opt)))"
    and "inits_service opt (esp (regs s) - 40) Q (callee init_fn)"
  shows "top32 (exec flag_of ra callee (DLLLoader opt) s) = top32 s"
    "esp (regs (exec flag_of ra callee (DLLLoader opt) s)) = esp (regs s)"
  using DLLLoader_state [where callee = callee and flag_of = flag_of and ra = ra, OF assms(1-3) refl assms(4-6)]
  by (simp_all add: Let_def)

section \<open>Names of processes\<close>

text \<open>The base name of a path, and what is returned for a name without a directory: its first character
  is lost.\<close>

lemma proc_basename_path:
  assumes "CHR 0x5C \<notin> set base"
  shows "proc_basename (dir @ [CHR 0x5C] @ base) = base"
proof -
  have "takeWhile (\<lambda>x. x \<noteq> CHR 0x5C) (rev (dir @ [CHR 0x5C] @ base)) = rev base"
    using assms by (auto simp: takeWhile_append takeWhile_tail)
  then show ?thesis by (simp add: proc_basename_def rfind_def Let_def)
qed

lemma proc_basename_plain: "CHR 0x5C \<notin> set name \<Longrightarrow> proc_basename name = tl name"
  by (simp add: proc_basename_def rfind_def drop_Suc)

end
