(* ===== verification/Builtin_Commands.thy ===== *)
theory Builtin_Commands
  imports Callbacks Injection
begin

text \<open>
  \<^verbatim>\<open>src/src/commands_builtin.cpp\<close>: the commands of the service that are not about the game, with the
  storage of values (\<open>store_value\<close>, \<open>get_value\<close>, \<open>ensure_storage_value\<close>, \<open>get_data\<close>) and the table of
  hooks (\<open>create_hook\<close>) of \<^verbatim>\<open>src/src/instrumentation_service.{hpp,cpp}\<close> and
  \<^verbatim>\<open>src/src/hooks_yr.{hpp,cpp}\<close> that they use.
\<close>

section \<open>Storage\<close>

text \<open>The storage keeps untyped pointers. The model keeps the type of the value: reading it at another
  type is undefined behaviour.\<close>

datatype storage_value = SV_bytes vecu8 | SV_data GameDataYR

type_synonym storage = "string \<rightharpoonup> storage_value"

definition put_value :: "string \<Rightarrow> storage_value \<Rightarrow> storage \<Rightarrow> storage" where
  "put_value key v st = st(key \<mapsto> v)"

definition get_value :: "string \<Rightarrow> storage \<Rightarrow> storage_value outcome" where
  "get_value key st = map_at st key"

definition StoreValue :: "string \<Rightarrow> string \<Rightarrow> storage \<Rightarrow> storage" where
  "StoreValue key val st = put_value key (SV_bytes (to_bytes val)) st"

definition GetValue :: "string \<Rightarrow> storage \<Rightarrow> string outcome" where
  "GetValue key st =
     obind (get_value key st) (\<lambda>v. case v of SV_bytes bs \<Rightarrow> Return (to_string bs) | SV_data D \<Rightarrow> Undefined)"

definition game_data_key :: string where
  "game_data_key = ''game_data''"

definition ensure_storage_value :: "string \<Rightarrow> storage_value \<Rightarrow> storage \<Rightarrow> storage \<times> storage_value outcome" where
  "ensure_storage_value key dflt st =
     (let st' = (if st key = None then put_value key dflt st else st) in (st', map_at st' key))"

definition get_data :: "storage \<Rightarrow> storage \<times> GameDataYR outcome" where
  "get_data st =
     (case ensure_storage_value game_data_key (SV_data GameDataYR_new) st of
        (st', r) \<Rightarrow> (st', obind r (\<lambda>v. case v of SV_data D \<Rightarrow> Return D | SV_bytes bs \<Rightarrow> Undefined)))"

definition set_data :: "GameDataYR \<Rightarrow> storage \<Rightarrow> storage" where
  "set_data D st = st(game_data_key \<mapsto> SV_data D)"

text \<open>\<open>InspectConfiguration\<close>; merging messages is the message library's.\<close>

definition inspect_configuration ::
  "(Configuration \<Rightarrow> 'a \<Rightarrow> Configuration) \<Rightarrow> 'a \<Rightarrow> storage \<Rightarrow> storage \<times> Configuration outcome"
where
  "inspect_configuration merge config st =
     (case get_data st of
        (st', Return D) \<Rightarrow>
          (let cfg = merge (gd_cfg D) config in (set_data (D\<lparr>gd_cfg := cfg\<rparr>) st', Return cfg))
      | (st', Raise e) \<Rightarrow> (st', Raise e)
      | (st', Undefined) \<Rightarrow> (st', Undefined))"

section \<open>The test program\<close>

definition TestProgram :: "instr list" where
  "TestProgram = [MOV_RM EAX ESP 4, ADD_RM EAX ESP 8, RET]"

section \<open>Hooks\<close>

text \<open>The table is a \<open>std::map\<close> ordered by address.\<close>

fun hook_emplace :: "u32 \<Rightarrow> 'v \<Rightarrow> (u32 \<times> 'v) list \<Rightarrow> (u32 \<times> 'v) list" where
  "hook_emplace k v [] = [(k, v)]"
| "hook_emplace k v ((k', v') # xs) =
     (if k = k' then (k', v') # xs
      else if k < k' then (k, v) # (k', v') # xs
      else (k', v') # hook_emplace k v xs)"

record hook_world =
  hw_hooks :: hooks
  hw_mem :: mem
  hw_threads :: "thread_ctx list"

text \<open>The assembler and the memory of the generated code are parameters, as in \<open>Hook\<close>: \<open>asm\<close> gives the
  code of the detour of a target and \<open>buf\<close> its address.\<close>

record code_buffers =
  cb_can_write :: "u32 \<Rightarrow> nat \<Rightarrow> bool"
  cb_max_code :: nat
  cb_asm :: "u32 \<Rightarrow> vecu8"
  cb_buf :: "u32 \<Rightarrow> u32"

definition create_hook ::
  "code_buffers \<Rightarrow> u32 list \<Rightarrow> u32 \<Rightarrow> string \<Rightarrow> u32 \<Rightarrow> u32 \<Rightarrow> hook_world \<Rightarrow> hook_world \<times> unit outcome option"
where
  "create_hook K tids my_tid name target len w =
     (if map_of (hw_hooks w) target \<noteq> None
      then (w, Some (Raise (runtime_error (''Can't overwrite existing hook (name='' @ name))))
      else case Hook_new (cb_can_write K) (cb_max_code K) (cb_asm K target) my_tid (cb_buf K target) [] target len name
                  tids True (hw_mem w) of
             Some (Return (m, h)) \<Rightarrow>
               (w\<lparr>hw_mem := m, hw_hooks := hook_emplace target h (hw_hooks w)\<rparr>, Some (Return ()))
           | Some (Raise e) \<Rightarrow> (w, Some (Raise e))
           | Some Undefined \<Rightarrow> (w, Some Undefined)
           | None \<Rightarrow> (w, None))"

fun create_hook_list ::
  "code_buffers \<Rightarrow> u32 list \<Rightarrow> u32 \<Rightarrow> YRHook list \<Rightarrow> hook_world \<Rightarrow> hook_world \<times> unit outcome option"
where
  "create_hook_list K tids my_tid [] w = (w, Some (Return ()))"
| "create_hook_list K tids my_tid (h # hs) w =
     (case create_hook K tids my_tid (yh_name h) (yh_address h) (yh_size h) w of
        (w', Some (Return _)) \<Rightarrow> create_hook_list K tids my_tid hs w'
      | (w', r) \<Rightarrow> (w', r))"

text \<open>\<open>CreateHooks\<close>: an exception of a hook leaves the loop before the threads are resumed.\<close>

definition CreateHooks ::
  "permissions \<Rightarrow> u32 \<Rightarrow> code_buffers \<Rightarrow> u32 list \<Rightarrow> u32 \<Rightarrow> bool \<Rightarrow> YRHook list \<Rightarrow> hook_world
     \<Rightarrow> hook_world \<times> unit outcome option"
where
  "CreateHooks P pid K tids my_tid no_suspend_threads hs w =
     (if no_suspend_threads then create_hook_list K tids my_tid hs w
      else let ns = tids @ [my_tid]
           in case suspend_threads P pid ns (hw_threads w) of
                (Ts, Return _) \<Rightarrow>
                  (case create_hook_list K tids my_tid hs (w\<lparr>hw_threads := Ts\<rparr>) of
                     (w', Some (Return _)) \<Rightarrow>
                       (case resume_threads P pid ns (hw_threads w') of
                          (Ts', r) \<Rightarrow> (w'\<lparr>hw_threads := Ts'\<rparr>, Some r))
                   | (w', r) \<Rightarrow> (w', r))
              | (Ts, r) \<Rightarrow> (w\<lparr>hw_threads := Ts\<rparr>, Some r))"

definition AddCallback :: "u32 \<Rightarrow> cb_kind \<Rightarrow> hooks \<Rightarrow> hooks outcome" where
  "AddCallback address cb hs =
     obind (map_at (map_of hs) address) (\<lambda>_. Return (upd_hook address (add_callback_fn cb [] 0) hs))"

text \<open>\<open>GetSystemState\<close>: the connections and the result queues, in the order of the maps.\<close>

record system_state =
  ss_connections :: "(u32 \<times> duration_t) list"
  ss_queues :: "u64 list"
  ss_directory :: string

definition GetSystemState :: "(u32 \<times> duration_t) list \<Rightarrow> u64 list \<Rightarrow> string \<Rightarrow> system_state \<Rightarrow> system_state" where
  "GetSystemState conns queue_ids cwd st =
     st\<lparr>ss_connections := ss_connections st @ conns, ss_queues := ss_queues st @ queue_ids, ss_directory := cwd\<rparr>"

section \<open>Properties of the storage\<close>

lemma unat_of_char: "unat (of_char c :: u8) = of_char c"
proof -
  have "of_char c < (2 :: nat) ^ 8" using nat_of_char_less_256 [of c] by simp
  then have "unat (of_nat (of_char c) :: u8) = of_char c" by (simp add: unat_of_nat take_bit_nat_eq_self)
  then show ?thesis by (simp only: of_nat_of_char)
qed

lemma to_string_to_bytes [simp]: "to_string (to_bytes s) = s"
  by (induction s) (simp_all add: to_string_def to_bytes_def unat_of_char)

text \<open>The commands that work on the storage; \<open>OpConfig\<close> is \<open>InspectConfiguration\<close> with its argument.\<close>

datatype 'a storage_cmd = OpStore string string | OpConfig 'a

fun run_storage :: "(Configuration \<Rightarrow> 'a \<Rightarrow> Configuration) \<Rightarrow> 'a storage_cmd \<Rightarrow> storage \<Rightarrow> storage" where
  "run_storage merge (OpStore k v) st = StoreValue k v st"
| "run_storage merge (OpConfig config) st = fst (inspect_configuration merge config st)"

text \<open>Types of the storage: the game data under their key, bytes under every other key.\<close>

definition storage_typed :: "storage \<Rightarrow> bool" where
  "storage_typed st \<longleftrightarrow>
     (\<forall>k v. st k = Some v \<longrightarrow> (if k = game_data_key then \<exists>D. v = SV_data D else \<exists>bs. v = SV_bytes bs))"

lemma storage_typedD:
  assumes "storage_typed st" and "st k = Some v"
  shows "k = game_data_key \<Longrightarrow> \<exists>D. v = SV_data D" and "k \<noteq> game_data_key \<Longrightarrow> \<exists>bs. v = SV_bytes bs"
  using assms unfolding storage_typed_def by metis+

lemma get_data_typed:
  assumes "storage_typed st"
  shows "\<exists>D. get_data st = (st(game_data_key \<mapsto> SV_data D), Return D)"
proof (cases "st game_data_key")
  case None
  then show ?thesis by (simp add: get_data_def ensure_storage_value_def put_value_def map_at_def Let_def)
next
  case (Some v)
  with assms obtain D where "v = SV_data D" using storage_typedD(1) by blast
  with Some show ?thesis
    by (auto simp: get_data_def ensure_storage_value_def map_at_def Let_def fun_upd_idem_iff)
qed

lemma run_storage_typed:
  assumes "storage_typed st" and "\<forall>v. opn \<noteq> OpStore game_data_key v"
  shows "storage_typed (run_storage merge opn st)"
    and "k \<noteq> game_data_key \<Longrightarrow> \<forall>v. opn \<noteq> OpStore k v \<Longrightarrow> run_storage merge opn st k = st k"
  using assms get_data_typed [OF assms(1)]
  by (cases opn; auto simp: storage_typed_def StoreValue_def put_value_def inspect_configuration_def set_data_def Let_def)+

lemma run_storage_fold:
  assumes "storage_typed st" and "\<forall>opn \<in> set ops. \<forall>v. opn \<noteq> OpStore game_data_key v"
  shows "storage_typed (fold (run_storage merge) ops st)"
    and "k \<noteq> game_data_key \<Longrightarrow> \<forall>opn \<in> set ops. \<forall>v. opn \<noteq> OpStore k v \<Longrightarrow> fold (run_storage merge) ops st k = st k"
  using assms by (induction ops arbitrary: st) (auto simp: run_storage_typed)



text \<open>A client that stores a value under the key of the game data replaces the game data by bytes: every
  later access to the game data, and \<open>GetValue\<close> with that key before, is undefined behaviour.\<close>

lemma store_over_game_data:
  "snd (get_data (StoreValue game_data_key val st)) = Undefined"
  "GetValue game_data_key (fst (get_data Map.empty)) = Undefined"
  by (simp_all add: get_data_def ensure_storage_value_def StoreValue_def put_value_def map_at_def GetValue_def
      get_value_def Let_def)

lemma inspect_configuration_result:
  assumes "st game_data_key = Some (SV_data D)"
  shows "inspect_configuration merge config st =
    (set_data (D\<lparr>gd_cfg := merge (gd_cfg D) config\<rparr>) st, Return (merge (gd_cfg D) config))"
  using assms by (simp add: inspect_configuration_def get_data_def ensure_storage_value_def map_at_def Let_def)

text \<open>The test program adds its arguments.\<close>

lemma TestProgram_adds:
  "eax (regs (exec flag_of ra callee TestProgram s)) =
     read32 (ram s) (esp (regs s) + 4) + read32 (ram s) (esp (regs s) + 8)"
  by (simp add: TestProgram_def set_flags_def drop32_def Let_def)

section \<open>Properties of the hooks\<close>

lemma hook_emplace_lookup:
  "map_of xs k = None \<Longrightarrow> map_of (hook_emplace k v xs) k' = (if k' = k then Some v else map_of xs k')"
  by (induction k v xs rule: hook_emplace.induct) auto

text \<open>A hook can be installed where there is none yet when the code may be written and the detour fits.\<close>

definition hookable :: "code_buffers \<Rightarrow> YRHook \<Rightarrow> bool" where
  "hookable K h \<longleftrightarrow> 6 \<le> unat (yh_size h) \<and> unat (yh_size h) \<le> cb_max_code K
     \<and> (\<forall>a n. cb_can_write K a n)"

lemma trampoline_fits:
  assumes "6 \<le> unat len" and "unat len \<le> max_code"
  shows "\<exists>f. DetourTrampoline max_code target len = Return f \<and> length f = unat len"
proof -
  have "unat (len - 6) = unat len - 6"
    using assms(1) unat_sub [of 6 len] by (simp add: word_le_nat_alt)
  then show ?thesis using assms by (simp add: DetourTrampoline_def Let_def)
qed

definition new_hook :: "code_buffers \<Rightarrow> u32 list \<Rightarrow> YRHook \<Rightarrow> cb_kind hook" where
  "new_hook K tids h =
     \<lparr>hk_detour = \<lparr>src_address = yh_address h, detour_address = 0, code_length = yh_size h\<rparr>, hk_name = yh_name h,
      callbacks = [], dm_code = cb_buf K (yh_address h), no_suspend = tids, count_enter = 0, count_exit = 0, manual = True\<rparr>"

lemma create_hook_ok:
  assumes "hookable K h" and "map_of (hw_hooks w) (yh_address h) = None"
  shows "\<exists>m. create_hook K tids my_tid (yh_name h) (yh_address h) (yh_size h) w =
    (w\<lparr>hw_mem := m, hw_hooks := hook_emplace (yh_address h) (new_hook K tids h) (hw_hooks w)\<rparr>, Some (Return ()))"
proof -
  obtain f where "DetourTrampoline (cb_max_code K) (cb_buf K (yh_address h)) (yh_size h) = Return f"
    using trampoline_fits assms(1) by (fastforce simp: hookable_def)
  then show ?thesis
    using assms by (auto simp: create_hook_def Hook_new_def patch_code_def hookable_def new_hook_def Let_def)
qed

lemma create_hook_list_ok:
  assumes "\<forall>h \<in> set hs. hookable K h \<and> map_of (hw_hooks w) (yh_address h) = None"
    and "distinct (map yh_address hs)"
  shows "\<exists>w'. create_hook_list K tids my_tid hs w = (w', Some (Return ())) \<and> hw_threads w' = hw_threads w
    \<and> hw_hooks w' = fold (\<lambda>h. hook_emplace (yh_address h) (new_hook K tids h)) hs (hw_hooks w)"
  using assms
proof (induction hs arbitrary: w)
  case Nil
  then show ?case by simp
next
  case (Cons h hs)
  obtain m where m: "create_hook K tids my_tid (yh_name h) (yh_address h) (yh_size h) w =
      (w\<lparr>hw_mem := m, hw_hooks := hook_emplace (yh_address h) (new_hook K tids h) (hw_hooks w)\<rparr>, Some (Return ()))"
    using create_hook_ok [of K h w tids my_tid] Cons.prems(1) by auto
  let ?w = "w\<lparr>hw_mem := m, hw_hooks := hook_emplace (yh_address h) (new_hook K tids h) (hw_hooks w)\<rparr>"
  have ne: "yh_address x \<noteq> yh_address h" if "x \<in> set hs" for x
    using Cons.prems(2) that by (metis distinct.simps(2) image_eqI list.set_map list.simps(9))
  have "\<forall>x \<in> set hs. hookable K x \<and> map_of (hw_hooks ?w) (yh_address x) = None"
    using Cons.prems(1) ne by (simp add: hook_emplace_lookup)
  from Cons.IH [OF this] Cons.prems(2) m show ?case by auto
qed

lemma fold_emplace_lookup:
  assumes "\<forall>h \<in> set hs. map_of xs (yh_address h) = None" and "distinct (map yh_address hs)"
  shows "map_of (fold (\<lambda>h. hook_emplace (yh_address h) (f h)) hs xs) a =
    (case find_if (\<lambda>h. yh_address h = a) hs of Some h \<Rightarrow> Some (f h) | None \<Rightarrow> map_of xs a)"
  using assms
proof (induction hs arbitrary: xs)
  case Nil
  then show ?case by simp
next
  case (Cons h hs)
  let ?xs = "hook_emplace (yh_address h) (f h) xs"
  have ne: "yh_address x \<noteq> yh_address h" if "x \<in> set hs" for x
    using Cons.prems(2) that by (metis distinct.simps(2) image_eqI list.set_map list.simps(9))
  have "\<forall>x \<in> set hs. map_of ?xs (yh_address x) = None"
    using Cons.prems(1) ne by (simp add: hook_emplace_lookup)
  from Cons.IH [OF this] Cons.prems have IH: "map_of (fold (\<lambda>h. hook_emplace (yh_address h) (f h)) (h # hs) xs) a =
      (case find_if (\<lambda>h. yh_address h = a) hs of Some h \<Rightarrow> Some (f h) | None \<Rightarrow> map_of ?xs a)" by simp
  show ?case
  proof (cases "yh_address h = a")
    case True
    then have "find_if (\<lambda>h. yh_address h = a) hs = None" using ne by (auto simp: find_if_None_iff)
    then show ?thesis using IH True Cons.prems(1) by (simp add: hook_emplace_lookup)
  next
    case False
    then have "map_of ?xs a = map_of xs a" using Cons.prems(1) by (simp add: hook_emplace_lookup)
    then show ?thesis using IH False by (simp split: option.splits)
  qed
qed

definition can_suspend_all :: "permissions \<Rightarrow> u32 \<Rightarrow> thread_ctx list \<Rightarrow> bool" where
  "can_suspend_all P pid Ts \<longleftrightarrow> (\<forall>T \<in> set Ts. th_owner T = pid \<longrightarrow> can_open P (th_id T) \<and> can_suspend P (th_id T))"

lemma suspend_threads_ok:
  assumes "can_suspend_all P pid Ts"
  shows "suspend_threads P pid ns Ts = (on_process pid (\<lambda>T. if th_id T \<notin> set ns then suspended T else T) Ts, Return ())"
  unfolding suspend_threads_def
  by (rule for_each_thread_ok) (use assms in \<open>simp add: can_suspend_all_def thread_suspend_def suspended_def\<close>)

lemma resume_suspended:
  assumes "can_suspend_all P pid Ts"
  shows "resume_threads P pid ns (on_process pid (\<lambda>T. if th_id T \<notin> set ns then suspended T else T) Ts) = (Ts, Return ())"
proof -
  let ?s = "\<lambda>T. if th_id T \<notin> set ns then suspended T else T"
  let ?r = "\<lambda>T. if th_id T \<notin> set ns then thread_resume T else T"
  have "\<forall>T \<in> set (on_process pid ?s Ts). th_owner T = pid \<longrightarrow> can_open P (th_id T) \<and> Return (?r T) = Return (?r T)"
    using assms by (simp add: ball_on_process can_suspend_all_def)
  then have "resume_threads P pid ns (on_process pid ?s Ts) = (on_process pid ?r (on_process pid ?s Ts), Return ())"
    unfolding resume_threads_def by (rule for_each_thread_ok)
  also have "on_process pid ?r (on_process pid ?s Ts) = Ts"
    by (subst on_process_comp) (auto simp: on_process_def map_idI)
  finally show ?thesis .
qed


definition open_buffers :: code_buffers where
  "open_buffers =
     \<lparr>cb_can_write = (\<lambda>_ _. True), cb_max_code = 4096, cb_asm = (\<lambda>_. []), cb_buf = (\<lambda>a. a + 0x1000000)\<rparr>"


text \<open>When a hook cannot be created, the exception leaves the command before the threads are resumed, so
  that the threads of the game stay suspended.\<close>

lemma create_hooks_failure_suspends:
  assumes "can_suspend_all P pid (hw_threads w)" and "map_of (hw_hooks w) (yh_address h) \<noteq> None"
    and "T \<in> set (hw_threads w)" and "th_owner T = pid" and "th_id T \<notin> set (tids @ [my_tid])"
  shows "\<exists>w' e. CreateHooks P pid K tids my_tid False (h # hs) w = (w', Some (Raise e))
    \<and> suspended T \<in> set (hw_threads w')"
proof -
  let ?s = "\<lambda>T. if th_id T \<notin> set (tids @ [my_tid]) then suspended T else T"
  let ?w = "w\<lparr>hw_threads := on_process pid ?s (hw_threads w)\<rparr>"
  have "(\<lambda>T. if th_owner T = pid then ?s T else T) T \<in> (\<lambda>T. if th_owner T = pid then ?s T else T) ` set (hw_threads w)"
    using assms(3) by (rule imageI)
  then have "suspended T \<in> set (hw_threads ?w)" using assms(4,5) by (simp only: on_process_def set_map) simp
  then show ?thesis
    using suspend_threads_ok [OF assms(1), of "tids @ [my_tid]"] assms(2)
    by (auto simp: CreateHooks_def Let_def create_hook_def simp del: set_append)
qed

end
