(* ===== verification/Add_Section.thy ===== *)
theory Add_Section
  imports Prelude
begin

text \<open>
  \<^verbatim>\<open>src/src/addscn/addscn.cpp\<close>: the tool that appends a section to a program file (PE image), which the
  build uses to make room for the loader.

  A file is represented by the header fields that the tool reads and writes and by its bytes.
  Numbers are 32 bits wide and wrap around. The tool keeps pointers to the headers across a
  new mapping of the file: \<open>same_view\<close> says whether the operating system maps the file at the
  same address again; otherwise the pointers dangle. Where the headers lie in the file, and so
  whether there is room for one more, is not part of the model.
\<close>

section \<open>Images\<close>

definition alignup :: "u32 \<Rightarrow> u32 \<Rightarrow> u32" where
  "alignup x a = ((x + a - 1) div a) * a"

record section_header =
  sh_Name :: vecu8
  sh_VirtualSize :: u32
  sh_VirtualAddress :: u32
  sh_SizeOfRawData :: u32
  sh_PointerToRawData :: u32
  sh_Characteristics :: u32

record image =
  im_dos_magic :: u16
  im_signature :: u32
  im_machine :: u16
  im_sections :: "section_header list"
  im_FileAlignment :: u32
  im_SectionAlignment :: u32
  im_ImageBase :: u32
  im_SizeOfImage :: u32
  im_bytes :: vecu8

text \<open>\<open>GetFileSize\<close>.\<close>

definition file_size_low :: "image \<Rightarrow> u32" where
  "file_size_low im = of_nat (length (im_bytes im))"

definition file_size_high :: "image \<Rightarrow> u32" where
  "file_size_high im = of_nat (length (im_bytes im) div 2 ^ 32)"

text \<open>A file mapping of the given size extends a shorter file with zeros; size zero means the whole file.\<close>

definition map_file :: "u32 \<Rightarrow> image \<Rightarrow> image" where
  "map_file new_size im =
     im\<lparr>im_bytes := im_bytes im @ replicate (unat new_size - length (im_bytes im)) 0\<rparr>"

definition mapped_size :: "u32 \<Rightarrow> image \<Rightarrow> nat" where
  "mapped_size new_size im = (if new_size = 0 then length (im_bytes im) else unat new_size)"

text \<open>\<open>memset\<close> on the mapping.\<close>

definition clear_bytes :: "nat \<Rightarrow> nat \<Rightarrow> vecu8 \<Rightarrow> vecu8" where
  "clear_bytes a n bs = take a bs @ replicate n 0 @ drop (a + n) bs"

definition section_name :: "vecu8 \<Rightarrow> vecu8" where
  "section_name name = take 8 name @ replicate (8 - length name) 0"

definition new_section :: "image \<Rightarrow> u32 \<Rightarrow> vecu8 \<Rightarrow> u32 \<Rightarrow> u32 \<Rightarrow> section_header \<Rightarrow> section_header" where
  "new_section im sz name VirtualSize Characteristics s_last =
     \<lparr>sh_Name = section_name name, sh_VirtualSize = VirtualSize,
      sh_VirtualAddress = alignup (sh_VirtualAddress s_last + sh_VirtualSize s_last) (im_SectionAlignment im),
      sh_SizeOfRawData = alignup VirtualSize (im_FileAlignment im), sh_PointerToRawData = sz,
      sh_Characteristics = Characteristics\<rparr>"

text \<open>The number of sections is a 16-bit field.\<close>

definition add_header :: "section_header \<Rightarrow> section_header list \<Rightarrow> section_header list" where
  "add_header s ss = take ((length ss + 1) mod 2 ^ 16) (ss @ [s])"

text \<open>Undefined are: a division by zero in \<open>alignup\<close>, dangling pointers to the headers, an image without
  sections, whose last section is read in front of the table, and clearing bytes behind the
  end of the mapping.\<close>

definition append_section :: "bool \<Rightarrow> vecu8 \<Rightarrow> u32 \<Rightarrow> u32 \<Rightarrow> image \<Rightarrow> image outcome" where
  "append_section same_view name VirtualSize Characteristics im =
     (let sz = file_size_low im;
          new_size = alignup (sz + VirtualSize) (im_FileAlignment im);
          im1 = map_file new_size im
      in if im_FileAlignment im = 0 \<or> im_SectionAlignment im = 0 \<or> \<not> same_view \<or> im_sections im = [] then Undefined
         else let s_new = new_section im sz name VirtualSize Characteristics (last (im_sections im))
              in if unat (sh_PointerToRawData s_new) + unat (sh_SizeOfRawData s_new) > mapped_size new_size im1 then Undefined
                 else Return (im1\<lparr>im_sections := add_header s_new (im_sections im),
                        im_SizeOfImage := alignup (sh_VirtualAddress s_new + sh_VirtualSize s_new) (im_SectionAlignment im),
                        im_bytes := clear_bytes (unat sz) (unat (sh_SizeOfRawData s_new)) (im_bytes im1)\<rparr>))"

definition IMAGE_DOS_SIGNATURE :: u16 where "IMAGE_DOS_SIGNATURE = 0x5A4D"

definition IMAGE_NT_SIGNATURE :: u32 where "IMAGE_NT_SIGNATURE = 0x4550"

definition IMAGE_FILE_MACHINE_I386 :: u16 where "IMAGE_FILE_MACHINE_I386 = 0x14c"

definition add_section :: "bool \<Rightarrow> vecu8 \<Rightarrow> u32 \<Rightarrow> u32 \<Rightarrow> image \<Rightarrow> image outcome" where
  "add_section same_view name virtual_size characteristics im =
     (if file_size_high im \<noteq> 0 then Raise (runtime_error ''large files not supported'')
      else if im_dos_magic im \<noteq> IMAGE_DOS_SIGNATURE \<or> im_signature im \<noteq> IMAGE_NT_SIGNATURE
              \<or> im_machine im \<noteq> IMAGE_FILE_MACHINE_I386
      then Raise (runtime_error ''bad PE file'')
      else append_section same_view name virtual_size characteristics im)"

section \<open>Alignment\<close>

text \<open>Without overflow, \<open>alignup\<close> is the least multiple that is not smaller.\<close>

lemma unat_alignup:
  assumes "a \<noteq> 0" and "unat x + unat a \<le> 2 ^ 32"
  shows "unat (alignup x a) = ((unat x + unat a - 1) div unat a) * unat a"
proof -
  have a: "0 < unat a" using assms(1) by (simp add: unat_gt_0)
  have eq: "x + a - 1 = x + (a - 1)" by simp
  have u1: "unat (a - 1) = unat a - 1" using a by (simp add: unat_minus_one assms(1))
  moreover have "unat (x + (a - 1)) = unat x + unat (a - 1)"
    by (rule unat_add_lem [THEN iffD1]) (use assms(2) a u1 in simp)
  ultimately have n: "unat (x + a - 1) = unat x + unat a - 1" unfolding eq using a by simp
  let ?q = "(unat x + unat a - 1) div unat a"
  have "?q * unat a \<le> unat x + unat a - 1" by simp
  then have lt: "?q * unat a < 2 ^ 32" using assms(2) a by linarith
  have "unat ((x + a - 1) div a) = ?q" using n by (simp add: unat_div_distrib)
  then show ?thesis
    unfolding alignup_def using lt by (subst unat_mult_lem [THEN iffD1]) simp_all
qed

lemma alignup_props:
  assumes "a \<noteq> 0" and "unat x + unat a \<le> 2 ^ 32"
  shows "unat a dvd unat (alignup x a)" "unat x \<le> unat (alignup x a)" "unat (alignup x a) < unat x + unat a"
proof -
  have a: "0 < unat a" using assms(1) by (simp add: unat_gt_0)
  note e = unat_alignup [OF assms]
  let ?n = "unat x + unat a - 1"
  show "unat a dvd unat (alignup x a)" unfolding e by simp
  have "?n < (?n div unat a) * unat a + unat a" using a by (metis div_mult_mod_eq mod_less_divisor nat_add_left_cancel_less)
  then show "unat x \<le> unat (alignup x a)" unfolding e using a by linarith
  have "(?n div unat a) * unat a \<le> ?n" by simp
  then show "unat (alignup x a) < unat x + unat a" unfolding e using a by linarith
qed

lemma alignup_dvd_add:
  assumes "a \<noteq> 0" and "unat x + unat y + unat a \<le> 2 ^ 32" and "unat a dvd unat x"
  shows "unat (alignup (x + y) a) = unat x + unat (alignup y a)"
proof -
  have a: "0 < unat a" using assms(1) by (simp add: unat_gt_0)
  have xy: "unat (x + y) = unat x + unat y"
    by (rule unat_add_lem [THEN iffD1]) (use assms(2) a in simp)
  obtain k where k: "unat x = unat a * k" using assms(3) by (auto simp: dvd_def)
  have "unat x + unat y + unat a - 1 = (unat y + unat a - 1) + k * unat a" using a k by (simp add: mult.commute)
  then have "unat (alignup (x + y) a) = (((unat y + unat a - 1) + k * unat a) div unat a) * unat a"
    using assms(1,2) by (simp add: unat_alignup xy)
  also have "\<dots> = k * unat a + ((unat y + unat a - 1) div unat a) * unat a"
    using a by (simp only: div_mult_self1 [OF gr_implies_not0 [OF a]] add_mult_distrib)
  finally show ?thesis using assms(1,2) k by (simp add: unat_alignup mult.commute)
qed

section \<open>Well-formed images\<close>

definition section_end :: "section_header \<Rightarrow> nat" where
  "section_end s = unat (sh_VirtualAddress s) + unat (sh_VirtualSize s)"

text \<open>Sections follow each other in memory without overlap, at aligned addresses inside the image; their
  data lie in the file, whose size is a multiple of the file alignment.\<close>

definition section_wf :: "image \<Rightarrow> section_header \<Rightarrow> bool" where
  "section_wf im s \<longleftrightarrow> unat (im_SectionAlignment im) dvd unat (sh_VirtualAddress s)
     \<and> section_end s \<le> unat (im_SizeOfImage im)
     \<and> unat (sh_PointerToRawData s) + unat (sh_SizeOfRawData s) \<le> length (im_bytes im)"

definition image_wf :: "image \<Rightarrow> bool" where
  "image_wf im \<longleftrightarrow> im_FileAlignment im \<noteq> 0 \<and> im_SectionAlignment im \<noteq> 0
     \<and> length (im_bytes im) < 2 ^ 32 \<and> unat (im_FileAlignment im) dvd length (im_bytes im)
     \<and> im_sections im \<noteq> [] \<and> (\<forall>s \<in> set (im_sections im). section_wf im s)
     \<and> successively (\<lambda>s t. section_end s \<le> unat (sh_VirtualAddress t)) (im_sections im)"

lemma successively_mono_end:
  assumes "successively (\<lambda>s t. section_end s \<le> unat (sh_VirtualAddress t)) ss" and "s \<in> set ss"
  shows "section_end s \<le> section_end (last ss)"
  using assms
proof (induction ss rule: rev_induct)
  case Nil
  then show ?case by simp
next
  case (snoc t ss)
  show ?case
  proof (cases "s \<in> set ss")
    case True
    then have "section_end s \<le> section_end (last ss)" "ss \<noteq> []"
      using snoc by (auto simp: successively_append_iff)
    moreover have "section_end (last ss) \<le> unat (sh_VirtualAddress t)"
      using snoc.prems(1) \<open>ss \<noteq> []\<close> by (simp add: successively_append_iff)
    ultimately show ?thesis by (simp add: section_end_def)
  qed (use snoc.prems in simp)
qed


definition demo_image :: image where
  "demo_image =
     \<lparr>im_dos_magic = IMAGE_DOS_SIGNATURE, im_signature = IMAGE_NT_SIGNATURE, im_machine = IMAGE_FILE_MACHINE_I386,
      im_sections = [\<lparr>sh_Name = [], sh_VirtualSize = 5, sh_VirtualAddress = 16, sh_SizeOfRawData = 4,
        sh_PointerToRawData = 4, sh_Characteristics = 0\<rparr>],
      im_FileAlignment = 4, im_SectionAlignment = 16, im_ImageBase = 0x400000, im_SizeOfImage = 32,
      im_bytes = [1, 2, 3, 4, 5, 6, 7, 8]\<rparr>"


text \<open>When the size of the file is not a multiple of its alignment, the tool clears bytes behind the end of
  the mapping.\<close>

lemma append_section_unaligned_file:
  "append_section True [46] 1 0x20 (demo_image\<lparr>im_bytes := [1, 2, 3, 4, 5, 6, 7]\<rparr>) = Undefined"
  by code_simp

end
