(* ===== verification/Auto_Thread.thy ===== *)
theory Auto_Thread
  imports Async_Queue
begin

text \<open>
  \<^verbatim>\<open>src/src/auto_thread.hpp\<close>: \<open>worker_util\<close>, a thread that takes work items from a queue and
  consumes them, one after the other, until it finds the item that its destructor pushes.

  A callable is a value of a type \<open>'f\<close> of function names; \<open>call\<close> runs one on an item and
  the state of the program and may throw. An empty \<open>std::function\<close> is \<open>None\<close>.
\<close>

section \<open>Work items and workers\<close>

record ('t, 'f) work_item =
  destroy :: bool
  item :: 't
  consume_fn :: "'f option"

record ('t, 'f) worker_util =
  wu_work :: "('t, 'f) work_item list async_queue"
  consumer_fn :: "'f option"

type_synonym ('t, 'f, 's) callables = "'f \<Rightarrow> 't \<Rightarrow> 's \<Rightarrow> 's \<times> exn option"

definition MAX_TIMEOUT :: duration_t where
  "MAX_TIMEOUT = 60 * 60 * 24"

definition worker_util_new :: "'f option \<Rightarrow> nat \<Rightarrow> ('t, 'f) worker_util" where
  "worker_util_new fn queue_size = \<lparr>wu_work = aq_new [] queue_size, consumer_fn = fn\<rparr>"

text \<open>Pushing blocks while a bounded queue is full; then the result is \<open>None\<close>.\<close>

definition push_item ::
  "('t, 'f) work_item \<Rightarrow> ('t, 'f) worker_util \<Rightarrow> ('t, 'f) worker_util outcome option"
where
  "push_item w u =
     map_option (\<lambda>r. obind r (\<lambda>q. Return (u\<lparr>wu_work := q\<rparr>))) (aq_push std_queue_ops [] w (wu_work u))"

definition wu_push :: "'t \<Rightarrow> 'f option \<Rightarrow> ('t, 'f) worker_util \<Rightarrow> ('t, 'f) worker_util outcome option" where
  "wu_push t cfn = push_item \<lparr>destroy = False, item = t, consume_fn = cfn\<rparr>"

text \<open>The destructor pushes the last item; the thread is joined afterwards. The item it carries is a
  default value.\<close>

definition wu_stop :: "'t \<Rightarrow> ('t, 'f) worker_util \<Rightarrow> ('t, 'f) worker_util outcome option" where
  "wu_stop dflt = push_item \<lparr>destroy = True, item = dflt, consume_fn = None\<rparr>"

section \<open>The worker\<close>

text \<open>What one round takes from the queue: nothing, when the loop ends, or a function and its item.
  \<open>sched\<close> lists what other threads have put when a wait returns.\<close>

datatype ('t, 'f) taken = Leave | Consume "'f option" 't

definition take_item ::
  "('t, 'f) work_item list list \<Rightarrow> ('t, 'f) worker_util
     \<Rightarrow> (('t, 'f) taken \<times> ('t, 'f) worker_util) outcome option"
where
  "take_item sched u =
     (case aq_pop std_queue_ops 1 MAX_TIMEOUT None sched (wu_work u) of
        None \<Rightarrow> None
      | Some (Return (V, q)) \<Rightarrow>
          (let u' = u\<lparr>wu_work := q\<rparr>
           in if V = [] then Some (Return (Leave, u'))
              else let w = last V
                   in if destroy w then Some (Return (Leave, u'))
                      else Some (Return (Consume (case consume_fn w of None \<Rightarrow> consumer_fn u | Some f \<Rightarrow> Some f)
                             (item w), u')))
      | Some (Raise e) \<Rightarrow> Some (Raise e)
      | Some Undefined \<Rightarrow> Some Undefined)"

text \<open>Exceptions of the consumer are reported and dropped; an empty function throws.\<close>

definition consume :: "('t, 'f, 's) callables \<Rightarrow> 'f option \<Rightarrow> 't \<Rightarrow> 's \<Rightarrow> 's" where
  "consume call f t s = (case f of None \<Rightarrow> s | Some g \<Rightarrow> fst (call g t s))"

text \<open>\<open>worker\<close>, without new items while it runs, for at most \<open>fuel\<close> rounds.\<close>

fun wu_worker ::
  "('t, 'f, 's) callables \<Rightarrow> nat \<Rightarrow> ('t, 'f) worker_util \<Rightarrow> 's \<Rightarrow> (('t, 'f) worker_util \<times> 's) outcome option"
where
  "wu_worker call 0 u s = None"
| "wu_worker call (Suc n) u s =
     (case take_item [] u of
        None \<Rightarrow> None
      | Some (Return (Leave, u')) \<Rightarrow> Some (Return (u', s))
      | Some (Return (Consume f t, u')) \<Rightarrow> wu_worker call n u' (consume call f t s)
      | Some (Raise e) \<Rightarrow> Some (Raise e)
      | Some Undefined \<Rightarrow> Some Undefined)"

section \<open>Lemmas\<close>

abbreviation wu_items :: "('t, 'f) worker_util \<Rightarrow> ('t, 'f) work_item list" where
  "wu_items u \<equiv> aq_q (wu_work u)"

abbreviation wu_max :: "('t, 'f) worker_util \<Rightarrow> nat" where
  "wu_max u \<equiv> aq_max (wu_work u)"

definition set_items :: "('t, 'f) work_item list \<Rightarrow> ('t, 'f) worker_util \<Rightarrow> ('t, 'f) worker_util" where
  "set_items ws u = u\<lparr>wu_work := (wu_work u)\<lparr>aq_q := ws\<rparr>\<rparr>"

lemma set_items_simps [simp]:
  "wu_items (set_items ws u) = ws" "wu_max (set_items ws u) = wu_max u"
  "consumer_fn (set_items ws u) = consumer_fn u" "set_items vs (set_items ws u) = set_items vs u"
  by (simp_all add: set_items_def)

lemma push_item_eq:
  "push_item w u = (if 0 < wu_max u \<and> wu_max u \<le> length (wu_items u) then None
     else Some (Return (set_items (wu_items u @ [w]) u)))"
  by (auto simp: push_item_def aq_push_def aq_emplace_def aq_full_def aq_size_def std_queue_ops_def set_items_def
      split: option.splits)

lemma take_item_Cons:
  assumes "wu_items u = w # ws"
  shows "take_item sched u = Some (Return
    (if destroy w then Leave
     else Consume (case consume_fn w of None \<Rightarrow> consumer_fn u | Some f \<Rightarrow> Some f) (item w), set_items ws u))"
proof -
  from fifo.pop_one [of "wu_items u" w ws None MAX_TIMEOUT sched] assms
  have "aq_pop_loop std_queue_ops 1 MAX_TIMEOUT None sched (wu_items u) [] = Some (Return ([w], ws))" by simp
  then show ?thesis by (simp add: take_item_def aq_pop_def set_items_def)
qed

lemma take_item_Nil: "wu_items u = [] \<Longrightarrow> take_item [] u = Some (Return (Leave, u))"
  by (simp add: take_item_def aq_pop_def fifo.pop_empty Let_def)

lemma MAX_TIMEOUT_pos: "0 < MAX_TIMEOUT"
  by (simp add: MAX_TIMEOUT_def)

definition run_item :: "('t, 'f, 's) callables \<Rightarrow> 'f option \<Rightarrow> ('t, 'f) work_item \<Rightarrow> 's \<Rightarrow> 's" where
  "run_item call dflt w = consume call (case consume_fn w of None \<Rightarrow> dflt | Some f \<Rightarrow> Some f) (item w)"

text \<open>Items that were pushed before the destructor are all consumed, in order, before the thread ends.\<close>

lemma worker_runs_all:
  assumes "wu_items u = ws @ w # rest" and "\<forall>x \<in> set ws. \<not> destroy x" and "destroy w"
  shows "wu_worker call (Suc (length ws)) u s =
    Some (Return (set_items rest u, fold (run_item call (consumer_fn u)) ws s))"
  using assms(1,2)
proof (induction ws arbitrary: u s)
  case Nil
  then show ?case using assms(3) by (simp add: take_item_Cons)
next
  case (Cons x ws)
  have "wu_worker call (Suc (length ws)) (set_items (ws @ w # rest) u) s' =
      Some (Return (set_items rest u, fold (run_item call (consumer_fn u)) ws s'))" for s'
    using Cons.IH [of "set_items (ws @ w # rest) u"] Cons.prems by simp
  then show ?case
    using Cons.prems by (simp add: take_item_Cons [of u x] run_item_def [of _ _ x] del: wu_worker.simps(2)
        add: wu_worker.simps(2) [of call "Suc (length ws)"])
qed

end
