(* ===== verification/Websocket_Server.thy ===== *)
theory Websocket_Server
  imports Auto_Thread
begin

text \<open>
  \<^verbatim>\<open>src/src/websocket_server.cpp\<close>, \<^verbatim>\<open>src/src/asio_utils.cpp\<close> (\<open>IOService::post\<close>): the server between
  the WebSocket library and the service.

  The library calls the handlers on one thread, the thread of the \<open>IOService\<close>, which also
  runs the functions that other threads post. Every connection has an executor, a
  \<open>worker_util\<close> with room for five items: a message is stored in the buffer of the
  connection and a task pushed that passes the buffer to the callback \<open>receive\<close>, posts a
  function that sends the response, and waits until it has been run.

  The model is a step function on labels, one label per atomic action of a thread; its value is
  \<open>None\<close> when the thread has to wait. The library is a trace of the calls that the server makes
  of it (and of the callbacks) and three functions: the socket of a connection handle, whether
  a connection is open, and whether its remote address matches \<open>allowed_hosts_regex\<close>. The callbacks are functions on a state \<open>'w\<close> of the service.
\<close>

section \<open>State\<close>

type_synonym hdl = nat

text \<open>The functions passed to an executor: both capture the id of the connection.\<close>

datatype task = ReplyTask nat u32 | HttpTask hdl u32

text \<open>What the thread of an executor is doing: it waits for an item, has taken a task, holds a response,
  waits until the posted function has been run, or has ended.\<close>

datatype ex_state = ExIdle | ExTask task | ExReply task string | ExWait task | ExDone

record executor =
  ex_util :: "(int, task) worker_util"
  ex_state :: ex_state

record socket_entry =
  entry_hdl :: "hdl option"
  buffer :: string
  entry_executor :: "executor option"

text \<open>Functions posted to the thread of the \<open>IOService\<close>.\<close>

datatype posted_fn = SendReply u32 nat string | SendHttp hdl u32 string | CloseAll

text \<open>The thread of the \<open>IOService\<close>: free, blocked in \<open>push\<close>, or destroying executors (the flag says that
  the last item was pushed to the first one, which is being joined).\<close>

datatype io_state = IoFree | IoPush u32 task | IoDestroy bool executor "executor list"

text \<open>The calls of the library and of the callbacks.\<close>

datatype ws_call =
    Receive u32 string "string outcome" | Accept u32 | OnClose u32
  | Send "hdl option" nat string | HttpResponse hdl string | Interrupt hdl | CloseCon "hdl option"

type_synonym ws_conns = "(u32 \<times> socket_entry) list"

record 'w ws_server =
  conns :: ws_conns
  max_connections :: nat
  posted :: "posted_fn list"
  io :: io_state
  calls :: "ws_call list"
  service :: 'w

record 'w ws_env =
  get_socket_id :: "hdl \<Rightarrow> u32"
  con_open :: "hdl option \<Rightarrow> bool"
  host_matches :: "hdl \<Rightarrow> bool"
  cb_receive :: "u32 \<Rightarrow> string \<Rightarrow> 'w \<Rightarrow> 'w \<times> string outcome"
  cb_accept :: "u32 \<Rightarrow> 'w \<Rightarrow> 'w \<times> exn option"
  cb_close :: "u32 \<Rightarrow> 'w \<Rightarrow> 'w \<times> exn option"

section \<open>The connection table\<close>

text \<open>\<open>std::map\<close> keeps its entries in the order of the keys.\<close>

fun conn_put :: "u32 \<Rightarrow> socket_entry \<Rightarrow> ws_conns \<Rightarrow> ws_conns" where
  "conn_put k v [] = [(k, v)]"
| "conn_put k v ((k', v') # r) =
     (if k = k' then (k, v) # r else if k < k' then (k, v) # (k', v') # r else (k', v') # conn_put k v r)"

definition conn_erase :: "u32 \<Rightarrow> ws_conns \<Rightarrow> ws_conns" where
  "conn_erase k cs = filter (\<lambda>(k', _). k' \<noteq> k) cs"

text \<open>\<open>operator[]\<close> inserts an entry of default values when the key is missing.\<close>

definition default_entry :: socket_entry where
  "default_entry = \<lparr>entry_hdl = None, buffer = [], entry_executor = None\<rparr>"

definition entry_at :: "u32 \<Rightarrow> 'w ws_server \<Rightarrow> socket_entry" where
  "entry_at sid s = (case map_of (conns s) sid of None \<Rightarrow> default_entry | Some e \<Rightarrow> e)"

definition put_entry :: "u32 \<Rightarrow> socket_entry \<Rightarrow> 'w ws_server \<Rightarrow> 'w ws_server" where
  "put_entry sid e s = s\<lparr>conns := conn_put sid e (conns s)\<rparr>"

definition log_call :: "ws_call \<Rightarrow> 'w ws_server \<Rightarrow> 'w ws_server" where
  "log_call c s = s\<lparr>calls := calls s @ [c]\<rparr>"

section \<open>Executors\<close>

definition new_executor :: executor where
  "new_executor = \<lparr>ex_util = worker_util_new None 5, ex_state = ExIdle\<rparr>"

text \<open>\<open>executor->push(0, task)\<close> on the thread of the \<open>IOService\<close>, which blocks while five items wait; a
  null executor is dereferenced.\<close>

definition push_task :: "u32 \<Rightarrow> task \<Rightarrow> 'w ws_server \<Rightarrow> 'w ws_server outcome" where
  "push_task sid t s =
     (let e = entry_at sid s
      in case entry_executor e of
           None \<Rightarrow> Undefined
         | Some x \<Rightarrow>
             (case wu_push 0 (Some t) (ex_util x) of
                None \<Rightarrow> Return ((put_entry sid e s)\<lparr>io := IoPush sid t\<rparr>)
              | Some r \<Rightarrow> obind r (\<lambda>u.
                  Return ((put_entry sid (e\<lparr>entry_executor := Some (x\<lparr>ex_util := u\<rparr>)\<rparr>) s)\<lparr>io := IoFree\<rparr>))))"

text \<open>Destruction of executors, one after the other: push the last item, join the thread.\<close>

definition stop_executor :: "executor \<Rightarrow> executor list \<Rightarrow> 'w ws_server \<Rightarrow> 'w ws_server outcome" where
  "stop_executor x xs s =
     (case wu_stop 0 (ex_util x) of
        None \<Rightarrow> Return (s\<lparr>io := IoDestroy False x xs\<rparr>)
      | Some r \<Rightarrow> obind r (\<lambda>u. Return (s\<lparr>io := IoDestroy True (x\<lparr>ex_util := u\<rparr>) xs\<rparr>)))"

definition destroy_executors :: "executor list \<Rightarrow> 'w ws_server \<Rightarrow> 'w ws_server outcome" where
  "destroy_executors xs s = (case xs of [] \<Rightarrow> Return (s\<lparr>io := IoFree\<rparr>) | x # r \<Rightarrow> stop_executor x r s)"

definition executors :: "ws_conns \<Rightarrow> executor list" where
  "executors cs = List.map_filter (\<lambda>(_, e). entry_executor e) cs"

definition erase_conn :: "u32 \<Rightarrow> 'w ws_server \<Rightarrow> 'w ws_server outcome" where
  "erase_conn sid s =
     (case map_of (conns s) sid of
        None \<Rightarrow> Return s
      | Some e \<Rightarrow> destroy_executors (executors [(sid, e)]) (s\<lparr>conns := conn_erase sid (conns s)\<rparr>))"

section \<open>Handlers\<close>

datatype ws_event =
    TcpInit hdl | Message hdl nat string | Open hdl | Close hdl | Interrupted hdl
  | HttpRequest hdl string | Shutdown

definition opcode_text :: nat where "opcode_text = 1"

definition opcode_binary :: nat where "opcode_binary = 2"

text \<open>Both branches of the handler only write a message: a connection from a host that is not allowed is
  not rejected.\<close>

definition tcp_pre_init_handler :: "'w ws_env \<Rightarrow> hdl \<Rightarrow> 'w ws_server \<Rightarrow> 'w ws_server outcome" where
  "tcp_pre_init_handler E h s = (if \<not> host_matches E h then Return s else Return s)"

text \<open>Assigning a new entry destroys the executor of an old one with the same key.\<close>

definition add_connection :: "'w ws_env \<Rightarrow> hdl \<Rightarrow> 'w ws_server \<Rightarrow> 'w ws_server outcome" where
  "add_connection E h s =
     (let sid = get_socket_id E h;
          s1 = put_entry sid \<lparr>entry_hdl = Some h, buffer = [], entry_executor = Some new_executor\<rparr> s
      in destroy_executors (executors [(sid, entry_at sid s)]) s1)"

definition validate_handler :: "'w ws_server \<Rightarrow> bool" where
  "validate_handler s \<longleftrightarrow> length (conns s) < max_connections s"

definition call_accept :: "'w ws_env \<Rightarrow> u32 \<Rightarrow> 'w ws_server \<Rightarrow> 'w ws_server \<times> exn option" where
  "call_accept E sid s =
     (case cb_accept E sid (service s) of (w, e) \<Rightarrow> ((log_call (Accept sid) s)\<lparr>service := w\<rparr>, e))"

definition call_close :: "'w ws_env \<Rightarrow> u32 \<Rightarrow> 'w ws_server \<Rightarrow> 'w ws_server \<times> exn option" where
  "call_close E sid s =
     (case cb_close E sid (service s) of (w, e) \<Rightarrow> ((log_call (OnClose sid) s)\<lparr>service := w\<rparr>, e))"

definition send_response :: "'w ws_env \<Rightarrow> hdl \<Rightarrow> nat \<Rightarrow> string \<Rightarrow> 'w ws_server \<Rightarrow> 'w ws_server outcome" where
  "send_response E h opc msg s =
     (let sid = get_socket_id E h
      in push_task sid (ReplyTask opc sid) (put_entry sid ((entry_at sid s)\<lparr>buffer := msg\<rparr>) s))"

definition message_handler :: "'w ws_env \<Rightarrow> hdl \<Rightarrow> nat \<Rightarrow> string \<Rightarrow> 'w ws_server \<Rightarrow> 'w ws_server outcome" where
  "message_handler E h opc msg s = (if opc = opcode_text then Return s else send_response E h opc msg s)"

text \<open>An exception of the callback leaves the entry in the table.\<close>

definition close_handler :: "'w ws_env \<Rightarrow> hdl \<Rightarrow> 'w ws_server \<Rightarrow> 'w ws_server outcome" where
  "close_handler E h s =
     (case call_close E (get_socket_id E h) s of
        (s1, Some e) \<Rightarrow> Return s1
      | (s1, None) \<Rightarrow> erase_conn (get_socket_id E h) s1)"

text \<open>The callback of \<open>open\<close> runs after the assignment; an old executor with the same socket is joined
  in between, which does not happen for sockets that the system hands out once.\<close>

definition open_handler :: "'w ws_env \<Rightarrow> hdl \<Rightarrow> 'w ws_server \<Rightarrow> 'w ws_server outcome" where
  "open_handler E h s = obind (add_connection E h s) (\<lambda>s1. Return (fst (call_accept E (get_socket_id E h) s1)))"

definition interrupt_handler :: "'w ws_env \<Rightarrow> hdl \<Rightarrow> 'w ws_server \<Rightarrow> 'w ws_server outcome" where
  "interrupt_handler E h s = erase_conn (get_socket_id E h) s"

text \<open>\<open>http_handler\<close> does not catch exceptions of the callback.\<close>

definition http_handler :: "'w ws_env \<Rightarrow> hdl \<Rightarrow> string \<Rightarrow> 'w ws_server \<Rightarrow> 'w ws_server outcome" where
  "http_handler E h body s =
     (let sid = get_socket_id E h
      in if map_of (conns s) sid \<noteq> None then Return s
         else obind (add_connection E h s) (\<lambda>s1.
           case call_accept E sid s1 of
             (s2, Some e) \<Rightarrow> Raise e
           | (s2, None) \<Rightarrow> push_task sid (HttpTask h sid) (put_entry sid ((entry_at sid s2)\<lparr>buffer := body\<rparr>) s2)))"

definition ws_handle :: "'w ws_env \<Rightarrow> ws_event \<Rightarrow> 'w ws_server \<Rightarrow> 'w ws_server outcome" where
  "ws_handle E ev s =
     (case ev of
        TcpInit h \<Rightarrow> tcp_pre_init_handler E h s
      | Message h opc msg \<Rightarrow> message_handler E h opc msg s
      | Open h \<Rightarrow> open_handler E h s
      | Close h \<Rightarrow> close_handler E h s
      | Interrupted h \<Rightarrow> interrupt_handler E h s
      | HttpRequest h body \<Rightarrow> http_handler E h body s
      | Shutdown \<Rightarrow> Return (s\<lparr>posted := posted s @ [CloseAll]\<rparr>))"

section \<open>Posted functions\<close>

text \<open>When a posted function has been run, \<open>done\<close> wakes the executor that waits for it.\<close>

definition set_ex_state :: "u32 \<Rightarrow> ex_state \<Rightarrow> 'w ws_server \<Rightarrow> 'w ws_server" where
  "set_ex_state sid st s =
     (let e = entry_at sid s
      in put_entry sid (e\<lparr>entry_executor := map_option (\<lambda>x. x\<lparr>ex_state := st\<rparr>) (entry_executor e)\<rparr>) s)"

text \<open>\<open>send\<close> may fail when the connection is gone; that is ignored.\<close>

definition send_posted :: "u32 \<Rightarrow> nat \<Rightarrow> string \<Rightarrow> 'w ws_server \<Rightarrow> 'w ws_server" where
  "send_posted sid opc resp s = log_call (Send (entry_hdl (entry_at sid s)) opc resp) s"

definition http_posted :: "'w ws_env \<Rightarrow> hdl \<Rightarrow> u32 \<Rightarrow> string \<Rightarrow> 'w ws_server \<Rightarrow> 'w ws_server" where
  "http_posted E h sid resp s = log_call (Interrupt h) (fst (call_close E sid (log_call (HttpResponse h resp) s)))"

text \<open>\<open>clear\<close> destroys the entries in descending order of their keys.\<close>

definition close_all :: "'w ws_env \<Rightarrow> 'w ws_server \<Rightarrow> 'w ws_server outcome" where
  "close_all E s =
     destroy_executors (rev (executors (conns s)))
       (s\<lparr>calls := calls s @ map CloseCon (filter (con_open E) (map (entry_hdl \<circ> snd) (conns s))),
          conns := []\<rparr>)"

definition run_posted :: "'w ws_env \<Rightarrow> posted_fn \<Rightarrow> 'w ws_server \<Rightarrow> 'w ws_server outcome" where
  "run_posted E f s =
     (case f of
        SendReply sid opc resp \<Rightarrow> Return (set_ex_state sid ExIdle (send_posted sid opc resp s))
      | SendHttp h sid resp \<Rightarrow> Return (set_ex_state sid ExIdle (http_posted E h sid resp s))
      | CloseAll \<Rightarrow> close_all E s)"

section \<open>Steps\<close>

text \<open>The executor that a step belongs to: the one of a connection or the one being joined.\<close>

datatype who = Conn u32 | Dying

datatype label = Event ws_event | RunPosted | Resume | Take who | Run who | Post who | Expire who

definition executor_of :: "who \<Rightarrow> 'w ws_server \<Rightarrow> executor option" where
  "executor_of k s =
     (case k of
        Conn sid \<Rightarrow> entry_executor (entry_at sid s)
      | Dying \<Rightarrow> (case io s of IoDestroy st x xs \<Rightarrow> Some x | _ \<Rightarrow> None))"

definition put_executor :: "who \<Rightarrow> executor \<Rightarrow> 'w ws_server \<Rightarrow> 'w ws_server" where
  "put_executor k x s =
     (case k of
        Conn sid \<Rightarrow> put_entry sid ((entry_at sid s)\<lparr>entry_executor := Some x\<rparr>) s
      | Dying \<Rightarrow> (case io s of IoDestroy st y xs \<Rightarrow> s\<lparr>io := IoDestroy st x xs\<rparr> | _ \<Rightarrow> s))"

text \<open>The head of the loop of \<open>worker\<close>: it waits while the queue is empty.\<close>

definition step_take :: "who \<Rightarrow> executor \<Rightarrow> 'w ws_server \<Rightarrow> 'w ws_server outcome option" where
  "step_take k x s =
     (if ex_state x \<noteq> ExIdle \<or> wu_items (ex_util x) = [] then None
      else map_option (\<lambda>r. obind r (\<lambda>(t, u). Return (put_executor k
             \<lparr>ex_util = u, ex_state = (case t of Consume (Some f) _ \<Rightarrow> ExTask f | Consume None _ \<Rightarrow> ExIdle | Leave \<Rightarrow> ExDone)\<rparr> s)))
             (take_item [] (ex_util x)))"

text \<open>A wait of \<open>MAX_TIMEOUT\<close> ends the loop.\<close>

definition step_expire :: "who \<Rightarrow> executor \<Rightarrow> 'w ws_server \<Rightarrow> 'w ws_server outcome option" where
  "step_expire k x s =
     (if ex_state x \<noteq> ExIdle \<or> wu_items (ex_util x) \<noteq> [] then None
      else map_option (\<lambda>r. obind r (\<lambda>(t, u). Return (put_executor k \<lparr>ex_util = u, ex_state = ExDone\<rparr> s)))
             (take_item [] (ex_util x)))"

fun task_socket :: "task \<Rightarrow> u32" where
  "task_socket (ReplyTask opc sid) = sid"
| "task_socket (HttpTask h sid) = sid"

text \<open>The callback gets the buffer as it is now. \<open>operator[]\<close> of the task may insert an entry. An
  exception ends the task.\<close>

definition step_run :: "'w ws_env \<Rightarrow> who \<Rightarrow> executor \<Rightarrow> 'w ws_server \<Rightarrow> 'w ws_server outcome option" where
  "step_run E k x s =
     (case ex_state x of
        ExTask t \<Rightarrow>
          (let sid = task_socket t; e = entry_at sid s
           in case cb_receive E sid (buffer e) (service s) of
                (w, r) \<Rightarrow>
                  (let s1 = (log_call (Receive sid (buffer e) r) (put_entry sid e s))\<lparr>service := w\<rparr>
                   in case r of
                        Return resp \<Rightarrow> Some (Return (put_executor k (x\<lparr>ex_state := ExReply t resp\<rparr>) s1))
                      | Raise ex \<Rightarrow> Some (Return (put_executor k (x\<lparr>ex_state := ExIdle\<rparr>) s1))
                      | Undefined \<Rightarrow> Some Undefined))
      | _ \<Rightarrow> None)"

fun reply_fn :: "task \<Rightarrow> string \<Rightarrow> posted_fn" where
  "reply_fn (ReplyTask opc sid) resp = SendReply sid opc resp"
| "reply_fn (HttpTask h sid) resp = SendHttp h sid resp"

definition step_post :: "who \<Rightarrow> executor \<Rightarrow> 'w ws_server \<Rightarrow> 'w ws_server outcome option" where
  "step_post k x s =
     (case ex_state x of
        ExReply t resp \<Rightarrow>
          Some (Return (put_executor k (x\<lparr>ex_state := ExWait t\<rparr>) (s\<lparr>posted := posted s @ [reply_fn t resp]\<rparr>)))
      | _ \<Rightarrow> None)"

text \<open>The blocked thread of the \<open>IOService\<close> goes on when there is room or when the thread has ended.\<close>

definition step_resume :: "'w ws_server \<Rightarrow> 'w ws_server outcome option" where
  "step_resume s =
     (case io s of
        IoFree \<Rightarrow> None
      | IoPush sid t \<Rightarrow>
          (case executor_of (Conn sid) s of
             None \<Rightarrow> Some Undefined
           | Some x \<Rightarrow> (if wu_push 0 (Some t) (ex_util x) = None then None else Some (push_task sid t s)))
      | IoDestroy False x xs \<Rightarrow>
          (if wu_stop 0 (ex_util x) = None then None else Some (stop_executor x xs s))
      | IoDestroy True x xs \<Rightarrow>
          (if ex_state x = ExDone then Some (destroy_executors xs s) else None))"

definition ws_step :: "'w ws_env \<Rightarrow> label \<Rightarrow> 'w ws_server \<Rightarrow> 'w ws_server outcome option" where
  "ws_step E l s =
     (case l of
        Event ev \<Rightarrow> (if io s = IoFree then Some (ws_handle E ev s) else None)
      | RunPosted \<Rightarrow>
          (case posted s of
             [] \<Rightarrow> None
           | f # fs \<Rightarrow> (if io s = IoFree then Some (run_posted E f (s\<lparr>posted := fs\<rparr>)) else None))
      | Resume \<Rightarrow> step_resume s
      | Take k \<Rightarrow> Option.bind (executor_of k s) (\<lambda>x. step_take k x s)
      | Run k \<Rightarrow> Option.bind (executor_of k s) (\<lambda>x. step_run E k x s)
      | Post k \<Rightarrow> Option.bind (executor_of k s) (\<lambda>x. step_post k x s)
      | Expire k \<Rightarrow> Option.bind (executor_of k s) (\<lambda>x. step_expire k x s))"

fun ws_run :: "'w ws_env \<Rightarrow> label list \<Rightarrow> 'w ws_server \<Rightarrow> 'w ws_server outcome option" where
  "ws_run E [] s = Some (Return s)"
| "ws_run E (l # ls) s =
     (case ws_step E l s of
        Some (Return s1) \<Rightarrow> ws_run E ls s1
      | r \<Rightarrow> r)"

definition ws_init :: "nat \<Rightarrow> 'w \<Rightarrow> 'w ws_server" where
  "ws_init n w = \<lparr>conns = [], max_connections = n, posted = [], io = IoFree, calls = [], service = w\<rparr>"

section \<open>Clients that wait for their response\<close>

text \<open>What was requested on a socket, what the service received and answered, and what was sent.\<close>

definition requests :: "'w ws_env \<Rightarrow> u32 \<Rightarrow> label list \<Rightarrow> string list" where
  "requests E k ls = concat (map (\<lambda>l. case l of
       Event (Message h opc m) \<Rightarrow> if get_socket_id E h = k \<and> opc \<noteq> opcode_text then [m] else []
     | Event (HttpRequest h m) \<Rightarrow> if get_socket_id E h = k then [m] else []
     | _ \<Rightarrow> []) ls)"

definition received :: "u32 \<Rightarrow> ws_call list \<Rightarrow> string list" where
  "received k cs = concat (map (\<lambda>c. case c of Receive i m r \<Rightarrow> if i = k then [m] else [] | _ \<Rightarrow> []) cs)"

definition replies :: "u32 \<Rightarrow> ws_call list \<Rightarrow> string list" where
  "replies k cs =
     concat (map (\<lambda>c. case c of Receive i m (Return r) \<Rightarrow> if i = k then [r] else [] | _ \<Rightarrow> []) cs)"

definition sent :: "'w ws_env \<Rightarrow> u32 \<Rightarrow> ws_call list \<Rightarrow> string list" where
  "sent E k cs = concat (map (\<lambda>c. case c of
       Send (Some h) opc r \<Rightarrow> if get_socket_id E h = k then [r] else []
     | HttpResponse h r \<Rightarrow> if get_socket_id E h = k then [r] else []
     | _ \<Rightarrow> []) cs)"

text \<open>A connection without a request in progress.\<close>

definition quiet :: "executor \<Rightarrow> bool" where
  "quiet x \<longleftrightarrow> ex_state x = ExIdle \<and> wu_items (ex_util x) = []"

definition conn_quiet :: "u32 \<Rightarrow> 'w ws_server \<Rightarrow> bool" where
  "conn_quiet k s \<longleftrightarrow>
     (case executor_of (Conn k) s of None \<Rightarrow> False | Some x \<Rightarrow> quiet x)"

text \<open>The events of clients that send the next request, or close the connection, only after the response
  has been sent. A new connection has a socket that is not in use. The server is not shut down
  and no connection idles for a day.\<close>

definition allowed :: "'w ws_env \<Rightarrow> label \<Rightarrow> 'w ws_server \<Rightarrow> bool" where
  "allowed E l s =
     (case l of
        Event (Message h opc m) \<Rightarrow> opc = opcode_text \<or> conn_quiet (get_socket_id E h) s
      | Event (Open h) \<Rightarrow> map_of (conns s) (get_socket_id E h) = None
      | Event (HttpRequest h m) \<Rightarrow> map_of (conns s) (get_socket_id E h) = None
      | Event (Close h) \<Rightarrow> conn_quiet (get_socket_id E h) s
      | Event (Interrupted h) \<Rightarrow> conn_quiet (get_socket_id E h) s
      | Event Shutdown \<Rightarrow> False
      | Expire k \<Rightarrow> False
      | _ \<Rightarrow> True)"

inductive polite :: "'w ws_env \<Rightarrow> nat \<Rightarrow> 'w \<Rightarrow> label list \<Rightarrow> 'w ws_server \<Rightarrow> bool" for E n w where
  polite_init: "polite E n w [] (ws_init n w)"
| polite_step: "polite E n w ls s \<Longrightarrow> allowed E l s \<Longrightarrow> ws_step E l s = Some (Return s') \<Longrightarrow>
    polite E n w (ls @ [l]) s'"

subsection \<open>Lemmas on the table and the logs\<close>

lemma map_of_conn_put [simp]: "map_of (conn_put k v cs) = (map_of cs)(k \<mapsto> v)"
  by (induction k v cs rule: conn_put.induct) (auto simp: fun_eq_iff)

lemma map_of_conn_erase [simp]: "map_of (conn_erase k cs) = (map_of cs)(k := None)"
  by (induction cs) (auto simp: conn_erase_def fun_eq_iff)

lemma requests_append [simp]: "requests E k (ls @ ms) = requests E k ls @ requests E k ms"
  by (simp add: requests_def)

lemma received_append [simp]: "received k (cs @ ds) = received k cs @ received k ds"
  by (simp add: received_def)

lemma replies_append [simp]: "replies k (cs @ ds) = replies k cs @ replies k ds"
  by (simp add: replies_def)

lemma sent_append [simp]: "sent E k (cs @ ds) = sent E k cs @ sent E k ds"
  by (simp add: sent_def)

lemma entry_at_Some: "map_of (conns s) k = Some e \<Longrightarrow> entry_at k s = e"
  by (simp add: entry_at_def)

lemma put_entry_simps [simp]:
  "map_of (conns (put_entry k e s)) = (map_of (conns s))(k \<mapsto> e)" "posted (put_entry k e s) = posted s"
  "io (put_entry k e s) = io s" "calls (put_entry k e s) = calls s" "service (put_entry k e s) = service s"
  by (simp_all add: put_entry_def)

lemma entry_at_put [simp]: "entry_at k (put_entry j e s) = (if k = j then e else entry_at k s)"
  by (simp add: entry_at_def)

lemma log_call_simps [simp]:
  "conns (log_call c s) = conns s" "posted (log_call c s) = posted s" "io (log_call c s) = io s"
  "calls (log_call c s) = calls s @ [c]" "service (log_call c s) = service s"
  by (simp_all add: log_call_def)

lemma entry_at_frame [simp]:
  "entry_at k (s\<lparr>service := w\<rparr>) = entry_at k s" "entry_at k (s\<lparr>io := i\<rparr>) = entry_at k s"
  "entry_at k (s\<lparr>posted := fs\<rparr>) = entry_at k s" "entry_at k (s\<lparr>calls := cs\<rparr>) = entry_at k s"
  "entry_at k (log_call c s) = entry_at k s"
  by (simp_all add: entry_at_def)

lemma wu_push_room:
  assumes "length (wu_items u) < wu_max u"
  shows "wu_push t f u = Some (Return (set_items (wu_items u @ [\<lparr>destroy = False, item = t, consume_fn = f\<rparr>]) u))"
  using assms by (simp add: wu_push_def push_item_eq)

lemma wu_stop_room:
  assumes "length (wu_items u) < wu_max u"
  shows "wu_stop t u = Some (Return (set_items (wu_items u @ [\<lparr>destroy = True, item = t, consume_fn = None\<rparr>]) u))"
  using assms by (simp add: wu_stop_def push_item_eq)

subsection \<open>The invariant\<close>

fun task_ok :: "'w ws_env \<Rightarrow> u32 \<Rightarrow> task \<Rightarrow> bool" where
  "task_ok E k (ReplyTask opc i) \<longleftrightarrow> i = k"
| "task_ok E k (HttpTask h i) \<longleftrightarrow> i = k \<and> get_socket_id E h = k"

fun fn_for :: "u32 \<Rightarrow> posted_fn \<Rightarrow> bool" where
  "fn_for k (SendReply i opc r) \<longleftrightarrow> i = k"
| "fn_for k (SendHttp h i r) \<longleftrightarrow> i = k"
| "fn_for k CloseAll \<longleftrightarrow> True"

definition work :: "task \<Rightarrow> (int, task) work_item" where
  "work t = \<lparr>destroy = False, item = 0, consume_fn = Some t\<rparr>"

text \<open>How far the request of a connection has come: what is queued, what is posted (\<open>own\<close>), which requests
  have been received and which replies sent.\<close>

definition phase_ok ::
  "'w ws_env \<Rightarrow> u32 \<Rightarrow> socket_entry \<Rightarrow> executor \<Rightarrow> posted_fn list \<Rightarrow> string list \<Rightarrow> ws_call list \<Rightarrow> bool"
where
  "phase_ok E k e x own rq cs \<longleftrightarrow>
     (case ex_state x of
        ExIdle \<Rightarrow> own = [] \<and> replies k cs = sent E k cs
          \<and> (wu_items (ex_util x) = [] \<and> rq = received k cs
             \<or> (\<exists>t. wu_items (ex_util x) = [work t] \<and> task_ok E k t \<and> rq = received k cs @ [buffer e]))
      | ExTask t \<Rightarrow> own = [] \<and> replies k cs = sent E k cs \<and> wu_items (ex_util x) = [] \<and> task_ok E k t
          \<and> rq = received k cs @ [buffer e]
      | ExReply t r \<Rightarrow> own = [] \<and> replies k cs = sent E k cs @ [r] \<and> wu_items (ex_util x) = [] \<and> task_ok E k t
          \<and> rq = received k cs
      | ExWait t \<Rightarrow> (\<exists>r. own = [reply_fn t r] \<and> replies k cs = sent E k cs @ [r]) \<and> wu_items (ex_util x) = []
          \<and> task_ok E k t \<and> rq = received k cs
      | ExDone \<Rightarrow> False)"

definition conn_inv ::
  "'w ws_env \<Rightarrow> u32 \<Rightarrow> socket_entry option \<Rightarrow> posted_fn list \<Rightarrow> string list \<Rightarrow> ws_call list \<Rightarrow> bool"
where
  "conn_inv E k eo own rq cs \<longleftrightarrow>
     (case eo of
        None \<Rightarrow> own = [] \<and> replies k cs = sent E k cs \<and> rq = received k cs
      | Some e \<Rightarrow> \<exists>h x. entry_hdl e = Some h \<and> get_socket_id E h = k \<and> entry_executor e = Some x
          \<and> wu_max (ex_util x) = 5 \<and> phase_ok E k e x own rq cs)"

definition last_item :: "(int, task) work_item" where
  "last_item = \<lparr>destroy = True, item = 0, consume_fn = None\<rparr>"

definition io_ok :: "io_state \<Rightarrow> bool" where
  "io_ok i \<longleftrightarrow>
     (case i of
        IoFree \<Rightarrow> True
      | IoPush k t \<Rightarrow> False
      | IoDestroy st x xs \<Rightarrow> st \<and> xs = []
          \<and> (ex_state x = ExDone \<or> ex_state x = ExIdle \<and> wu_items (ex_util x) = [last_item]))"

definition ws_inv :: "'w ws_env \<Rightarrow> label list \<Rightarrow> 'w ws_server \<Rightarrow> bool" where
  "ws_inv E ls s \<longleftrightarrow> io_ok (io s) \<and>
     (\<forall>k. conn_inv E k (map_of (conns s) k) (filter (fn_for k) (posted s)) (requests E k ls) (calls s))"

lemma ws_inv_conn:
  "ws_inv E ls s \<Longrightarrow>
     conn_inv E k (map_of (conns s) k) (filter (fn_for k) (posted s)) (requests E k ls) (calls s)"
  by (simp add: ws_inv_def)

text \<open>A step on one connection: the others keep their part of the logs.\<close>

definition same_for :: "'w ws_env \<Rightarrow> u32 \<Rightarrow> label list \<Rightarrow> 'w ws_server \<Rightarrow> label list \<Rightarrow> 'w ws_server \<Rightarrow> bool" where
  "same_for E k ls s ms s' \<longleftrightarrow> map_of (conns s') k = map_of (conns s) k
     \<and> filter (fn_for k) (posted s') = filter (fn_for k) (posted s) \<and> requests E k ms = requests E k ls
     \<and> received k (calls s') = received k (calls s) \<and> replies k (calls s') = replies k (calls s)
     \<and> sent E k (calls s') = sent E k (calls s)"

lemma conn_inv_cong:
  assumes "received k cs' = received k cs" "replies k cs' = replies k cs" "sent E k cs' = sent E k cs"
  shows "conn_inv E k eo own rq cs' = conn_inv E k eo own rq cs"
  by (simp only: conn_inv_def phase_ok_def assms)

lemma ws_inv_step:
  assumes "ws_inv E ls s" and "\<And>j. j \<noteq> k \<Longrightarrow> same_for E j ls s ms s'" and "io_ok (io s')"
    and "conn_inv E k (map_of (conns s') k) (filter (fn_for k) (posted s')) (requests E k ms) (calls s')"
  shows "ws_inv E ms s'"
  unfolding ws_inv_def
proof (intro conjI allI)
  fix j
  show "conn_inv E j (map_of (conns s') j) (filter (fn_for j) (posted s')) (requests E j ms) (calls s')"
  proof (cases "j = k")
    case False
    with assms(2) have "same_for E j ls s ms s'" .
    then show ?thesis
      using ws_inv_conn [OF assms(1), of j] conn_inv_cong [of j "calls s'" "calls s" E]
      by (simp add: same_for_def)
  qed (use assms(4) in simp)
qed (rule assms(3))

lemma ws_inv_same:
  assumes "ws_inv E ls s" and "\<And>j. same_for E j ls s ms s'" and "io_ok (io s')"
  shows "ws_inv E ms s'"
proof (rule ws_inv_step [where k = 0])
  have "same_for E 0 ls s ms s'" by (rule assms(2))
  then show "conn_inv E 0 (map_of (conns s') 0) (filter (fn_for 0) (posted s')) (requests E 0 ms) (calls s')"
    using ws_inv_conn [OF assms(1), of 0] conn_inv_cong [of 0 "calls s'" "calls s" E]
    by (simp add: same_for_def)
qed (use assms in simp_all)

text \<open>The executor of a connection.\<close>

lemma executor_of_Conn:
  assumes "ws_inv E ls s" and "executor_of (Conn k) s = Some x"
  obtains e h where "map_of (conns s) k = Some e" "entry_executor e = Some x" "entry_hdl e = Some h"
    "get_socket_id E h = k" "wu_max (ex_util x) = 5"
    "phase_ok E k e x (filter (fn_for k) (posted s)) (requests E k ls) (calls s)"
  using ws_inv_conn [OF assms(1), of k] assms(2)
  by (cases "map_of (conns s) k") (auto simp: executor_of_def entry_at_def default_entry_def conn_inv_def)

lemma executor_phase:
  assumes "ws_inv E ls s" and "executor_of (Conn k) s = Some x"
  shows "\<exists>e. phase_ok E k e x (filter (fn_for k) (posted s)) (requests E k ls) (calls s)"
  by (rule executor_of_Conn [OF assms]) blast

lemma ws_inv_init: "ws_inv E [] (ws_init n w)"
  by (simp add: ws_inv_def ws_init_def io_ok_def conn_inv_def requests_def received_def replies_def sent_def)

lemma fn_for_reply: "task_ok E k t \<Longrightarrow> fn_for j (reply_fn t r) \<longleftrightarrow> j = k"
  by (cases t) auto

lemma task_socket_ok: "task_ok E k t \<Longrightarrow> task_socket t = k"
  by (cases t) auto

subsection \<open>Every allowed step keeps it\<close>

lemma same_for_put [simp]:
  assumes "j \<noteq> k"
  shows "same_for E j ls s ls (put_entry k e s)"
  using assms by (simp add: same_for_def)

lemma inv_take:
  assumes inv: "ws_inv E ls s" and x: "executor_of (Conn k) s = Some x"
    and step: "step_take (Conn k) x s = Some (Return s')"
  shows "ws_inv E (ls @ [Take (Conn k)]) s'"
proof -
  from executor_of_Conn [OF inv x] obtain e h where e: "map_of (conns s) k = Some e" "entry_executor e = Some x"
    "entry_hdl e = Some h" "get_socket_id E h = k" "wu_max (ex_util x) = 5"
    "phase_ok E k e x (filter (fn_for k) (posted s)) (requests E k ls) (calls s)" .
  have st: "ex_state x = ExIdle" "wu_items (ex_util x) \<noteq> []"
    using step by (auto simp: step_take_def split: if_splits)
  with e(6) obtain t where t: "wu_items (ex_util x) = [work t]" by (auto simp: phase_ok_def)
  then have "s' = put_executor (Conn k) \<lparr>ex_util = set_items [] (ex_util x), ex_state = ExTask t\<rparr> s"
    using step st by (simp add: step_take_def take_item_Cons work_def)
  then have s': "s' = put_entry k (e\<lparr>entry_executor := Some \<lparr>ex_util = set_items [] (ex_util x), ex_state = ExTask t\<rparr>\<rparr>) s"
    by (simp add: put_executor_def entry_at_Some [OF e(1)])
  show ?thesis
  proof (rule ws_inv_step [OF inv, of k])
    show "io_ok (io s')" using inv by (simp add: s' ws_inv_def)
    show "conn_inv E k (map_of (conns s') k) (filter (fn_for k) (posted s')) (requests E k (ls @ [Take (Conn k)])) (calls s')"
      using e st t by (simp add: s' conn_inv_def phase_ok_def requests_def work_def)
  qed (simp add: s' same_for_def requests_def)
qed

lemma inv_run:
  assumes inv: "ws_inv E ls s" and x: "executor_of (Conn k) s = Some x"
    and step: "step_run E (Conn k) x s = Some (Return s')"
  shows "ws_inv E (ls @ [Run (Conn k)]) s'"
proof -
  from executor_of_Conn [OF inv x] obtain e h where e: "map_of (conns s) k = Some e" "entry_executor e = Some x"
    "entry_hdl e = Some h" "get_socket_id E h = k" "wu_max (ex_util x) = 5"
    "phase_ok E k e x (filter (fn_for k) (posted s)) (requests E k ls) (calls s)" .
  obtain t where t: "ex_state x = ExTask t" using step by (auto simp: step_run_def split: ex_state.splits)
  have k: "task_socket t = k" using e(6) t by (auto simp: phase_ok_def task_socket_ok)
  obtain w r where w: "cb_receive E k (buffer e) (service s) = (w, r)" by fastforce
  have r: "r \<noteq> Undefined" using step by (auto simp: step_run_def t k w entry_at_Some [OF e(1)] Let_def)
  let ?st = "case r of Return a \<Rightarrow> ExReply t a | _ \<Rightarrow> ExIdle"
  have s': "s' = put_entry k (e\<lparr>entry_executor := Some (x\<lparr>ex_state := ?st\<rparr>)\<rparr>)
      ((log_call (Receive k (buffer e) r) (put_entry k e s))\<lparr>service := w\<rparr>)"
    using step r by (cases r)
      (auto simp: step_run_def t k w entry_at_Some [OF e(1)] Let_def put_executor_def)
  show ?thesis
  proof (rule ws_inv_step [OF inv, of k])
    show "io_ok (io s')" using inv by (simp add: s' ws_inv_def)
    show "conn_inv E k (map_of (conns s') k) (filter (fn_for k) (posted s')) (requests E k (ls @ [Run (Conn k)])) (calls s')"
      using e t r by (cases r) (simp_all add: s' conn_inv_def phase_ok_def requests_def received_def replies_def sent_def)
  qed (simp add: s' same_for_def requests_def received_def replies_def sent_def split: outcome.splits)
qed

lemma inv_post:
  assumes inv: "ws_inv E ls s" and x: "executor_of (Conn k) s = Some x"
    and step: "step_post (Conn k) x s = Some (Return s')"
  shows "ws_inv E (ls @ [Post (Conn k)]) s'"
proof -
  from executor_of_Conn [OF inv x] obtain e h where e: "map_of (conns s) k = Some e" "entry_executor e = Some x"
    "entry_hdl e = Some h" "get_socket_id E h = k" "wu_max (ex_util x) = 5"
    "phase_ok E k e x (filter (fn_for k) (posted s)) (requests E k ls) (calls s)" .
  obtain t r where t: "ex_state x = ExReply t r" using step by (auto simp: step_post_def split: ex_state.splits)
  have k: "task_ok E k t" using e(6) t by (simp add: phase_ok_def)
  have s': "s' = put_entry k (e\<lparr>entry_executor := Some (x\<lparr>ex_state := ExWait t\<rparr>)\<rparr>)
      (s\<lparr>posted := posted s @ [reply_fn t r]\<rparr>)"
    using step e(1) by (simp add: step_post_def t put_executor_def entry_at_def)
  show ?thesis
  proof (rule ws_inv_step [OF inv, of k])
    show "io_ok (io s')" using inv by (simp add: s' ws_inv_def)
    show "conn_inv E k (map_of (conns s') k) (filter (fn_for k) (posted s')) (requests E k (ls @ [Post (Conn k)])) (calls s')"
      using e t k by (simp add: s' conn_inv_def phase_ok_def requests_def fn_for_reply)
  qed (simp add: s' same_for_def requests_def fn_for_reply [OF k])
qed

lemma executors_one: "executors [(k, e)] = (case entry_executor e of None \<Rightarrow> [] | Some x \<Rightarrow> [x])"
  by (simp add: executors_def List.map_filter_def split: option.splits)

lemma inv_dying:
  assumes inv: "ws_inv E ls s" and x: "executor_of Dying s = Some x"
    and step: "step_take Dying x s = Some (Return s')"
  shows "ws_inv E (ls @ [Take Dying]) s'"
proof -
  obtain st xs where io: "io s = IoDestroy st x xs"
    using x by (auto simp: executor_of_def split: io_state.splits)
  have x': "st" "xs = []" "ex_state x = ExIdle" "wu_items (ex_util x) = [last_item]"
    using inv io step by (auto simp: ws_inv_def io_ok_def step_take_def split: if_splits)
  have s': "s' = s\<lparr>io := IoDestroy st \<lparr>ex_util = set_items [] (ex_util x), ex_state = ExDone\<rparr> xs\<rparr>"
    using step x' io by (simp add: step_take_def take_item_Cons last_item_def put_executor_def)
  show ?thesis
    by (rule ws_inv_same [OF inv]) (use x' in \<open>simp_all add: s' same_for_def requests_def io_ok_def\<close>)
qed

lemma dying_blocked:
  assumes "ws_inv E ls s" and "executor_of Dying s = Some x"
  shows "step_run E Dying x s = None" "step_post Dying x s = None"
  using assms by (auto simp: executor_of_def ws_inv_def io_ok_def step_run_def step_post_def split: io_state.splits)

lemma inv_resume:
  assumes inv: "ws_inv E ls s" and step: "step_resume s = Some (Return s')"
  shows "ws_inv E (ls @ [Resume]) s'"
proof -
  have "s' = s\<lparr>io := IoFree\<rparr>"
    using inv step
    by (auto simp: ws_inv_def io_ok_def step_resume_def destroy_executors_def split: io_state.splits bool.splits if_splits)
  then show ?thesis
    by (intro ws_inv_same [OF inv]) (simp_all add: same_for_def requests_def io_ok_def)
qed

text \<open>The connection of a quiet executor.\<close>

lemma conn_quiet_entry:
  assumes "ws_inv E ls s" and "conn_quiet k s"
  obtains e h x where "map_of (conns s) k = Some e" "entry_executor e = Some x" "entry_hdl e = Some h"
    "get_socket_id E h = k" "wu_max (ex_util x) = 5" "ex_state x = ExIdle" "wu_items (ex_util x) = []"
    "filter (fn_for k) (posted s) = []" "replies k (calls s) = sent E k (calls s)"
    "requests E k ls = received k (calls s)"
proof -
  from assms(2) obtain x where x: "executor_of (Conn k) s = Some x" "quiet x"
    by (auto simp: conn_quiet_def split: option.splits)
  from executor_of_Conn [OF assms(1) x(1)] show ?thesis
    using x(2) that by (auto simp: quiet_def phase_ok_def)
qed

lemma inv_push:
  assumes inv: "ws_inv E ls s" and q: "conn_quiet k s" and t: "task_ok E k t" and free: "io s = IoFree"
    and l: "\<And>j. requests E j [l] = (if j = k then [msg] else [])"
    and step: "push_task k t (put_entry k ((entry_at k s)\<lparr>buffer := msg\<rparr>) s) = Return s'"
  shows "ws_inv E (ls @ [l]) s'"
proof -
  from conn_quiet_entry [OF inv q] obtain e h x where e: "map_of (conns s) k = Some e"
    "entry_executor e = Some x" "entry_hdl e = Some h" "get_socket_id E h = k" "wu_max (ex_util x) = 5"
    "ex_state x = ExIdle" "wu_items (ex_util x) = []" "filter (fn_for k) (posted s) = []"
    "replies k (calls s) = sent E k (calls s)" "requests E k ls = received k (calls s)" .
  let ?e = "e\<lparr>buffer := msg, entry_executor := Some (x\<lparr>ex_util := set_items [work t] (ex_util x)\<rparr>)\<rparr>"
  have s': "s' = (put_entry k ?e (put_entry k (e\<lparr>buffer := msg\<rparr>) s))\<lparr>io := IoFree\<rparr>"
    using step e by (simp add: push_task_def Let_def entry_at_Some [OF e(1)] wu_push_room work_def)
  show ?thesis
  proof (rule ws_inv_step [OF inv, of k])
    show "conn_inv E k (map_of (conns s') k) (filter (fn_for k) (posted s')) (requests E k (ls @ [l])) (calls s')"
      using e t by (auto simp: s' conn_inv_def phase_ok_def l)
  qed (simp_all add: s' same_for_def l io_ok_def)
qed

lemma inv_erase:
  assumes inv: "ws_inv E ls s" and q: "conn_quiet k s" and free: "io s = IoFree"
    and l: "\<And>j. requests E j [l] = []" and step: "erase_conn k s = Return s'"
  shows "ws_inv E (ls @ [l]) s'"
proof -
  from conn_quiet_entry [OF inv q] obtain e h x where e: "map_of (conns s) k = Some e"
    "entry_executor e = Some x" "entry_hdl e = Some h" "get_socket_id E h = k" "wu_max (ex_util x) = 5"
    "ex_state x = ExIdle" "wu_items (ex_util x) = []" "filter (fn_for k) (posted s) = []"
    "replies k (calls s) = sent E k (calls s)" "requests E k ls = received k (calls s)" .
  have s': "s' = s\<lparr>conns := conn_erase k (conns s),
      io := IoDestroy True (x\<lparr>ex_util := set_items [last_item] (ex_util x)\<rparr>) []\<rparr>"
    using step e by (simp add: erase_conn_def executors_one destroy_executors_def stop_executor_def wu_stop_room last_item_def)
  show ?thesis
  proof (rule ws_inv_step [OF inv, of k])
    show "conn_inv E k (map_of (conns s') k) (filter (fn_for k) (posted s')) (requests E k (ls @ [l])) (calls s')"
      using e by (simp add: s' conn_inv_def l)
  qed (use e in \<open>simp_all add: s' same_for_def l io_ok_def\<close>)
qed

lemma inv_add:
  assumes inv: "ws_inv E ls s" and new: "map_of (conns s) (get_socket_id E h) = None" and free: "io s = IoFree"
  shows "\<exists>s1. add_connection E h s = Return s1 \<and> ws_inv E ls s1 \<and> conn_quiet (get_socket_id E h) s1 \<and> io s1 = IoFree"
proof -
  let ?k = "get_socket_id E h"
  let ?s = "(put_entry ?k \<lparr>entry_hdl = Some h, buffer = [], entry_executor = Some new_executor\<rparr> s)\<lparr>io := IoFree\<rparr>"
  have "add_connection E h s = Return ?s"
    using new by (simp add: add_connection_def executors_one entry_at_def default_entry_def destroy_executors_def Let_def)
  moreover have "ws_inv E ls ?s"
  proof (rule ws_inv_step [OF inv, of ?k])
    show "conn_inv E ?k (map_of (conns ?s) ?k) (filter (fn_for ?k) (posted ?s)) (requests E ?k ls) (calls ?s)"
      using ws_inv_conn [OF inv, of ?k] new
      by (simp add: conn_inv_def phase_ok_def new_executor_def worker_util_new_def aq_new_def)
  qed (simp_all add: same_for_def io_ok_def)
  moreover have "conn_quiet ?k ?s"
    by (simp add: conn_quiet_def executor_of_def quiet_def new_executor_def worker_util_new_def aq_new_def)
  ultimately show ?thesis by auto
qed

text \<open>Calls of the callbacks other than \<open>receive\<close>.\<close>

lemma inv_callback:
  assumes inv: "ws_inv E ls s" and c: "c = Accept k \<or> c = OnClose k"
  shows "ws_inv E ls ((log_call c s)\<lparr>service := w\<rparr>)"
proof (rule ws_inv_same [OF inv])
  show "io_ok (io ((log_call c s)\<lparr>service := w\<rparr>))" using inv by (simp add: ws_inv_def)
qed (use c in \<open>auto simp: same_for_def received_def replies_def sent_def\<close>)

lemma conn_quiet_frame [simp]:
  "conn_quiet k ((log_call c s)\<lparr>service := w\<rparr>) = conn_quiet k s"
  by (simp add: conn_quiet_def executor_of_def)

lemma call_accept_eq:
  "call_accept E k s = ((log_call (Accept k) s)\<lparr>service := fst (cb_accept E k (service s))\<rparr>, snd (cb_accept E k (service s)))"
  by (simp add: call_accept_def split: prod.splits)

lemma call_close_eq:
  "call_close E k s = ((log_call (OnClose k) s)\<lparr>service := fst (cb_close E k (service s))\<rparr>, snd (cb_close E k (service s)))"
  by (simp add: call_close_def split: prod.splits)

lemma inv_no_request:
  assumes "ws_inv E ls s" and "\<And>j. requests E j [l] = []"
  shows "ws_inv E (ls @ [l]) s"
  by (rule ws_inv_same [OF assms(1)]) (use assms in \<open>simp_all add: same_for_def ws_inv_def\<close>)

lemma inv_event:
  assumes inv: "ws_inv E ls s" and free: "io s = IoFree" and ok: "allowed E (Event ev) s"
    and step: "ws_handle E ev s = Return s'"
  shows "ws_inv E (ls @ [Event ev]) s'"
proof (cases ev)
  case (TcpInit h)
  then show ?thesis
    using step inv by (auto simp: ws_handle_def tcp_pre_init_handler_def requests_def intro!: inv_no_request)
next
  case (Message h opc m)
  show ?thesis
  proof (cases "opc = opcode_text")
    case True
    then show ?thesis
      using step inv Message by (auto simp: ws_handle_def message_handler_def requests_def intro!: inv_no_request)
  next
    case False
    then show ?thesis
      using step ok Message unfolding ws_handle_def message_handler_def send_response_def Let_def
      by (intro inv_push [OF inv _ _ free, of "get_socket_id E h" "ReplyTask opc (get_socket_id E h)" "Event ev" m])
        (auto simp: allowed_def requests_def)
  qed
next
  case (Open h)
  from inv_add [OF inv _ free, of h] ok Open obtain s1 where
    "add_connection E h s = Return s1" "ws_inv E ls s1" by (auto simp: allowed_def)
  then show ?thesis
    using step Open
    by (auto simp: ws_handle_def open_handler_def call_accept_eq requests_def intro!: inv_no_request inv_callback)
next
  case (Close h)
  let ?s1 = "(log_call (OnClose (get_socket_id E h)) s)\<lparr>service := fst (cb_close E (get_socket_id E h) (service s))\<rparr>"
  have i1: "ws_inv E ls ?s1" by (rule inv_callback [OF inv]) simp
  show ?thesis
  proof (cases "snd (cb_close E (get_socket_id E h) (service s))")
    case None
    then have "erase_conn (get_socket_id E h) ?s1 = Return s'"
      using step Close by (simp add: ws_handle_def close_handler_def call_close_eq)
    then show ?thesis
      by (rule inv_erase [OF i1, rotated -1]) (use ok Close free in \<open>simp_all add: allowed_def requests_def\<close>)
  next
    case (Some e)
    then have "s' = ?s1" using step Close by (simp add: ws_handle_def close_handler_def call_close_eq)
    then show ?thesis using i1 Close by (auto simp: requests_def intro!: inv_no_request)
  qed
next
  case (Interrupted h)
  then show ?thesis
    using step ok free unfolding ws_handle_def interrupt_handler_def
    by (intro inv_erase [OF inv, of "get_socket_id E h"]) (auto simp: allowed_def requests_def)
next
  case (HttpRequest h m)
  let ?k = "get_socket_id E h"
  from inv_add [OF inv _ free, of h] ok HttpRequest obtain s1 where
    s1: "add_connection E h s = Return s1" "ws_inv E ls s1" "conn_quiet ?k s1" "io s1 = IoFree"
    by (auto simp: allowed_def)
  let ?s2 = "(log_call (Accept ?k) s1)\<lparr>service := fst (cb_accept E ?k (service s1))\<rparr>"
  have "push_task ?k (HttpTask h ?k) (put_entry ?k ((entry_at ?k ?s2)\<lparr>buffer := m\<rparr>) ?s2) = Return s'"
    using step ok HttpRequest s1(1)
    by (auto simp: ws_handle_def http_handler_def Let_def allowed_def call_accept_eq split: option.splits)
  then show ?thesis
    by (rule inv_push [OF inv_callback [OF s1(2)], rotated -1])
      (use s1 HttpRequest in \<open>auto simp: requests_def\<close>)
next
  case Shutdown
  then show ?thesis using ok by (simp add: allowed_def)
qed

lemma posted_waiting:
  assumes "conn_inv E k eo own rq cs" and "own = f # fs"
  obtains e x h t r where "eo = Some e" "entry_executor e = Some x" "entry_hdl e = Some h"
    "get_socket_id E h = k" "wu_max (ex_util x) = 5" "ex_state x = ExWait t" "wu_items (ex_util x) = []"
    "task_ok E k t" "rq = received k cs" "f = reply_fn t r" "fs = []" "replies k cs = sent E k cs @ [r]"
proof -
  from assms obtain e where e: "eo = Some e" by (cases eo) (auto simp: conn_inv_def)
  with assms(1) obtain h x where x: "entry_hdl e = Some h" "get_socket_id E h = k" "entry_executor e = Some x"
    "wu_max (ex_util x) = 5" "phase_ok E k e x own rq cs" by (auto simp: conn_inv_def)
  from x(5) assms(2) show thesis
    using that [OF e x(3) x(1,2,4)] by (cases "ex_state x") (auto simp: phase_ok_def)
qed

lemma inv_posted:
  assumes inv: "ws_inv E ls s" and free: "io s = IoFree" and f: "posted s = f # fs"
    and step: "run_posted E f (s\<lparr>posted := fs\<rparr>) = Return s'"
  shows "ws_inv E (ls @ [RunPosted]) s'"
    and "\<exists>k cs w. fn_for k f \<and> s' = set_ex_state k ExIdle (s\<lparr>posted := fs, service := w, calls := cs\<rparr>)"
proof -
  obtain k where k: "fn_for k f" by (cases f) auto
  then have own: "filter (fn_for k) (posted s) = f # filter (fn_for k) fs" using f by simp
  from posted_waiting [OF ws_inv_conn [OF inv] own] obtain e x h t r where e: "map_of (conns s) k = Some e"
      "entry_executor e = Some x" "entry_hdl e = Some h"
      "get_socket_id E h = k" "wu_max (ex_util x) = 5" "ex_state x = ExWait t" "wu_items (ex_util x) = []"
      "task_ok E k t" "requests E k ls = received k (calls s)" "f = reply_fn t r" "filter (fn_for k) fs = []"
      "replies k (calls s) = sent E k (calls s) @ [r]" .
  have k2: "\<not> fn_for j f" if "j \<noteq> k" for j using e(8,10) that by (simp add: fn_for_reply)
  have "\<exists>cs w. s' = set_ex_state k ExIdle (s\<lparr>posted := fs, service := w, calls := cs\<rparr>)
      \<and> received k cs = received k (calls s) \<and> replies k cs = replies k (calls s)
      \<and> sent E k cs = sent E k (calls s) @ [r]
      \<and> (\<forall>j. j \<noteq> k \<longrightarrow> received j cs = received j (calls s) \<and> replies j cs = replies j (calls s)
            \<and> sent E j cs = sent E j (calls s))"
  proof (cases t)
    case (ReplyTask opc i)
    let ?cs = "calls s @ [Send (Some h) opc r]"
    have "s' = set_ex_state k ExIdle (s\<lparr>posted := fs, service := service s, calls := ?cs\<rparr>)"
      using step ReplyTask e(3,8,10) by (simp add: run_posted_def send_posted_def log_call_def entry_at_Some [OF e(1)])
    then show ?thesis
      using e(4) by (intro exI [of _ ?cs] exI [of _ "service s"]) (simp add: received_def replies_def sent_def)
  next
    case (HttpTask h' i)
    let ?cs = "calls s @ [HttpResponse h' r, OnClose k, Interrupt h']" and ?w = "fst (cb_close E k (service s))"
    have "s' = set_ex_state k ExIdle (s\<lparr>posted := fs, service := ?w, calls := ?cs\<rparr>)"
      using step HttpTask e(8,10) by (simp add: run_posted_def http_posted_def log_call_def call_close_eq)
    then show ?thesis
      using e(8) HttpTask by (intro exI [of _ ?cs] exI [of _ ?w]) (simp add: received_def replies_def sent_def)
  qed
  then obtain cs w where s': "s' = set_ex_state k ExIdle (s\<lparr>posted := fs, service := w, calls := cs\<rparr>)"
    and logs: "received k cs = received k (calls s)" "replies k cs = replies k (calls s)"
      "sent E k cs = sent E k (calls s) @ [r]"
      "\<And>j. j \<noteq> k \<Longrightarrow> received j cs = received j (calls s) \<and> replies j cs = replies j (calls s)
            \<and> sent E j cs = sent E j (calls s)" by blast
  have ss: "map_of (conns s') = (map_of (conns s))(k \<mapsto> e\<lparr>entry_executor := Some (x\<lparr>ex_state := ExIdle\<rparr>)\<rparr>)"
      "posted s' = fs" "io s' = IoFree" "calls s' = cs"
    using e(1,2) free by (simp_all add: s' set_ex_state_def Let_def entry_at_def)
  show "ws_inv E (ls @ [RunPosted]) s'"
  proof (rule ws_inv_step [OF inv, of k])
    show "conn_inv E k (map_of (conns s') k) (filter (fn_for k) (posted s')) (requests E k (ls @ [RunPosted])) (calls s')"
      using e logs by (simp add: ss conn_inv_def phase_ok_def requests_def)
  qed (use logs(4) k2 in \<open>auto simp: ss f same_for_def requests_def io_ok_def\<close>)
  show "\<exists>k cs w. fn_for k f \<and> s' = set_ex_state k ExIdle (s\<lparr>posted := fs, service := w, calls := cs\<rparr>)"
    using s' k by blast
qed

lemma ws_inv_ws_step:
  assumes inv: "ws_inv E ls s" and ok: "allowed E l s" and step: "ws_step E l s = Some (Return s')"
  shows "ws_inv E (ls @ [l]) s'"
proof (cases l)
  case (Event ev)
  then show ?thesis using inv_event [OF inv _ _ , of ev s'] ok step by (auto simp: ws_step_def split: if_splits)
next
  case RunPosted
  then show ?thesis
    using inv_posted(1) [OF inv, of _ _ s'] step by (auto simp: ws_step_def split: if_splits list.splits)
next
  case Resume
  then show ?thesis using inv_resume [OF inv] step by (simp add: ws_step_def)
next
  case (Take k)
  then show ?thesis
    using step inv_take [OF inv] inv_dying [OF inv] by (cases k) (auto simp: ws_step_def bind_eq_Some_conv)
next
  case (Run k)
  then show ?thesis
    using step inv_run [OF inv] dying_blocked [OF inv] by (cases k) (auto simp: ws_step_def bind_eq_Some_conv)
next
  case (Post k)
  then show ?thesis
    using step inv_post [OF inv] dying_blocked [OF inv] by (cases k) (auto simp: ws_step_def bind_eq_Some_conv)
next
  case (Expire k)
  then show ?thesis using ok by (simp add: allowed_def)
qed

lemma polite_inv: "polite E n w ls s \<Longrightarrow> ws_inv E ls s"
  by (induction rule: polite.induct) (auto intro: ws_inv_init ws_inv_ws_step)

text \<open>C6: As long as every client waits for the response before it sends the next request or closes the
  connection, the server keeps requests and responses of a connection in order, under every
  interleaving of the threads: the service receives exactly the requests of the connection, in
  order and unmixed with others, except for at most the last one; and every answer of the service
  is sent on the connection of its request, in order, except for at most the last one.\<close>

theorem polite_requests_answered:
  assumes "polite E n w ls s"
  shows "\<exists>p q. requests E k ls = received k (calls s) @ p \<and> replies k (calls s) = sent E k (calls s) @ q
    \<and> length p + length q \<le> 1"
proof -
  have inv: "conn_inv E k (map_of (conns s) k) (filter (fn_for k) (posted s)) (requests E k ls) (calls s)"
    by (rule ws_inv_conn [OF polite_inv [OF assms]])
  show ?thesis
  proof (cases "map_of (conns s) k")
    case None
    then show ?thesis using inv by (simp add: conn_inv_def)
  next
    case (Some e)
    with inv obtain x where "phase_ok E k e x (filter (fn_for k) (posted s)) (requests E k ls) (calls s)"
      by (auto simp: conn_inv_def)
    then show ?thesis by (cases "ex_state x") (auto simp: phase_ok_def)
  qed
qed

section \<open>Examples\<close>

fun allowed_run :: "'w ws_env \<Rightarrow> label list \<Rightarrow> 'w ws_server \<Rightarrow> bool" where
  "allowed_run E [] s \<longleftrightarrow> True"
| "allowed_run E (l # ls) s \<longleftrightarrow>
     allowed E l s \<and> (case ws_step E l s of Some (Return s1) \<Rightarrow> allowed_run E ls s1 | _ \<Rightarrow> False)"

lemma polite_run:
  assumes "polite E n w tr s" and "allowed_run E ls s" and "ws_run E ls s = Some (Return s')"
  shows "polite E n w (tr @ ls) s'"
  using assms
proof (induction ls arbitrary: tr s)
  case (Cons l ls)
  then obtain s1 where s1: "ws_step E l s = Some (Return s1)" "ws_run E ls s1 = Some (Return s')"
    by (auto split: option.splits outcome.splits)
  then have "polite E n w (tr @ [l]) s1" using Cons.prems polite_step by auto
  from Cons.IH [OF this _ s1(2)] show ?case using Cons.prems(2) s1(1) by simp
qed simp

definition demo_ws :: "nat ws_env" where
  "demo_ws = \<lparr>get_socket_id = of_nat, con_open = (\<lambda>_. True), host_matches = (\<lambda>_. True),
     cb_receive = (\<lambda>i m w. (w + 1, Return (CHR ''r'' # m))),
     cb_accept = (\<lambda>i w. (w, None)), cb_close = (\<lambda>i w. (w, None))\<rparr>"

definition demo_trace :: "label list" where
  "demo_trace = [Event (Open 1), Event (Open 2), Event (Message 1 2 ''a''), Take (Conn 1), Run (Conn 1), Post (Conn 1),
     Event (Message 2 2 ''b''), RunPosted, Event (Message 1 2 ''c''), Take (Conn 1), Take (Conn 2)]"

definition demo_server :: "nat ws_server" where
  "demo_server =
     (case ws_run demo_ws demo_trace (ws_init 5 0) of Some (Return s) \<Rightarrow> s | _ \<Rightarrow> ws_init 5 0)"

lemma demo_polite: "polite demo_ws 5 0 demo_trace demo_server"
proof -
  have "allowed_run demo_ws demo_trace (ws_init 5 0)" by code_simp
  moreover have "ws_run demo_ws demo_trace (ws_init 5 0) = Some (Return demo_server)" by code_simp
  ultimately show ?thesis using polite_run [OF polite_init, of demo_ws demo_trace 5 0 demo_server] by simp
qed

theorem polite_requests_answered_witness:
  "\<exists>p q. requests demo_ws 1 demo_trace = received 1 (calls demo_server) @ p
     \<and> replies 1 (calls demo_server) = sent demo_ws 1 (calls demo_server) @ q \<and> length p + length q \<le> 1"
  by (rule polite_requests_answered [OF demo_polite])

end
