(* ===== verification/Websocket_Liveness.thy ===== *)
theory Websocket_Liveness
  imports Websocket_Server
begin

text \<open>
  \<^verbatim>\<open>src/src/websocket_server.cpp\<close>, continued: that requests are completed. The contract with the service is the
  locale \<open>callback_contract\<close>. The last sections are about clients that do not wait for their responses, or
  disconnect too early, and make the server hang.
\<close>

section \<open>Every request is answered\<close>

lemma ws_run_append:
  "ws_run E (ls @ ms) s = (case ws_run E ls s of Some (Return s1) \<Rightarrow> ws_run E ms s1 | r \<Rightarrow> r)"
  by (induction ls arbitrary: s) (auto split: option.splits outcome.splits)

text \<open>Steps of the threads of the server, as opposed to events from outside.\<close>

definition internal :: "label \<Rightarrow> bool" where
  "internal l \<longleftrightarrow> (case l of Event ev \<Rightarrow> False | Expire k \<Rightarrow> False | _ \<Rightarrow> True)"

lemma internal_allowed: "internal l \<Longrightarrow> allowed E l s"
  by (cases l) (simp_all add: internal_def allowed_def)

lemma internal_requests [simp]: "internal l \<Longrightarrow> requests E k [l] = []"
  by (cases l) (simp_all add: internal_def requests_def)

lemma requests_internal: "\<forall>l \<in> set ms. internal l \<Longrightarrow> requests E k (ls @ ms) = requests E k ls"
proof (induction ms arbitrary: ls)
  case (Cons m ms)
  then show ?case using Cons.IH [of "ls @ [m]"] by simp
qed simp

lemma ws_inv_run:
  assumes "ws_inv E ls s" and "\<forall>l \<in> set ms. internal l" and "ws_run E ms s = Some (Return s')"
  shows "ws_inv E (ls @ ms) s'"
  using assms
proof (induction ms arbitrary: ls s)
  case (Cons m ms)
  then obtain s1 where s1: "ws_step E m s = Some (Return s1)" "ws_run E ms s1 = Some (Return s')"
    by (auto split: option.splits outcome.splits)
  have "ws_inv E (ls @ [m]) s1"
    by (rule ws_inv_ws_step [OF Cons.prems(1) _ s1(1)]) (use Cons.prems(2) internal_allowed in auto)
  from Cons.IH [OF this _ s1(2)] Cons.prems(2) show ?case by simp
qed simp

text \<open>Posted functions only wake executors.\<close>

definition woken :: "'w ws_server \<Rightarrow> 'w ws_server \<Rightarrow> bool" where
  "woken s s' \<longleftrightarrow> (\<forall>k x. executor_of (Conn k) s = Some x \<longrightarrow>
     (\<exists>x'. executor_of (Conn k) s' = Some x' \<and> ex_util x' = ex_util x \<and> (ex_state x' = ex_state x \<or> ex_state x' = ExIdle)))"

lemma woken_trans: "woken s t \<Longrightarrow> woken t u \<Longrightarrow> woken s u"
  unfolding woken_def by metis

lemma woken_set_ex_state: "woken s (set_ex_state k ExIdle (s\<lparr>posted := fs, service := w, calls := cs\<rparr>))"
  by (simp add: woken_def set_ex_state_def executor_of_def Let_def)

lemma drain_posted:
  assumes "ws_inv E ls s" and "io s = IoFree"
  shows "\<exists>s'. ws_run E (replicate (length (posted s)) RunPosted) s = Some (Return s') \<and> posted s' = [] \<and> woken s s'"
  using assms
proof (induction "posted s" arbitrary: ls s)
  case Nil
  then show ?case by (simp add: woken_def)
next
  case (Cons f fs)
  have f: "posted s = f # fs" using Cons.hyps(2) by simp
  obtain k where k: "fn_for k f" by (cases f) auto
  then have "filter (fn_for k) (posted s) = f # filter (fn_for k) fs" using f by simp
  from posted_waiting [OF ws_inv_conn [OF Cons.prems(1)] this] obtain t r where "f = reply_fn t r" .
  then obtain s1 where s1: "run_posted E f (s\<lparr>posted := fs\<rparr>) = Return s1" by (cases t) (auto simp: run_posted_def)
  note inv = inv_posted [OF Cons.prems f s1]
  then have p: "posted s1 = fs" "io s1 = IoFree"
    using Cons.prems(2) by (auto simp: set_ex_state_def Let_def)
  have "woken s s1" using inv(2) by (auto simp: woken_set_ex_state)
  with Cons.hyps(1) [OF p(1) [symmetric] inv(1) p(2)] show ?case
    using f s1 p Cons.prems(2) by (auto simp: ws_step_def intro: woken_trans)
qed

lemma free_io:
  assumes inv: "ws_inv E ls s"
  shows "\<exists>ms s'. (\<forall>l \<in> set ms. internal l) \<and> length ms \<le> 2 \<and> ws_run E ms s = Some (Return s')
    \<and> io s' = IoFree \<and> conns s' = conns s \<and> posted s' = posted s"
proof (cases "io s")
  case IoFree
  then show ?thesis by (intro exI [of _ "[]"]) simp
next
  case (IoPush k t)
  then show ?thesis using inv by (simp add: ws_inv_def io_ok_def)
next
  case (IoDestroy st x xs)
  have x: "st" "xs = []" "ex_state x = ExDone \<or> ex_state x = ExIdle \<and> wu_items (ex_util x) = [last_item]"
    using inv IoDestroy by (auto simp: ws_inv_def io_ok_def)
  from x(3) show ?thesis
  proof
    assume "ex_state x = ExDone"
    then show ?thesis using IoDestroy x(1,2)
      by (intro exI [of _ "[Resume]"]) (simp add: internal_def ws_step_def step_resume_def destroy_executors_def)
  next
    assume "ex_state x = ExIdle \<and> wu_items (ex_util x) = [last_item]"
    then show ?thesis using IoDestroy x(1,2)
      by (intro exI [of _ "[Take Dying, Resume]"])
        (simp add: internal_def ws_step_def step_resume_def destroy_executors_def executor_of_def step_take_def
          take_item_Cons last_item_def put_executor_def)
  qed
qed

text \<open>The steps of an executor until its request is answered or posted.\<close>

definition busy :: "executor \<Rightarrow> bool" where
  "busy x \<longleftrightarrow> \<not> quiet x \<and> (\<forall>t. ex_state x \<noteq> ExWait t)"

definition next_label :: "u32 \<Rightarrow> executor \<Rightarrow> label" where
  "next_label k x = (case ex_state x of ExTask t \<Rightarrow> Run (Conn k) | ExReply t r \<Rightarrow> Post (Conn k) | _ \<Rightarrow> Take (Conn k))"

definition left :: "executor \<Rightarrow> nat" where
  "left x = (case ex_state x of ExTask t \<Rightarrow> 2 | ExReply t r \<Rightarrow> 1 | ExIdle \<Rightarrow> 3 | _ \<Rightarrow> 0)"

lemma executor_step:
  assumes inv: "ws_inv E ls s" and x: "executor_of (Conn k) s = Some x" "busy x" and free: "io s = IoFree"
    and recv: "\<And>m. snd (cb_receive E k m (service s)) \<noteq> Undefined"
  shows "\<exists>s' x'. ws_step E (next_label k x) s = Some (Return s') \<and> executor_of (Conn k) s' = Some x'
    \<and> io s' = IoFree \<and> length (posted s') \<le> length (posted s) + (if left x = 1 then 1 else 0)
    \<and> (busy x' \<longrightarrow> left x' < left x)"
proof -
  from executor_of_Conn [OF inv x(1)] obtain e h where e: "map_of (conns s) k = Some e" "entry_executor e = Some x"
    "entry_hdl e = Some h" "get_socket_id E h = k" "wu_max (ex_util x) = 5"
    "phase_ok E k e x (filter (fn_for k) (posted s)) (requests E k ls) (calls s)" .
  note defs = ws_step_def next_label_def executor_of_def left_def put_executor_def x(1) [unfolded executor_of_def who.case]
    entry_at_Some [OF e(1)] e(2)
  show ?thesis
  proof (cases "ex_state x")
    case ExIdle
    with e(6) x(2) obtain t where t: "wu_items (ex_util x) = [work t]" by (auto simp: phase_ok_def busy_def quiet_def)
    then show ?thesis
      using ExIdle free by (simp add: defs step_take_def take_item_Cons work_def)
  next
    case (ExTask t)
    with e(6) have "task_socket t = k" by (auto simp: phase_ok_def task_socket_ok)
    moreover obtain w' r where "cb_receive E k (buffer e) (service s) = (w', r)" by fastforce
    ultimately show ?thesis
      using ExTask free e(6) recv [of "buffer e"]
      by (cases r) (simp_all add: defs step_run_def Let_def phase_ok_def busy_def quiet_def)
  next
    case (ExReply t r)
    then show ?thesis using free by (simp add: defs step_post_def busy_def)
  qed (use x(2) e(6) in \<open>auto simp: busy_def phase_ok_def\<close>)
qed

lemma internal_next: "internal (next_label k x)"
  by (cases "ex_state x") (simp_all add: internal_def next_label_def)

lemma executor_of_conns: "conns s' = conns s \<Longrightarrow> executor_of (Conn k) s' = executor_of (Conn k) s"
  by (simp add: executor_of_def entry_at_def)

lemma left_le: "left x \<le> 3"
  by (cases "ex_state x") (simp_all add: left_def)

subsection \<open>What the server relies on\<close>

text \<open>Every result in the trace was computed by the service in a state with the property \<open>ok\<close>.\<close>

definition call_ok :: "'w ws_env \<Rightarrow> ('w \<Rightarrow> bool) \<Rightarrow> ws_call \<Rightarrow> bool" where
  "call_ok E ok c \<longleftrightarrow> (case c of Receive k m r \<Rightarrow> \<exists>w. ok w \<and> snd (cb_receive E k m w) = r | _ \<Rightarrow> True)"

definition server_ok :: "'w ws_env \<Rightarrow> ('w \<Rightarrow> bool) \<Rightarrow> 'w ws_server \<Rightarrow> bool" where
  "server_ok E ok s \<longleftrightarrow> ok (service s) \<and> list_all (call_ok E ok) (calls s)"

lemma server_ok_frame [simp]:
  "server_ok E ok (s\<lparr>io := i\<rparr>) = server_ok E ok s" "server_ok E ok (s\<lparr>posted := p\<rparr>) = server_ok E ok s"
  "server_ok E ok (s\<lparr>conns := c\<rparr>) = server_ok E ok s" "server_ok E ok (put_entry k e s) = server_ok E ok s"
  "server_ok E ok (put_executor q x s) = server_ok E ok s" "server_ok E ok (set_ex_state k st s) = server_ok E ok s"
  by (auto simp: server_ok_def put_entry_def put_executor_def set_ex_state_def Let_def split: who.splits io_state.splits)

lemma server_ok_log [simp]: "server_ok E ok (log_call c s) \<longleftrightarrow> server_ok E ok s \<and> call_ok E ok c"
  by (auto simp: server_ok_def log_call_def)

lemma destroy_ok: "destroy_executors xs s = Return s' \<Longrightarrow> server_ok E ok s \<Longrightarrow> server_ok E ok s'"
  by (auto simp: destroy_executors_def stop_executor_def split: list.splits option.splits)

lemma push_ok: "push_task k t s = Return s' \<Longrightarrow> server_ok E ok s \<Longrightarrow> server_ok E ok s'"
  by (auto simp: push_task_def Let_def split: option.splits)

lemma erase_ok: "erase_conn k s = Return s' \<Longrightarrow> server_ok E ok s \<Longrightarrow> server_ok E ok s'"
  by (auto simp: erase_conn_def dest: destroy_ok split: option.splits)

lemma add_ok: "add_connection F h s = Return s' \<Longrightarrow> server_ok E ok s \<Longrightarrow> server_ok E ok s'"
  by (auto simp: add_connection_def Let_def dest: destroy_ok)

text \<open>The contract between the server and the service: the callbacks keep a property of the state of the service, under
  which \<open>receive\<close> has defined behaviour.\<close>

locale callback_contract =
  fixes E :: "'w ws_env" and ok :: "'w \<Rightarrow> bool"
  assumes receive_ok: "ok w \<Longrightarrow> ok (fst (cb_receive E k m w))"
    and receive_defined: "ok w \<Longrightarrow> snd (cb_receive E k m w) \<noteq> Undefined"
    and accept_ok: "ok w \<Longrightarrow> ok (fst (cb_accept E k w))"
    and close_ok: "ok w \<Longrightarrow> ok (fst (cb_close E k w))"
begin

lemma receive_here: "server_ok E ok s \<Longrightarrow> snd (cb_receive E k m (service s)) \<noteq> Undefined"
  by (simp add: server_ok_def receive_defined)

lemma call_accept_ok: "server_ok E ok s \<Longrightarrow> server_ok E ok (fst (call_accept E k s))"
  by (simp add: server_ok_def call_accept_eq call_ok_def log_call_def accept_ok)

lemma call_close_ok: "server_ok E ok s \<Longrightarrow> server_ok E ok (fst (call_close E k s))"
  by (simp add: server_ok_def call_close_eq call_ok_def log_call_def close_ok)

lemma event_ok:
  assumes "ws_handle E ev s = Return s'" and s: "server_ok E ok s"
  shows "server_ok E ok s'"
proof (cases ev)
  case (Message h opc msg)
  then show ?thesis
    using assms by (auto simp: ws_handle_def message_handler_def send_response_def Let_def split: if_splits dest: push_ok)
next
  case (Open h)
  then show ?thesis
    using assms by (auto simp: ws_handle_def open_handler_def dest: add_ok intro: call_accept_ok)
next
  case (Close h)
  then show ?thesis
    using assms call_close_ok [OF s, of "get_socket_id E h"]
    by (auto simp: ws_handle_def close_handler_def dest: erase_ok split: prod.splits option.splits)
next
  case (HttpRequest h body)
  let ?k = "get_socket_id E h"
  show ?thesis
  proof (cases "map_of (conns s) ?k = None")
    case True
    then obtain s1 where s1: "add_connection E h s = Return s1"
      using assms(1) HttpRequest by (auto simp: ws_handle_def http_handler_def Let_def)
    obtain s2 e where s2: "call_accept E ?k s1 = (s2, e)" by fastforce
    then have "server_ok E ok s2" using call_accept_ok [OF add_ok [OF s1 s], of ?k] by simp
    then show ?thesis
      using assms(1) HttpRequest True s1 s2
      by (cases e) (auto simp: ws_handle_def http_handler_def Let_def dest: push_ok)
  qed (use assms HttpRequest in \<open>auto simp: ws_handle_def http_handler_def Let_def\<close>)
qed (use assms in \<open>auto simp: ws_handle_def tcp_pre_init_handler_def interrupt_handler_def dest: erase_ok\<close>)

lemma posted_ok:
  assumes "run_posted E f s = Return s'" and s: "server_ok E ok s"
  shows "server_ok E ok s'"
proof (cases f)
  case (SendReply k opc r)
  then show ?thesis using assms by (auto simp: run_posted_def send_posted_def call_ok_def)
next
  case (SendHttp h k r)
  have "server_ok E ok (log_call (HttpResponse h r) s)" using s by (simp add: call_ok_def)
  from call_close_ok [OF this] show ?thesis
    using assms(1) SendHttp by (auto simp: run_posted_def http_posted_def call_ok_def)
next
  case CloseAll
  have "server_ok E ok (s\<lparr>calls := calls s @ map CloseCon cs, conns := []\<rparr>)" for cs
    using s by (auto simp: server_ok_def call_ok_def list_all_iff)
  from destroy_ok [OF _ this] show ?thesis using assms(1) CloseAll by (simp add: run_posted_def close_all_def)
qed

lemma run_task_ok:
  assumes "step_run E k x s = Some (Return s')" and s: "server_ok E ok s"
  shows "server_ok E ok s'"
proof (cases "ex_state x")
  case (ExTask t)
  let ?e = "entry_at (task_socket t) s"
  obtain w r where r: "cb_receive E (task_socket t) (buffer ?e) (service s) = (w, r)" by fastforce
  have w: "ok (service s)" "ok w" using receive_ok [of "service s" "task_socket t" "buffer ?e"] s r by (auto simp: server_ok_def)
  then have "call_ok E ok (Receive (task_socket t) (buffer ?e) r)"
    using r by (auto simp: call_ok_def intro!: exI [of _ "service s"])
  then have "server_ok E ok ((log_call (Receive (task_socket t) (buffer ?e) r) (put_entry (task_socket t) ?e s))\<lparr>service := w\<rparr>)"
    using s w by (simp add: server_ok_def log_call_def)
  then show ?thesis using assms(1) ExTask r by (cases r) (auto simp: step_run_def Let_def)
qed (use assms in \<open>auto simp: step_run_def\<close>)

lemma step_ok:
  assumes "ws_step E l s = Some (Return s')" and s: "server_ok E ok s"
  shows "server_ok E ok s'"
proof (cases l)
  case (Event ev)
  then show ?thesis using assms by (auto simp: ws_step_def intro: event_ok split: if_splits)
next
  case RunPosted
  then show ?thesis
    using assms by (auto simp: ws_step_def split: if_splits list.splits intro: posted_ok [of _ "s\<lparr>posted := p\<rparr>" for p])
next
  case Resume
  then show ?thesis
    using assms
    by (auto simp: ws_step_def step_resume_def stop_executor_def split: io_state.splits if_splits option.splits bool.splits
        dest: push_ok destroy_ok)
next
  case (Take k)
  then show ?thesis using assms by (auto simp: ws_step_def bind_eq_Some_conv step_take_def split: if_splits)
next
  case (Run k)
  then show ?thesis using assms by (auto simp: ws_step_def bind_eq_Some_conv intro: run_task_ok)
next
  case (Post k)
  with assms(1) obtain x where x: "step_post k x s = Some (Return s')" by (auto simp: ws_step_def bind_eq_Some_conv)
  then show ?thesis using s by (cases "ex_state x") (auto simp: step_post_def)
next
  case (Expire k)
  then show ?thesis using assms by (auto simp: ws_step_def bind_eq_Some_conv step_expire_def split: if_splits)
qed

lemma run_ok: "ws_run E ls s = Some (Return s') \<Longrightarrow> server_ok E ok s \<Longrightarrow> server_ok E ok s'"
  by (induction ls arbitrary: s) (auto split: option.splits outcome.splits dest: step_ok)

lemma polite_ok: "polite E n w ls s \<Longrightarrow> ok w \<Longrightarrow> server_ok E ok s"
proof (induction rule: polite.induct)
  case polite_init
  then show ?case by (simp add: server_ok_def ws_init_def)
qed (blast intro: step_ok)

text \<open>The server never gets stuck on clients that wait for their responses: at most seven steps of its own threads, and
  one for every function that is already posted, complete the request of a connection.\<close>

lemma executor_runs:
  assumes "ws_inv E ls s" and "executor_of (Conn k) s = Some x" and "io s = IoFree" and "server_ok E ok s"
  shows "\<exists>ms s' x'. (\<forall>l \<in> set ms. internal l) \<and> length ms \<le> Suc (left x) \<and> ws_run E ms s = Some (Return s')
    \<and> io s' = IoFree \<and> executor_of (Conn k) s' = Some x' \<and> \<not> busy x'
    \<and> length (posted s') \<le> length (posted s) + (if 0 < left x then 1 else 0)"
  using assms
proof (induction "left x" arbitrary: ls s x rule: less_induct)
  case less
  show ?case
  proof (cases "busy x")
    case False
    then show ?thesis using less.prems by (intro exI [of _ "[]"] exI [of _ s] exI [of _ x]) simp
  next
    case True
    from executor_step [OF less.prems(1,2) True less.prems(3) receive_here [OF less.prems(4)]] obtain s1 x1 where
      s1: "ws_step E (next_label k x) s = Some (Return s1)" "executor_of (Conn k) s1 = Some x1" "io s1 = IoFree"
        "length (posted s1) \<le> length (posted s) + (if left x = 1 then 1 else 0)" "busy x1 \<Longrightarrow> left x1 < left x"
      by blast
    have ok1: "server_ok E ok s1" by (rule step_ok [OF s1(1) less.prems(4)])
    have inv1: "ws_inv E (ls @ [next_label k x]) s1"
      by (rule ws_inv_ws_step [OF less.prems(1) internal_allowed [OF internal_next] s1(1)])
    show ?thesis
    proof (cases "busy x1")
      case False
      then show ?thesis
        using s1 internal_next [of k x]
        by (intro exI [of _ "[next_label k x]"] exI [of _ s1] exI [of _ x1]) (auto split: if_splits)
    next
      case True
      from less.hyps [OF s1(5) [OF True] inv1 s1(2,3) ok1] obtain ms s' x' where
        ms: "\<forall>l \<in> set ms. internal l" "length ms \<le> Suc (left x1)" "ws_run E ms s1 = Some (Return s')" "io s' = IoFree"
          "executor_of (Conn k) s' = Some x'" "\<not> busy x'"
          "length (posted s') \<le> length (posted s1) + (if 0 < left x1 then 1 else 0)" by blast
      have "length (posted s') \<le> length (posted s) + (if 0 < left x then 1 else 0)"
        using ms(7) s1(4) s1(5) [OF True] by (auto split: if_splits)
      then show ?thesis
        using s1 ms internal_next [of k x] s1(5) [OF True]
        by (intro exI [of _ "next_label k x # ms"] exI [of _ s'] exI [of _ x']) auto
    qed
  qed
qed

lemma request_completes:
  assumes run: "polite E n w ls s" and conn: "map_of (conns s) k \<noteq> None" and w: "ok w"
  shows "\<exists>ms s'. (\<forall>l \<in> set ms. internal l) \<and> length ms \<le> length (posted s) + 7
    \<and> ws_run E ms s = Some (Return s') \<and> conn_quiet k s'
    \<and> received k (calls s') = requests E k ls \<and> sent E k (calls s') = replies k (calls s') \<and> server_ok E ok s'"
proof -
  note inv = polite_inv [OF run]
  from free_io [OF inv] obtain m1 s1 where m1: "\<forall>l \<in> set m1. internal l" "length m1 \<le> 2"
    "ws_run E m1 s = Some (Return s1)" "io s1 = IoFree" "conns s1 = conns s" "posted s1 = posted s" by blast
  note inv1 = ws_inv_run [OF inv m1(1,3)]
  note ok1 = run_ok [OF m1(3) polite_ok [OF run w]]
  obtain x where "executor_of (Conn k) s = Some x"
    using ws_inv_conn [OF inv, of k] conn by (auto simp: conn_inv_def executor_of_def entry_at_def)
  then have x: "executor_of (Conn k) s1 = Some x" by (simp add: executor_of_conns [OF m1(5)])
  from executor_runs [OF inv1 x m1(4) ok1] obtain m2 s2 x2 where m2: "\<forall>l \<in> set m2. internal l"
    "length m2 \<le> Suc (left x)" "ws_run E m2 s1 = Some (Return s2)" "io s2 = IoFree"
    "executor_of (Conn k) s2 = Some x2" "\<not> busy x2" "length (posted s2) \<le> length (posted s1) + (if 0 < left x then 1 else 0)"
    by blast
  note inv2 = ws_inv_run [OF inv1 m2(1,3)]
  define m3 where "m3 = replicate (length (posted s2)) RunPosted"
  from drain_posted [OF inv2 m2(4)] obtain s3 where
    s3: "ws_run E m3 s2 = Some (Return s3)" "posted s3 = []" "woken s2 s3" by (auto simp: m3_def)
  have m3: "\<forall>l \<in> set m3. internal l" by (simp add: m3_def internal_def)
  note inv3 = ws_inv_run [OF inv2 m3 s3(1)]
  from s3(3) m2(5) obtain x3 where x3: "executor_of (Conn k) s3 = Some x3" "ex_util x3 = ex_util x2"
    "ex_state x3 = ex_state x2 \<or> ex_state x3 = ExIdle" unfolding woken_def by blast
  have st: "ex_state x2 = ExIdle \<or> (\<exists>t. ex_state x2 = ExWait t)" "wu_items (ex_util x2) = []"
    using executor_phase [OF inv2 m2(5)] m2(6) by (auto simp: busy_def quiet_def phase_ok_def)
  moreover have "\<forall>t. ex_state x3 \<noteq> ExWait t"
    using executor_phase [OF inv3 x3(1)] s3(2) by (auto simp: phase_ok_def)
  ultimately have q: "conn_quiet k s3" using x3 by (auto simp: conn_quiet_def quiet_def)
  have ms: "\<forall>l \<in> set (m1 @ m2 @ m3). internal l" using m1(1) m2(1) m3 by auto
  have "length (m1 @ m2 @ m3) \<le> length (posted s) + 7"
    using m1(2,6) m2(2,7) left_le [of x] by (auto simp: m3_def split: if_splits)
  moreover have "ws_run E (m1 @ m2 @ m3) s = Some (Return s3)"
    using m1(3) m2(3) s3(1) by (simp add: ws_run_append)
  moreover have "requests E k (((ls @ m1) @ m2) @ m3) = requests E k ls"
    using requests_internal [OF ms, of E k ls] by simp
  moreover have "replies k (calls s3) = sent E k (calls s3)" "requests E k (((ls @ m1) @ m2) @ m3) = received k (calls s3)"
    by (rule conn_quiet_entry [OF inv3 q], assumption)+
  ultimately show ?thesis
    using ms q run_ok [OF s3(1) run_ok [OF m2(3) ok1]] by (intro exI [of _ "m1 @ m2 @ m3"] exI [of _ s3]) simp
qed

end

section \<open>Clients that do not wait\<close>

text \<open>The thread of the \<open>IOService\<close> joins an executor that is working on a request.\<close>

definition hung :: "'w ws_server \<Rightarrow> bool" where
  "hung s \<longleftrightarrow> (case io s of
     IoDestroy st x xs \<Rightarrow> (case ex_state x of ExTask t \<Rightarrow> True | ExReply t r \<Rightarrow> True | ExWait t \<Rightarrow> True | _ \<Rightarrow> False)
   | _ \<Rightarrow> False)"

lemma hung_io: "hung s \<Longrightarrow> io s' = io s \<Longrightarrow> hung s'"
  by (simp add: hung_def)

lemma io_put_executor: "io (put_executor (Conn k) x s) = io s"
  by (simp add: put_executor_def)

lemma hung_step:
  assumes "hung s" and "\<And>i m w. \<exists>r. snd (cb_receive E i m w) = Return r"
    and "ws_step E l s = Some (Return s')"
  shows "hung s'"
proof -
  obtain st x xs where io: "io s = IoDestroy st x xs"
    and x: "(\<exists>t. ex_state x = ExTask t) \<or> (\<exists>t r. ex_state x = ExReply t r) \<or> (\<exists>t. ex_state x = ExWait t)"
    using assms(1) by (auto simp: hung_def split: io_state.splits ex_state.splits)
  show ?thesis
  proof (cases l)
    case Resume
    then show ?thesis
      using assms(3) io x
      by (cases st) (auto simp: ws_step_def step_resume_def stop_executor_def hung_def split: if_splits option.splits)
  next
    case (Take k)
    then show ?thesis
      using assms(1,3) io x
      by (cases k) (auto simp: ws_step_def bind_eq_Some_conv step_take_def executor_of_def io_put_executor
          intro: hung_io split: if_splits)
  next
    case (Run k)
    from assms(3) Run obtain y where y1: "executor_of k s = Some y" "step_run E k y s = Some (Return s')"
      by (auto simp: ws_step_def bind_eq_Some_conv)
    then obtain t where y: "executor_of k s = Some y" "ex_state y = ExTask t"
      by (cases "ex_state y") (simp_all add: step_run_def)
    obtain w r where "cb_receive E (task_socket t) (buffer (entry_at (task_socket t) s)) (service s) = (w, Return r)"
      using assms(2) [of "task_socket t" "buffer (entry_at (task_socket t) s)" "service s"] by (metis prod.collapse)
    then show ?thesis
      using assms(1,3) io Run y
      by (cases k) (auto simp: ws_step_def executor_of_def step_run_def Let_def put_executor_def hung_def)
  next
    case (Post k)
    then show ?thesis
      using assms(1,3) io x
      by (cases k) (auto simp: ws_step_def bind_eq_Some_conv step_post_def executor_of_def io_put_executor
          put_executor_def hung_def split: ex_state.splits)
  next
    case (Expire k)
    then show ?thesis
      using assms(1,3) io x
      by (cases k) (auto simp: ws_step_def bind_eq_Some_conv step_expire_def executor_of_def io_put_executor
          intro: hung_io split: if_splits)
  qed (use assms(3) io in \<open>auto simp: ws_step_def split: list.splits\<close>)
qed

lemma hung_run:
  assumes "hung s" and "\<And>i m w. \<exists>r. snd (cb_receive E i m w) = Return r" and "ws_run E ls s = Some (Return s')"
  shows "hung s'"
  using assms(1,3)
proof (induction ls arbitrary: s)
  case (Cons l ls)
  then obtain s1 where "ws_step E l s = Some (Return s1)" "ws_run E ls s1 = Some (Return s')"
    by (auto split: option.splits outcome.splits)
  then show ?case using Cons hung_step [OF Cons.prems(1) assms(2)] by blast
qed simp

text \<open>C37: When a connection is closed while its request is in progress, the server hangs: the close handler
  joins the executor, which waits for a function that the same thread would have to run. In no
  continuation does the thread of the \<open>IOService\<close> become free again, so no further message of any
  client is handled and no posted response is sent.\<close>

theorem close_during_request_hangs:
  assumes free: "io s = IoFree" and x: "executor_of (Conn (get_socket_id E h)) s = Some x"
    and busy: "(\<exists>t. ex_state x = ExTask t) \<or> (\<exists>t r. ex_state x = ExReply t r) \<or> (\<exists>t. ex_state x = ExWait t)"
    and close: "snd (cb_close E (get_socket_id E h) (service s)) = None"
    and recv: "\<And>i m w. \<exists>r. snd (cb_receive E i m w) = Return r"
    and run: "ws_run E (Event (Close h) # ls) s = Some (Return s')"
  shows "io s' \<noteq> IoFree \<and> ws_step E (Event ev) s' = None \<and> ws_step E RunPosted s' = None"
proof -
  from run obtain s1 where s1: "ws_handle E (Close h) s = Return s1" "ws_run E ls s1 = Some (Return s')"
    using free by (auto simp: ws_step_def split: option.splits outcome.splits)
  let ?k = "get_socket_id E h"
  obtain e where e: "map_of (conns s) ?k = Some e" "entry_executor e = Some x"
    using x by (cases "map_of (conns s) ?k") (auto simp: executor_of_def entry_at_def default_entry_def)
  have "hung s1"
    using s1(1) e close busy
    by (auto simp: ws_handle_def close_handler_def call_close_eq erase_conn_def executors_one destroy_executors_def
        stop_executor_def hung_def split: option.splits)
  from hung_run [OF this recv s1(2)] have "io s' \<noteq> IoFree" by (auto simp: hung_def)
  then show ?thesis by (simp add: ws_step_def split: list.splits)
qed

section \<open>Examples\<close>

text \<open>One connection whose client closes it after the executor has taken the request.\<close>

definition demo_busy :: "nat ws_server" where
  "demo_busy =
     (case ws_run demo_ws [Event (Open 1), Event (Message 1 2 ''a''), Take (Conn 1)] (ws_init 5 0) of
        Some (Return s) \<Rightarrow> s | _ \<Rightarrow> ws_init 5 0)"

definition demo_hung :: "nat ws_server" where
  "demo_hung =
     (case ws_run demo_ws [Event (Close 1), Run Dying, Post Dying] demo_busy of
        Some (Return s) \<Rightarrow> s | _ \<Rightarrow> ws_init 5 0)"

theorem close_during_request_hangs_witness:
  "io demo_hung \<noteq> IoFree \<and> ws_step demo_ws (Event (Open 2)) demo_hung = None
     \<and> ws_step demo_ws RunPosted demo_hung = None"
proof (rule close_during_request_hangs [where s = demo_busy and h = 1 and ls = "[Run Dying, Post Dying]"
      and x = "\<lparr>ex_util = worker_util_new None 5, ex_state = ExTask (ReplyTask 2 1)\<rparr>"])
  show "io demo_busy = IoFree" by code_simp
  show "executor_of (Conn (get_socket_id demo_ws 1)) demo_busy =
      Some \<lparr>ex_util = worker_util_new None 5, ex_state = ExTask (ReplyTask 2 1)\<rparr>" by code_simp
  show "ws_run demo_ws [Event (Close 1), Run Dying, Post Dying] demo_busy = Some (Return demo_hung)" by code_simp
qed (simp_all add: demo_ws_def)

text \<open>A client that does not wait for its responses: two requests share one buffer, so the second one is
  answered twice and the first one never; and seven requests in a row fill the queue, so that the
  thread of the \<open>IOService\<close> waits for the executor, which waits for it: no thread can go on.\<close>

lemma pipelined_request_lost:
  "case ws_run demo_ws [Event (Open 1), Event (Message 1 2 ''a''), Event (Message 1 2 ''b''), Take (Conn 1), Run (Conn 1),
      Post (Conn 1), RunPosted, Take (Conn 1), Run (Conn 1), Post (Conn 1), RunPosted] (ws_init 5 0) of
     Some (Return s) \<Rightarrow> received 1 (calls s) = [''b'', ''b''] \<and> sent demo_ws 1 (calls s) = [''rb'', ''rb'']
   | _ \<Rightarrow> False"
  by code_simp

definition demo_full :: "nat ws_server" where
  "demo_full =
     (case ws_run demo_ws ([Event (Open 1), Event (Message 1 2 ''a''), Take (Conn 1)]
        @ replicate 6 (Event (Message 1 2 ''b'')) @ [Run (Conn 1), Post (Conn 1)]) (ws_init 5 0) of
        Some (Return s) \<Rightarrow> s | _ \<Rightarrow> ws_init 5 0)"

lemma pipelined_requests_hang: "ws_step demo_ws l demo_full = None"
proof -
  have io: "io demo_full = IoPush 1 (ReplyTask 2 1)" by code_simp
  have keys: "map fst (conns demo_full) = [1]" by code_simp
  have x: "map_option ex_state (executor_of (Conn 1) demo_full) = Some (ExWait (ReplyTask 2 1))" by code_simp
  have blocked: "step_resume demo_full = None" by code_simp
  have dying: "executor_of Dying demo_full = None" by (simp add: executor_of_def io)
  have ex: "ex_state y = ExWait (ReplyTask 2 1)" if y: "executor_of k demo_full = Some y" for k y
  proof (cases k)
    case (Conn i)
    show ?thesis
    proof (cases "i = 1")
      case False
      have "i \<notin> fst ` set (conns demo_full)" unfolding image_set keys using False by simp
      then have "map_of (conns demo_full) i = None" by (simp add: map_of_eq_None_iff)
      then show ?thesis using Conn y by (simp add: executor_of_def entry_at_def default_entry_def)
    qed (use x Conn y in simp)
  qed (use dying y in simp)
  have wait: "Option.bind (executor_of k demo_full) f = None"
    if "\<And>y. ex_state y = ExWait (ReplyTask 2 1) \<Longrightarrow> f y = None" for k and f :: "executor \<Rightarrow> nat ws_server outcome option"
    using ex that by (cases "executor_of k demo_full") auto
  show ?thesis
    using io blocked
    by (cases l) (auto simp: ws_step_def step_take_def step_run_def step_post_def step_expire_def
        intro: wait split: list.splits)
qed

end
