(* ===== verification/Service_Server.thy ===== *)
theory Service_Server
  imports Websocket_Liveness Instrumentation_Service
begin

text \<open>
  \<^verbatim>\<open>src/src/instrumentation_service.cpp\<close>, the constructor: the service installs its functions as the callbacks of the
  WebSocket server. Here both are put together.

  The worker thread of the service runs between the calls of the server. How many steps it makes before each callback
  is a list of numbers, over which the theorems quantify; the state of the callbacks is that list and the
  state of the service.
\<close>

section \<open>The callbacks\<close>

type_synonym ('h, 'w) ws_world = "nat list \<times> ('h, 'w) service"

definition worker_ahead :: "(ISArg, 'h, 'w) interp \<Rightarrow> nat \<Rightarrow> ('h, 'w) service \<Rightarrow> ('h, 'w) service" where
  "worker_ahead call n m = (case worker_run call n m of Return m1 \<Rightarrow> m1 | _ \<Rightarrow> m)"

definition steps_now :: "nat list \<Rightarrow> nat" where
  "steps_now ns = (case ns of [] \<Rightarrow> 0 | n # _ \<Rightarrow> n)"

text \<open>\<open>on_accept\<close> and \<open>on_close\<close> wait for the worker: it makes as many steps as there are commands, and one more for the
  command that it is executing, which is enough by \<open>builtin_command_completes\<close>.\<close>

definition await_builtin :: "(ISArg, 'h, 'w) interp \<Rightarrow> ('h, 'w) service \<times> cmd_ptr \<Rightarrow> ('h, 'w) service" where
  "await_builtin call r = (case r of (m, p) \<Rightarrow> worker_ahead call (Suc (length (work_queue m))) m)"

definition receive_cb ::
  "service_lib \<Rightarrow> (ISArg, 'h, 'w) interp \<Rightarrow> u32 \<Rightarrow> string \<Rightarrow> ('h, 'w) ws_world \<Rightarrow> ('h, 'w) ws_world \<times> string outcome"
where
  "receive_cb S call k msg w =
     (case w of (ns, m) \<Rightarrow>
        (case on_receive_bytes (sv_pack S) (sv_serialize S) (sv_to_json S) (sv_parse S) (sv_json S) (sv_poll_args S)
                (Some (\<lambda>m. (m, Return []))) (\<lambda>m. m) k (to_bytes msg) (worker_ahead call (steps_now ns) m) of
           (m1, r) \<Rightarrow> ((tl ns, m1), obind r (\<lambda>b. Return (to_string b)))))"

definition accept_cb ::
  "(ISArg, 'h, 'w) interp \<Rightarrow> ISArg \<Rightarrow> u32 \<Rightarrow> ('h, 'w) ws_world \<Rightarrow> ('h, 'w) ws_world \<times> exn option"
where
  "accept_cb call dflt k w =
     (case w of (ns, m) \<Rightarrow> ((tl ns, await_builtin call (on_accept dflt k (worker_ahead call (steps_now ns) m))), None))"

definition close_cb ::
  "(ISArg, 'h, 'w) interp \<Rightarrow> ISArg \<Rightarrow> u32 \<Rightarrow> ('h, 'w) ws_world \<Rightarrow> ('h, 'w) ws_world \<times> exn option"
where
  "close_cb call dflt k w =
     (case w of (ns, m) \<Rightarrow> ((tl ns, await_builtin call (on_close dflt k (worker_ahead call (steps_now ns) m))), None))"

text \<open>The functions of the WebSocket library are those of \<open>L\<close>.\<close>

definition service_env ::
  "'v ws_env \<Rightarrow> service_lib \<Rightarrow> (ISArg, 'h, 'w) interp \<Rightarrow> ISArg \<Rightarrow> ('h, 'w) ws_world ws_env"
where
  "service_env L S call dflt =
     \<lparr>get_socket_id = get_socket_id L, con_open = con_open L, host_matches = host_matches L,
      cb_receive = receive_cb S call, cb_accept = accept_cb call dflt, cb_close = close_cb call dflt\<rparr>"

section \<open>The contract\<close>

definition service_reachable :: "(ISArg, 'h, 'w) interp \<Rightarrow> 'w \<Rightarrow> ('h, 'w) ws_world \<Rightarrow> bool" where
  "service_reachable call w0 w \<longleftrightarrow> (\<exists>ps. cm_exec call (cm_init w0) ps (snd w))"

lemma worker_run_reachable:
  "worker_run call n m = Return m1 \<Longrightarrow> cm_exec call m0 ps m \<Longrightarrow> \<exists>qs. cm_exec call m0 qs m1"
proof (induction n arbitrary: m ps)
  case (Suc n)
  show ?case
  proof (cases "worker_step call m")
    case (Some r)
    with Suc.prems(1) obtain m2 where m2: "worker_step call m = Some (Return m2)" "worker_run call n m2 = Return m1"
      by auto
    from Suc.IH [OF m2(2) exec_step [OF Suc.prems(2) step_worker [OF m2(1)]]] show ?thesis .
  qed (use Suc.prems in auto)
qed auto

lemma worker_ahead_reachable:
  assumes "cm_exec call m0 ps m"
  shows "\<exists>qs. cm_exec call m0 qs (worker_ahead call n m)"
  using worker_run_reachable [OF _ assms] assms by (auto simp: worker_ahead_def split: outcome.splits)

lemma await_builtin_reachable:
  assumes "cm_exec call m0 ps m" and "cm_step call m (fst r)"
  shows "\<exists>qs. cm_exec call m0 qs (await_builtin call r)"
  using worker_ahead_reachable [OF exec_step [OF assms]] by (cases r) (simp add: await_builtin_def)

lemma receive_cb_reachable:
  assumes "service_reachable call w0 w"
  shows "service_reachable call w0 (fst (receive_cb S call k msg w))" and "snd (receive_cb S call k msg w) \<noteq> Undefined"
    and "(\<And>x. sv_pack S x \<noteq> None) \<Longrightarrow> (\<And>R. sv_serialize S R \<noteq> None) \<Longrightarrow> \<exists>resp. snd (receive_cb S call k msg w) = Return resp"
proof -
  obtain ns m where w: "w = (ns, m)" by fastforce
  obtain ps where ps: "cm_exec call (cm_init w0) ps (worker_ahead call (steps_now ns) m)"
    using assms worker_ahead_reachable unfolding service_reachable_def w by fastforce
  have sd: "\<forall>f m. Some (\<lambda>m. (m, Return [])) = Some f \<longrightarrow> (\<exists>t. f m = (m :: ('a, 'b) service, Return t))" by auto
  from receive_reachable [OF ps sd, where pack = "sv_pack S" and ser = "sv_serialize S" and to_json = "sv_to_json S"
      and parse_cmd = "sv_parse S" and json_cmd = "sv_json S" and unpack_poll = "sv_poll_args S"
      and socket_id = k and bytes = "to_bytes msg"]
  obtain m1 r qs where r: "on_receive_bytes (sv_pack S) (sv_serialize S) (sv_to_json S) (sv_parse S) (sv_json S) (sv_poll_args S)
      (Some (\<lambda>m. (m, Return []))) (\<lambda>m. m) k (to_bytes msg) (worker_ahead call (steps_now ns) m) = (m1, r)"
    "cm_exec call (cm_init w0) qs m1" "r \<noteq> Undefined"
    "(\<forall>x. sv_pack S x \<noteq> None) \<and> (\<forall>R. sv_serialize S R \<noteq> None) \<longrightarrow> (\<exists>out. r = Return out)"
    by blast
  show "service_reachable call w0 (fst (receive_cb S call k msg w))"
    using r(1,2) by (auto simp: receive_cb_def w service_reachable_def)
  show "snd (receive_cb S call k msg w) \<noteq> Undefined"
    using r(1,3) by (cases r) (auto simp: receive_cb_def w)
  show "\<exists>resp. snd (receive_cb S call k msg w) = Return resp"
    if "\<And>x. sv_pack S x \<noteq> None" "\<And>R. sv_serialize S R \<noteq> None"
    using r(1,4) that by (auto simp: receive_cb_def w)
qed

lemma accept_close_reachable:
  assumes "service_reachable call w0 w"
  shows "service_reachable call w0 (fst (accept_cb call dflt k w))" "service_reachable call w0 (fst (close_cb call dflt k w))"
proof -
  obtain ns m where w: "w = (ns, m)" by fastforce
  let ?m = "worker_ahead call (steps_now ns) m"
  obtain ps where ps: "cm_exec call (cm_init w0) ps ?m"
    using assms worker_ahead_reachable unfolding service_reachable_def w by fastforce
  have "cm_step call ?m (fst (on_accept dflt k ?m))"
    by (rule on_accept_step [of _ _ _ _ "snd (on_accept dflt k ?m)"]) simp
  from await_builtin_reachable [OF ps this] show "service_reachable call w0 (fst (accept_cb call dflt k w))"
    by (simp add: accept_cb_def w service_reachable_def)
  have "cm_step call ?m (fst (on_close dflt k ?m))"
    by (rule step_destroy [of dflt "sock_queue k" _ _ "snd (on_close dflt k ?m)"]) (simp add: on_close_def)
  from await_builtin_reachable [OF ps this] show "service_reachable call w0 (fst (close_cb call dflt k w))"
    by (simp add: close_cb_def w service_reachable_def)
qed

lemma service_env_simps [simp]:
  "get_socket_id (service_env L S call dflt) = get_socket_id L" "cb_receive (service_env L S call dflt) = receive_cb S call"
  "cb_accept (service_env L S call dflt) = accept_cb call dflt" "cb_close (service_env L S call dflt) = close_cb call dflt"
  by (simp_all add: service_env_def)

interpretation service_cb: callback_contract "service_env L S call dflt" "service_reachable call w0"
  for L :: "'v ws_env" and S :: service_lib and call :: "(ISArg, 'h, 'w) interp" and dflt :: ISArg and w0 :: 'w
  by unfold_locales (simp_all add: receive_cb_reachable(1,2) accept_close_reachable)

section \<open>Requests and responses\<close>

text \<open>When the service answers everything, the answers in the trace correspond to the received messages.\<close>

lemma replies_of_received:
  assumes "list_all (call_ok E ok) cs" and "\<And>m w. ok w \<Longrightarrow> \<exists>r. snd (cb_receive E k m w) = Return r"
  shows "list_all2 (\<lambda>m r. \<exists>w. ok w \<and> snd (cb_receive E k m w) = Return r) (received k cs) (replies k cs)"
  using assms(1)
proof (induction cs)
  case (Cons c cs)
  then have IH: "list_all2 (\<lambda>m r. \<exists>w. ok w \<and> snd (cb_receive E k m w) = Return r) (received k cs) (replies k cs)" by simp
  have r: "received k (c # cs) = received k [c] @ received k cs" "replies k (c # cs) = replies k [c] @ replies k cs"
    by (simp_all add: received_def replies_def)
  have "list_all2 (\<lambda>m r. \<exists>w. ok w \<and> snd (cb_receive E k m w) = Return r) (received k [c]) (replies k [c])"
  proof (cases c)
    case (Receive i m res)
    with Cons.prems obtain w where w: "ok w" "snd (cb_receive E i m w) = res" by (auto simp: call_ok_def)
    show ?thesis
    proof (cases "i = k")
      case True
      then obtain r where "res = Return r" using assms(2) [OF w(1), of m] w(2) by auto
      then show ?thesis using Receive True w by (auto simp: received_def replies_def)
    qed (use Receive in \<open>cases res, simp_all add: received_def replies_def\<close>)
  qed (simp_all add: received_def replies_def)
  with IH show ?case unfolding r by (rule list_all2_appendI [rotated])
qed (simp add: received_def replies_def)


definition demo_lib :: service_lib where
  "demo_lib = \<lparr>sv_pack = (\<lambda>_. Some \<lparr>type_url = [], payload = []\<rparr>), sv_serialize = (\<lambda>R. Some [if code R = RESPONSE_OK then 0 else 1]),
     sv_to_json = (\<lambda>_. []), sv_parse = (\<lambda>_. None), sv_json = (\<lambda>_. None),
     sv_poll_args = (\<lambda>_. \<lparr>poll_queue_id = 0, poll_timeout = 0\<rparr>)\<rparr>"

definition demo_events :: "label list" where
  "demo_events = [Event (Open 1), Event (Message 1 2 ''a''), Take (Conn 1)]"


end
