(* ===== verification/Service_Lifetime.thy ===== *)
theory Service_Lifetime
  imports Websocket_Liveness
begin

text \<open>
  \<^verbatim>\<open>src/src/context.cpp\<close>, \<open>make_is_ctx\<close> of \<^verbatim>\<open>src/src/is_context.cpp\<close> and the destructor of
  \<^verbatim>\<open>src/src/instrumentation_service.cpp\<close>: who owns the service, and how it goes away after a shutdown request.

  Three parties take steps: the thread that creates the service and then tells the context what to delete; the thread of the
  context, which waits for the signal, calls the deleter and so runs the destructor of the service; and the threads of the
  WebSocket server. A shutdown request is handled by an executor of the server: the callback sets the signal,
  which \<open>signaled\<close> reads off the state of the service.
\<close>

section \<open>State\<close>

text \<open>The creating thread is about to create the service, to set \<open>data_\<close>, to set \<open>deleter_\<close>, or has returned.\<close>

datatype init_pc = ICreate | IData | IDeleter | IReturned

text \<open>The thread of the context waits for the signal, is about to call the deleter, to join the worker of the
  command manager, to destroy the server, to join the thread of the \<open>IOService\<close>, or has ended.\<close>

datatype ctx_pc = CWait | CDelete | CManager | CMembers | CJoin | CEnded

text \<open>\<open>Terminated\<close>: an empty deleter was called on a detached thread. \<open>Misused\<close>: a destroyed server was used.\<close>

datatype fate = Running | Terminated | Misused

record 'w lifetime =
  lt_init :: init_pc
  lt_ctx :: ctx_pc
  lt_data :: bool
  lt_deleter :: bool
  lt_server :: "'w ws_server option"
  lt_left :: "posted_fn list"
  lt_deletes :: nat
  lt_fate :: fate

definition context_new :: "'w lifetime" where
  "context_new = \<lparr>lt_init = ICreate, lt_ctx = CWait, lt_data = False, lt_deleter = False, lt_server = None,
     lt_left = [], lt_deletes = 0, lt_fate = Running\<rparr>"

section \<open>Steps\<close>

datatype life_label = Init | Ctx | Server label | Stale

text \<open>\<open>make_is_ctx\<close>.\<close>

definition init_step :: "nat \<Rightarrow> 'w \<Rightarrow> 'w lifetime \<Rightarrow> 'w lifetime option" where
  "init_step n w L =
     (case lt_init L of
        ICreate \<Rightarrow> Some (L\<lparr>lt_init := IData, lt_server := Some (ws_init n w)\<rparr>)
      | IData \<Rightarrow> Some (L\<lparr>lt_init := IDeleter, lt_data := True\<rparr>)
      | IDeleter \<Rightarrow> Some (L\<lparr>lt_init := IReturned, lt_deleter := True\<rparr>)
      | IReturned \<Rightarrow> None)"

text \<open>\<open>wait_signal\<close>, the deleter and the destructor of the service: \<open>ws_server_->shutdown()\<close> posts the function that closes
  the connections and does not wait for it; then the worker is joined, and the members are destroyed in the
  reverse order of their declaration, the server before the \<open>IOService\<close>.\<close>

definition ctx_step :: "('w \<Rightarrow> bool) \<Rightarrow> 'w lifetime \<Rightarrow> 'w lifetime option" where
  "ctx_step signaled L =
     (case lt_ctx L of
        CWait \<Rightarrow> (case lt_server L of
            Some s \<Rightarrow> if signaled (service s) then Some (L\<lparr>lt_ctx := CDelete\<rparr>) else None
          | None \<Rightarrow> None)
      | CDelete \<Rightarrow>
          (if lt_deleter L
           then Some (L\<lparr>lt_ctx := CManager, lt_deletes := Suc (lt_deletes L),
                  lt_server := map_option (\<lambda>s. s\<lparr>posted := posted s @ [CloseAll]\<rparr>) (lt_server L)\<rparr>)
           else Some (L\<lparr>lt_ctx := CEnded, lt_fate := Terminated\<rparr>))
      | CManager \<Rightarrow> Some (L\<lparr>lt_ctx := CMembers\<rparr>)
      | CMembers \<Rightarrow>
          Some (L\<lparr>lt_ctx := CJoin, lt_left := (case lt_server L of None \<Rightarrow> [] | Some s \<Rightarrow> posted s), lt_server := None\<rparr>)
      | CJoin \<Rightarrow> (if lt_left L = [] then Some (L\<lparr>lt_ctx := CEnded\<rparr>) else None)
      | CEnded \<Rightarrow> None)"

text \<open>The functions that are left when the server is destroyed are run by the thread of the \<open>IOService\<close>, which is joined
  after that; they refer to the destroyed server.\<close>

definition life_step ::
  "'w ws_env \<Rightarrow> ('w \<Rightarrow> bool) \<Rightarrow> nat \<Rightarrow> 'w \<Rightarrow> life_label \<Rightarrow> 'w lifetime \<Rightarrow> 'w lifetime option"
where
  "life_step E signaled n w l L =
     (if lt_fate L \<noteq> Running then None
      else case l of
        Init \<Rightarrow> init_step n w L
      | Ctx \<Rightarrow> ctx_step signaled L
      | Server a \<Rightarrow>
          Option.bind (lt_server L) (\<lambda>s.
            case ws_step E a s of
              None \<Rightarrow> None
            | Some (Return s1) \<Rightarrow> Some (L\<lparr>lt_server := Some s1\<rparr>)
            | Some r \<Rightarrow> Some (L\<lparr>lt_fate := Misused\<rparr>))
      | Stale \<Rightarrow> (if lt_left L \<noteq> [] then Some (L\<lparr>lt_fate := Misused\<rparr>) else None))"

fun life_run ::
  "'w ws_env \<Rightarrow> ('w \<Rightarrow> bool) \<Rightarrow> nat \<Rightarrow> 'w \<Rightarrow> life_label list \<Rightarrow> 'w lifetime \<Rightarrow> 'w lifetime option"
where
  "life_run E signaled n w [] L = Some L"
| "life_run E signaled n w (l # ls) L = Option.bind (life_step E signaled n w l L) (life_run E signaled n w ls)"

inductive life_reach :: "'w ws_env \<Rightarrow> ('w \<Rightarrow> bool) \<Rightarrow> nat \<Rightarrow> 'w \<Rightarrow> 'w lifetime \<Rightarrow> bool" for E signaled n w where
  life_new: "life_reach E signaled n w context_new"
| life_next: "life_reach E signaled n w L \<Longrightarrow> life_step E signaled n w l L = Some L' \<Longrightarrow> life_reach E signaled n w L'"

section \<open>Invariant\<close>

text \<open>The deleter is set after the data, and the service is deleted at most once, by the thread of the context, and only
  when both are set.\<close>

definition life_ok :: "'w lifetime \<Rightarrow> bool" where
  "life_ok L \<longleftrightarrow> lt_data L = (lt_init L \<noteq> ICreate \<and> lt_init L \<noteq> IData) \<and> lt_deleter L = (lt_init L = IReturned)
     \<and> (lt_init L = ICreate \<longrightarrow> lt_server L = None \<and> lt_ctx L = CWait)
     \<and> (lt_ctx L = CWait \<or> lt_ctx L = CDelete \<longrightarrow> lt_deletes L = 0)
     \<and> lt_deletes L \<le> 1 \<and> (lt_deletes L = 1 \<longrightarrow> lt_init L = IReturned)"

lemma life_ok_fate [simp]: "life_ok (L\<lparr>lt_fate := f\<rparr>) = life_ok L"
  by (simp add: life_ok_def)

lemma life_ok_server: "lt_init L \<noteq> ICreate \<Longrightarrow> life_ok (L\<lparr>lt_server := s\<rparr>) = life_ok L"
  by (simp add: life_ok_def)

lemma init_step_ok: "init_step n w L = Some L' \<Longrightarrow> life_ok L \<Longrightarrow> life_ok L'"
  by (cases "lt_init L") (simp_all add: init_step_def life_ok_def, auto)

lemma ctx_step_ok: "ctx_step signaled L = Some L' \<Longrightarrow> life_ok L \<Longrightarrow> life_ok L'"
  by (cases "lt_ctx L") (auto simp: ctx_step_def life_ok_def split: if_splits option.splits)

lemma life_step_ok:
  assumes "life_step E signaled n w l L = Some L'" and "life_ok L"
  shows "life_ok L'"
proof (cases l)
  case (Server a)
  with assms(1) obtain s r where s: "lt_fate L = Running" "lt_server L = Some s" "ws_step E a s = Some r"
    by (auto simp: life_step_def bind_eq_Some_conv split: if_splits option.splits)
  have "(\<exists>s1. L' = L\<lparr>lt_server := Some s1\<rparr>) \<or> L' = L\<lparr>lt_fate := Misused\<rparr>"
    using assms(1) s Server by (cases r) (auto simp: life_step_def)
  moreover have "lt_init L \<noteq> ICreate" using assms(2) s(2) by (auto simp: life_ok_def)
  ultimately show ?thesis using assms(2) by (elim disjE exE) (simp_all add: life_ok_server)
next
  case Stale
  then have "L' = L\<lparr>lt_fate := Misused\<rparr>" using assms(1) by (simp add: life_step_def split: if_splits)
  then show ?thesis using assms(2) by simp
next
  case Init
  then have "init_step n w L = Some L'" using assms(1) by (simp add: life_step_def split: if_splits)
  then show ?thesis using assms(2) by (rule init_step_ok)
next
  case Ctx
  then have "ctx_step signaled L = Some L'" using assms(1) by (simp add: life_step_def split: if_splits)
  then show ?thesis using assms(2) by (rule ctx_step_ok)
qed

text \<open>The owner of the service deletes it at most once, whatever the threads do: only after it
  was told which service to delete and how.\<close>

lemma service_deleted_once:
  assumes "life_reach E signaled n w L"
  shows "lt_deletes L \<le> 1" and "lt_deletes L = 1 \<Longrightarrow> lt_data L \<and> lt_deleter L"
proof -
  have "life_ok context_new" by (simp add: life_ok_def context_new_def)
  with assms have "life_ok L" by induction (blast intro: life_step_ok)+
  then show "lt_deletes L \<le> 1" "lt_deletes L = 1 \<Longrightarrow> lt_data L \<and> lt_deleter L"
    by (auto simp: life_ok_def)
qed

section \<open>Shutdown requests\<close>

text \<open>An example: the state of the service is the signal, the message \<open>''q''\<close> is the shutdown request.\<close>

definition quit_env :: "bool ws_env" where
  "quit_env = \<lparr>get_socket_id = of_nat, con_open = (\<lambda>_. True), host_matches = (\<lambda>_. True),
     cb_receive = (\<lambda>i m w. (w \<or> m = ''q'', Return [])), cb_accept = (\<lambda>i w. (w, None)), cb_close = (\<lambda>i w. (w, None))\<rparr>"

abbreviation quit_run :: "life_label list \<Rightarrow> bool lifetime option" where
  "quit_run ls \<equiv> life_run quit_env (\<lambda>w. w) 5 False ls context_new"

definition request_quit :: "life_label list" where
  "request_quit = [Server (Event (Open 1)), Server (Event (Message 1 2 ''q'')), Server (Take (Conn 1)), Server (Run (Conn 1))]"

text \<open>The server listens before the context knows the deleter: a shutdown request that arrives in between makes the
  context call an empty function, which ends the process.\<close>

lemma early_shutdown_terminates:
  "map_option lt_fate (quit_run ([Init] @ request_quit @ [Ctx, Ctx])) = Some Terminated"
  by code_simp

text \<open>The destructor does not wait for the function that closes the connections: when the thread of the \<open>IOService\<close> runs it
  late, it works on a destroyed server.\<close>

lemma shutdown_uses_destroyed_server:
  "map_option lt_fate (quit_run ([Init, Init, Init] @ request_quit
     @ [Server (Post (Conn 1)), Server RunPosted, Ctx, Ctx, Ctx, Ctx, Stale])) = Some Misused"
  by code_simp

text \<open>When the connections are closed before the response to the shutdown request has been posted, the thread of the
  \<open>IOService\<close> waits for the executor that handles the request, which waits for this thread: it never becomes free again.\<close>

lemma shutdown_hangs:
  "case quit_run ([Init, Init, Init] @ request_quit @ [Ctx, Ctx, Server RunPosted, Server (Post Dying)]) of
     Some L \<Rightarrow> (case lt_server L of
         Some s \<Rightarrow> hung s \<and> ws_step quit_env RunPosted s = None \<and> ws_step quit_env Resume s = None
       | None \<Rightarrow> False)
   | None \<Rightarrow> False"
  by code_simp

text \<open>In the good order, the response is sent, the connections are closed, and the context ends.\<close>

lemma shutdown_in_order:
  "map_option (\<lambda>L. (lt_ctx L, lt_fate L, lt_deletes L)) (quit_run ([Init, Init, Init] @ request_quit
     @ [Server (Post (Conn 1)), Server RunPosted, Ctx, Ctx, Server RunPosted, Server (Take Dying), Server Resume, Ctx, Ctx, Ctx])) =
   Some (CEnded, Running, 1)"
  by code_simp

end
