(* ===== verification/Io_Service.thy ===== *)
theory Io_Service
  imports Prelude
begin

text \<open>
  \<^verbatim>\<open>src/src/asio_utils.cpp\<close>, \<open>IOService\<close>: the thread that runs posted functions, the call that posts a function and
  waits for it, and the destructor.

  The io context of asio is the queue of posted functions, each with the variable \<open>done\<close> of the call that waits
  for it, here a number. The work guard keeps the thread in \<open>run\<close> while the queue is empty; without the guard \<open>run\<close> returns
  then, and nobody runs what is posted later. \<open>Websocket_Server\<close> has the same queue with the functions of the server,
  which wait for other threads; here a function is a change of the world.
\<close>

section \<open>Operations\<close>

record 'w io_service =
  io_queue :: "(nat option \<times> ('w \<Rightarrow> 'w)) list"
  io_done :: "nat set"
  io_calls :: nat
  io_guard :: bool
  io_exited :: bool
  io_world :: 'w

definition IOService_new :: "'w \<Rightarrow> 'w io_service" where
  "IOService_new w =
     \<lparr>io_queue = [], io_done = {}, io_calls = 0, io_guard = True, io_exited = False, io_world = w\<rparr>"

definition io_do_post :: "nat option \<Rightarrow> ('w \<Rightarrow> 'w) \<Rightarrow> 'w io_service \<Rightarrow> 'w io_service" where
  "io_do_post d fn s = s\<lparr>io_queue := io_queue s @ [(d, fn)]\<rparr>"

text \<open>\<open>post\<close>: the variable that the caller waits for, if it waits.\<close>

definition IOService_post :: "('w \<Rightarrow> 'w) \<Rightarrow> bool \<Rightarrow> 'w io_service \<Rightarrow> 'w io_service \<times> nat option" where
  "IOService_post fn wait s =
     (if wait then ((io_do_post (Some (io_calls s)) fn s)\<lparr>io_calls := Suc (io_calls s)\<rparr>, Some (io_calls s))
      else (io_do_post None fn s, None))"

definition post_returns :: "nat option \<Rightarrow> 'w io_service \<Rightarrow> bool" where
  "post_returns d s = (case d of None \<Rightarrow> True | Some n \<Rightarrow> n \<in> io_done s)"

text \<open>The main thread: one function of \<open>run\<close>, or its return. It is blocked while the queue is empty and the
  guard is there.\<close>

definition io_run :: "'w io_service \<Rightarrow> 'w io_service option" where
  "io_run s =
     (if io_exited s then None
      else case io_queue s of
        (d, fn) # q \<Rightarrow>
          Some (s\<lparr>io_queue := q, io_world := fn (io_world s), io_done := io_done s \<union> set_option d\<rparr>)
      | [] \<Rightarrow> if io_guard s then None else Some (s\<lparr>io_exited := True\<rparr>))"

text \<open>The destructor resets the guard, and joins the main thread.\<close>

definition IOService_reset :: "'w io_service \<Rightarrow> 'w io_service" where
  "IOService_reset s = s\<lparr>io_guard := False\<rparr>"

fun io_run_n :: "nat \<Rightarrow> 'w io_service \<Rightarrow> 'w io_service option" where
  "io_run_n 0 s = Some s"
| "io_run_n (Suc n) s = Option.bind (io_run s) (io_run_n n)"

inductive io_step :: "'w io_service \<Rightarrow> 'w io_service \<Rightarrow> bool" where
  Post: "io_step s (fst (IOService_post fn wait s))"
| Run: "io_run s = Some s' \<Longrightarrow> io_step s s'"
| Reset: "io_step s (IOService_reset s)"

section \<open>Invariant\<close>

text \<open>A call waits for a function that is queued exactly once, or has returned.\<close>

definition waiting :: "'w io_service \<Rightarrow> nat list" where
  "waiting s = List.map_filter fst (io_queue s)"

definition io_wf :: "'w io_service \<Rightarrow> bool" where
  "io_wf s \<longleftrightarrow> distinct (waiting s) \<and> set (waiting s) \<inter> io_done s = {}
     \<and> set (waiting s) \<union> io_done s = {..<io_calls s}"

lemma waiting_simps [simp]:
  "List.map_filter fst (xs @ ys) = List.map_filter fst xs @ List.map_filter fst ys"
  "List.map_filter fst ((d, fn) # xs) = (case d of None \<Rightarrow> [] | Some n \<Rightarrow> [n]) @ List.map_filter fst xs"
  "List.map_filter fst [] = []"
  by (simp_all add: map_filter_def split: option.splits)

lemma io_wf_new: "io_wf (IOService_new w)"
  by (auto simp: io_wf_def IOService_new_def waiting_def)

lemma io_wf_post: "io_wf s \<Longrightarrow> io_wf (fst (IOService_post fn wait s))"
  by (auto simp: io_wf_def IOService_post_def io_do_post_def waiting_def)

lemma io_run_Some:
  assumes "io_run s = Some s'"
  shows "io_queue s = [] \<and> s' = s\<lparr>io_exited := True\<rparr>
    \<or> (\<exists>d fn q. io_queue s = (d, fn) # q
        \<and> s' = s\<lparr>io_queue := q, io_world := fn (io_world s), io_done := io_done s \<union> set_option d\<rparr>)"
  using assms unfolding io_run_def by (fastforce split: if_split_asm list.split_asm prod.split_asm)

lemma io_wf_run:
  assumes "io_wf s" and "io_run s = Some s'"
  shows "io_wf s'"
  using io_run_Some [OF assms(2)]
proof (elim disjE exE conjE)
  assume "s' = s\<lparr>io_exited := True\<rparr>"
  then show ?thesis using assms(1) by (simp add: io_wf_def waiting_def)
next
  fix d fn q
  assume s: "io_queue s = (d, fn) # q"
    "s' = s\<lparr>io_queue := q, io_world := fn (io_world s), io_done := io_done s \<union> set_option d\<rparr>"
  show ?thesis
    unfolding s(2) using assms(1) s(1) by (cases d) (auto simp: io_wf_def waiting_def)
qed

lemma io_wf_reset: "io_wf s \<Longrightarrow> io_wf (IOService_reset s)"
  by (simp add: io_wf_def IOService_reset_def waiting_def)

lemma io_wf_step: "io_step s s' \<Longrightarrow> io_wf s \<Longrightarrow> io_wf s'"
  by (induction rule: io_step.induct) (auto intro: io_wf_post io_wf_run io_wf_reset)

lemma io_wf_reachable: "io_step\<^sup>*\<^sup>* (IOService_new w) s \<Longrightarrow> io_wf s"
  by (induction rule: rtranclp_induct) (auto intro: io_wf_new io_wf_step)

section \<open>Properties\<close>

text \<open>The functions run in the order in which they were posted.\<close>

lemma io_run_n_prefix:
  assumes "io_queue s = xs @ ys" and "\<not> io_exited s"
  shows "io_run_n (length xs) s =
    Some (s\<lparr>io_queue := ys, io_world := fold snd xs (io_world s), io_done := io_done s \<union> set (List.map_filter fst xs)\<rparr>)"
  using assms
proof (induction xs arbitrary: s)
  case (Cons x xs)
  obtain d fn where x: "x = (d, fn)" by (cases x)
  let ?s = "s\<lparr>io_queue := xs @ ys, io_world := fn (io_world s), io_done := io_done s \<union> set_option d\<rparr>"
  have "io_run s = Some ?s" using Cons.prems x by (simp add: io_run_def)
  then show ?case using Cons.IH [of ?s] Cons.prems x by (cases d) (simp_all add: Un_assoc)
qed simp

text \<open>A call of \<open>post\<close> that waits does not return before its function has run, and returns after the functions that were
  posted earlier and its own have run, each once and in order.\<close>

lemma post_wait_returns:
  assumes "io_step\<^sup>*\<^sup>* (IOService_new w) s" and "\<not> io_exited s" and "IOService_post fn True s = (s1, d)"
  shows "\<not> post_returns d s1"
    and "\<exists>s2. io_run_n (Suc (length (io_queue s))) s1 = Some s2 \<and> post_returns d s2
      \<and> io_world s2 = fn (fold snd (io_queue s) (io_world s))"
    and "k \<le> length (io_queue s) \<Longrightarrow> io_run_n k s1 = Some s3 \<Longrightarrow> \<not> post_returns d s3"
proof -
  have s1: "s1 = s\<lparr>io_queue := io_queue s @ [(Some (io_calls s), fn)], io_calls := Suc (io_calls s)\<rparr>" "d = Some (io_calls s)"
    using assms(3) by (auto simp: IOService_post_def io_do_post_def)
  have wf: "set (List.map_filter fst (io_queue s)) \<union> io_done s = {..<io_calls s}"
    using io_wf_reachable [OF assms(1)] by (simp add: io_wf_def waiting_def)
  then have new: "io_calls s \<notin> io_done s" "io_calls s \<notin> set (List.map_filter fst (io_queue s))" by auto
  show "\<not> post_returns d s1" using new s1 by (simp add: post_returns_def)
  show "\<exists>s2. io_run_n (Suc (length (io_queue s))) s1 = Some s2 \<and> post_returns d s2
      \<and> io_world s2 = fn (fold snd (io_queue s) (io_world s))"
    using io_run_n_prefix [of s1 "io_queue s @ [(Some (io_calls s), fn)]" "[]"] assms(2) s1
    by (simp add: post_returns_def del: io_run_n.simps)
  assume k: "k \<le> length (io_queue s)" "io_run_n k s1 = Some s3"
  let ?xs = "take k (io_queue s)"
  have "io_run_n (length ?xs) s1 = Some (s1\<lparr>io_queue := drop k (io_queue s) @ [(Some (io_calls s), fn)],
      io_world := fold snd ?xs (io_world s1), io_done := io_done s1 \<union> set (List.map_filter fst ?xs)\<rparr>)"
    by (rule io_run_n_prefix) (use assms(2) s1 in simp_all)
  moreover have "set (List.map_filter fst ?xs) \<subseteq> set (List.map_filter fst (io_queue s))"
    by (metis append_take_drop_id set_append sup_ge1 waiting_simps(1))
  moreover have "length ?xs = k" using k(1) by simp
  ultimately show "\<not> post_returns d s3" using k(2) new s1 by (auto simp: post_returns_def)
qed

lemma io_run_n_snoc: "io_run_n (Suc n) s = Option.bind (io_run_n n s) io_run"
proof (induction n arbitrary: s)
  case 0
  show ?case by (cases "io_run s") simp_all
next
  case (Suc n)
  then show ?case by (cases "io_run s") simp_all
qed

text \<open>The destructor returns: the main thread runs what is queued and then ends.\<close>

lemma destructor_joins:
  assumes "\<not> io_exited s"
  shows "\<exists>s'. io_run_n (Suc (length (io_queue s))) (IOService_reset s) = Some s' \<and> io_exited s' \<and> io_queue s' = []
    \<and> io_world s' = fold snd (io_queue s) (io_world s)"
proof -
  let ?n = "length (io_queue s)" and ?r = "IOService_reset s"
  show ?thesis
    using io_run_n_prefix [of ?r "io_queue s" "[]"] assms
    by (simp add: io_run_n_snoc IOService_reset_def io_run_def del: io_run_n.simps)
qed

text \<open>A call that waits after the main thread has ended waits for ever.\<close>

lemma exited_stays:
  assumes "io_step s s'" and "io_exited s"
  shows "io_exited s' \<and> io_done s' = io_done s"
  using assms
  by (induction rule: io_step.induct) (auto simp: IOService_post_def io_do_post_def IOService_reset_def io_run_def)

lemma post_after_exit_hangs:
  assumes "io_step\<^sup>*\<^sup>* (IOService_new w) s" and "io_exited s" and "IOService_post fn True s = (s1, d)"
    and "io_step\<^sup>*\<^sup>* s1 s2"
  shows "\<not> post_returns d s2"
proof -
  have s1: "io_exited s1" "io_done s1 = io_done s" "d = Some (io_calls s)"
    using assms(2,3) by (auto simp: IOService_post_def io_do_post_def)
  have "io_exited s2 \<and> io_done s2 = io_done s1"
    using assms(4) s1(1) by (induction rule: rtranclp_induct) (auto dest: exited_stays)
  moreover have "io_calls s \<notin> io_done s"
    using io_wf_reachable [OF assms(1)] by (auto simp: io_wf_def)
  ultimately show ?thesis using s1 by (simp add: post_returns_def)
qed

end
