(* ===== verification/Client.thy ===== *)
theory Client
  imports Instrumentation_Service
begin

text \<open>
  \<^verbatim>\<open>src/src/async_map.hpp\<close>, \<^verbatim>\<open>src/src/instrumentation_client.cpp\<close>, \<^verbatim>\<open>src/src/websocket_connection.cpp\<close>,
  \<^verbatim>\<open>src/src/client_connection.cpp\<close> and \<^verbatim>\<open>src/src/client_utils.hpp\<close>: the client side of the protocol.

  A connection is a record of its operations on a state \<open>'c\<close> (the virtual functions of
  \<open>ClientConnection\<close>); the WebSocket connection is one instance. The messages of the protocol
  buffer library and its functions are a record of parameters.
\<close>

section \<open>AsyncMap\<close>

record ('k, 'v) async_map =
  am_data :: "'k \<rightharpoonup> 'v"

definition am_new :: "('k, 'v) async_map" where
  "am_new = \<lparr>am_data = Map.empty\<rparr>"

definition am_put :: "u64 \<Rightarrow> 'v \<Rightarrow> (u64, 'v) async_map \<Rightarrow> (u64, 'v) async_map \<times> unit outcome" where
  "am_put key t m =
     (if am_data m key = None then (m\<lparr>am_data := (am_data m)(key \<mapsto> t)\<rparr>, Return ())
      else (m, Raise (runtime_error (''key exists: '' @ show_nat (unat key)))))"

text \<open>\<open>wait_until\<close> examines the condition at once and after each notification; \<open>sched\<close> lists the map
  at these moments, until the timeout. The result is the map after the wait and whether the
  condition held. \<open>show_seconds\<close> is \<open>std::to_string\<close> of the timeout.\<close>

fun am_wait :: "'k \<Rightarrow> ('k, 'v) async_map list \<Rightarrow> ('k, 'v) async_map \<Rightarrow> ('k, 'v) async_map \<times> bool" where
  "am_wait key [] m = (m, am_data m key \<noteq> None)"
| "am_wait key (s # ss) m = (if am_data m key \<noteq> None then (m, True) else am_wait key ss s)"

definition am_get ::
  "(duration_t \<Rightarrow> string) \<Rightarrow> ('k, 'v) async_map list \<Rightarrow> 'k \<Rightarrow> duration_t \<Rightarrow> ('k, 'v) async_map
     \<Rightarrow> ('k, 'v) async_map \<times> 'v outcome"
where
  "am_get show_seconds sched key timeout m =
     (if timeout > 0
      then (case am_wait key sched m of
              (m1, True) \<Rightarrow> (m1, map_at (am_data m1) key)
            | (m1, False) \<Rightarrow> (m1, Raise (runtime_error (''timeout after '' @ show_seconds timeout @ ''ms''))))
      else (m, map_at (am_data m) key))"

definition am_erase :: "'k \<Rightarrow> ('k, 'v) async_map \<Rightarrow> ('k, 'v) async_map" where
  "am_erase key m = m\<lparr>am_data := (am_data m)(key := None)\<rparr>"

definition am_size :: "('k, 'v) async_map \<Rightarrow> nat" where
  "am_size m = card (dom (am_data m))"

definition am_empty :: "('k, 'v) async_map \<Rightarrow> bool" where
  "am_empty m \<longleftrightarrow> am_size m = 0"

section \<open>Connections\<close>

datatype State = NONE | CONNECTING | OPEN | CLOSING | CLOSED

fun state_code :: "State \<Rightarrow> nat" where
  "state_code NONE = 0"
| "state_code CONNECTING = 1"
| "state_code OPEN = 2"
| "state_code CLOSING = 3"
| "state_code CLOSED = 4"

record 'c connection =
  conn_connect :: "'c \<Rightarrow> 'c \<times> unit outcome"
  conn_send :: "vecu8 \<Rightarrow> 'c \<Rightarrow> 'c \<times> unit outcome"
  conn_read :: "'c \<Rightarrow> 'c \<times> vecu8 outcome"
  conn_stop :: "'c \<Rightarrow> 'c"

text \<open>The WebSocket connection: the queue of received messages, the state, what the library is asked to
  send, and, for what the other side does, the state that the handshake ends in, the errors of the
  successive sends, and the messages that arrive during each successive wait.\<close>

record ws_connection =
  in_q :: "vecu8 list async_queue"
  wc_state :: State
  wc_sent :: "vecu8 list"
  wc_handshake :: State
  wc_errors :: "string option list"
  wc_arrivals :: "vecu8 list list"

definition WEBSOCKET_READ_TIMEOUT :: duration_t where
  "WEBSOCKET_READ_TIMEOUT = 5"

definition ws_deliver :: "vecu8 \<Rightarrow> ws_connection \<Rightarrow> ws_connection" where
  "ws_deliver bytes c =
     (case aq_push std_queue_ops [] bytes (in_q c) of
        Some (Return q) \<Rightarrow> c\<lparr>in_q := q\<rparr>
      | _ \<Rightarrow> c)"

text \<open>\<open>stop\<close> wakes the reader with an empty message.\<close>

definition ws_stop :: "ws_connection \<Rightarrow> ws_connection" where
  "ws_stop c = ws_deliver [] c"

text \<open>\<open>connect\<close> waits until a handler has stored \<open>OPEN\<close> or \<open>CLOSED\<close>; the handler of a failed handshake
  also stops the reader.\<close>

definition ws_connect :: "ws_connection \<Rightarrow> ws_connection \<times> unit outcome" where
  "ws_connect c =
     (let c1 = c\<lparr>wc_state := CONNECTING\<rparr>;
          c2 = (if wc_handshake c = OPEN then c1\<lparr>wc_state := OPEN\<rparr> else (ws_stop c1)\<lparr>wc_state := CLOSED\<rparr>)
      in if wc_state c2 = OPEN then (c2, Return ())
         else (c2, Raise (runtime_error (''failed to open connection, state={}'' @ show_nat (state_code (wc_state c2))))))"

definition ws_send :: "vecu8 \<Rightarrow> ws_connection \<Rightarrow> ws_connection \<times> unit outcome" where
  "ws_send bytes c =
     (let c1 = c\<lparr>wc_errors := tl (wc_errors c)\<rparr>
      in case wc_errors c of
           Some ec # _ \<Rightarrow> (c1, Raise (runtime_error (''failed to send data: '' @ ec)))
         | _ \<Rightarrow> (c1\<lparr>wc_sent := wc_sent c @ [bytes]\<rparr>, Return ()))"

text \<open>\<open>read_data\<close>: a timeout gives an empty vector, and \<open>at(0)\<close> of it throws.\<close>

definition read_error :: "string \<Rightarrow> exn" where
  "read_error m = runtime_error (''failed to read data (likely connection closed): '' @ m)"

definition ws_read :: "ws_connection \<Rightarrow> ws_connection \<times> vecu8 outcome" where
  "ws_read c =
     (let waits = aq_q (in_q c) = [];
          c1 = (if waits then c\<lparr>wc_arrivals := tl (wc_arrivals c)\<rparr> else c);
          sched = (if waits then take 1 (wc_arrivals c) else [])
      in case aq_pop std_queue_ops 1 WEBSOCKET_READ_TIMEOUT None sched (in_q c) of
           Some (Return (x # xs, q)) \<Rightarrow> (c1\<lparr>in_q := q\<rparr>, Return x)
         | Some (Return ([], q)) \<Rightarrow> (c1\<lparr>in_q := q\<rparr>, Raise (read_error ''vector::_M_range_check''))
         | Some (Raise e) \<Rightarrow> (c1, Raise (read_error (what e)))
         | _ \<Rightarrow> (c1, Undefined))"

definition websocket :: "ws_connection connection" where
  "websocket = \<lparr>conn_connect = ws_connect, conn_send = ws_send, conn_read = ws_read, conn_stop = ws_stop\<rparr>"

section \<open>InstrumentationClient\<close>

text \<open>What the client uses of the protocol buffer library. \<open>pb_poll_cmd\<close> is the poll command with its
  optional arguments, \<open>pb_system_state\<close> the command \<open>GetSystemState\<close>.\<close>

record 'm client_lib =
  pb_pack :: "'m \<Rightarrow> any option"
  pb_poll_cmd :: "poll_args option \<Rightarrow> 'm"
  pb_system_state :: 'm
  pb_serialize :: "proto_command \<Rightarrow> vecu8 option"
  pb_parse :: "vecu8 \<Rightarrow> Response option"
  pb_ack :: "any \<Rightarrow> (u64 \<times> u64) option"
  pb_results :: "any \<Rightarrow> cmd_result list option"
  pb_text :: "any \<Rightarrow> string option"
  pb_pack_result :: "cmd_result \<Rightarrow> any option"
  pb_system_error :: "string \<Rightarrow> exn"

definition client_send_message ::
  "'m client_lib \<Rightarrow> 'c connection \<Rightarrow> vecu8 \<Rightarrow> 'c \<Rightarrow> 'c \<times> Response outcome"
where
  "client_send_message P C bytes c =
     sbind (conn_send C bytes c) (\<lambda>_ c1.
       sbind (conn_read C c1) (\<lambda>resp c2.
         (c2, if resp = [] then Raise (runtime_error ''empty response, likely connection closed'')
              else case pb_parse P resp of
                     Some R \<Rightarrow> Return R
                   | None \<Rightarrow> Raise (runtime_error (''failed to parse response, size='' @ show_nat (length resp))))))"

definition client_send_command ::
  "'m client_lib \<Rightarrow> 'c connection \<Rightarrow> 'm \<Rightarrow> proto_command_type \<Rightarrow> 'c \<Rightarrow> 'c \<times> Response outcome"
where
  "client_send_command P C cmd t c =
     (case obind (create_command (pb_pack P) cmd t) (to_vecu8 (pb_serialize P) (\<lambda>_. ''ra2yrproto.Command'')) of
        Return bytes \<Rightarrow> client_send_message P C bytes c
      | Raise e \<Rightarrow> (c, Raise e)
      | Undefined \<Rightarrow> (c, Undefined))"

text \<open>The timeout, in seconds, is truncated to an integer.\<close>

definition poll_blocking ::
  "'m client_lib \<Rightarrow> 'c connection \<Rightarrow> duration_t \<Rightarrow> u64 \<Rightarrow> 'c \<Rightarrow> 'c \<times> cmd_result list outcome"
where
  "poll_blocking P C timeout qid c =
     (let args = (if qid < - 1
                  then Some \<lparr>poll_queue_id = qid, poll_timeout = ucast (of_int \<lfloor>timeout\<rfloor> :: u64)\<rparr> else None)
      in sbind (client_send_command P C (pb_poll_cmd P args) POLL_BLOCKING c) (\<lambda>resp c1.
           (c1, if code resp = RESPONSE_ERROR
                then obind (from_any (pb_text P) ''ra2yrproto.TextResponse'' (body resp))
                       (\<lambda>msg. Raise (pb_system_error P msg))
                else from_any (pb_results P) ''ra2yrproto.PollResults'' (body resp))))"

section \<open>Helpers of the tests and the command line\<close>

text \<open>\<open>poll_until\<close>: at most four tries; when all fail, the result has no entries.\<close>

fun poll_tries ::
  "'m client_lib \<Rightarrow> 'c connection \<Rightarrow> duration_t \<Rightarrow> nat \<Rightarrow> 'c \<Rightarrow> 'c \<times> cmd_result list outcome"
where
  "poll_tries P C timeout 0 c = (c, Return [])"
| "poll_tries P C timeout (Suc n) c =
     (case poll_blocking P C timeout 0 c of
        (c1, Return rs) \<Rightarrow> (c1, Return rs)
      | (c1, Raise e) \<Rightarrow> poll_tries P C timeout n c1
      | (c1, Undefined) \<Rightarrow> (c1, Undefined))"

definition poll_until ::
  "'m client_lib \<Rightarrow> 'c connection \<Rightarrow> duration_t \<Rightarrow> 'c \<Rightarrow> 'c \<times> cmd_result list outcome"
where
  "poll_until P C timeout c = poll_tries P C timeout 4 c"

definition default_result :: cmd_result where
  "default_result =
     \<lparr>command_id = 0, res_message = \<lparr>type_url = [], payload = []\<rparr>, res_code = RESPONSE_OK, res_error = []\<rparr>"

text \<open>\<open>run_one\<close> returns the first result of the poll, whatever its id.\<close>

definition run_one ::
  "'m client_lib \<Rightarrow> (Response \<Rightarrow> string) \<Rightarrow> 'c connection \<Rightarrow> 'm \<Rightarrow> duration_t \<Rightarrow> 'c \<Rightarrow> 'c \<times> cmd_result outcome"
where
  "run_one P to_json C cmd timeout c =
     sbind (client_send_command P C cmd CLIENT_COMMAND c) (\<lambda>ack c1.
       if code ack = RESPONSE_ERROR then (c1, Raise (runtime_error (''ACK '' @ to_json ack)))
       else sbind (poll_until P C timeout c1) (\<lambda>rs c2.
              (c2, Return (case rs of [] \<Rightarrow> default_result | r # _ \<Rightarrow> r))))"

section \<open>Lemmas\<close>

lemma am_put_get:
  assumes "am_data m key = None"
  shows "\<exists>m'. am_put key t m = (m', Return ()) \<and> am_data m' key = Some t
    \<and> (\<forall>k. k \<noteq> key \<longrightarrow> am_data m' k = am_data m k)"
  using assms by (simp add: am_put_def)

text \<open>\<open>am_get\<close> returns the value of the first map in which the key is present.\<close>

lemma am_wait_found:
  assumes "am_wait key sched m = (m1, True)"
  shows "am_data m1 key \<noteq> None \<and> m1 \<in> set (m # sched)"
  using assms by (induction key sched m rule: am_wait.induct) (auto split: if_splits)

lemma am_wait_not_found:
  assumes "am_wait key sched m = (m1, False)"
  shows "\<forall>s \<in> set (m # sched). am_data s key = None"
  using assms by (induction key sched m rule: am_wait.induct) (auto split: if_splits)

text \<open>A poll that fails four times gives no results, and so the default result.\<close>

lemma poll_tries_le:
  assumes "\<And>c. snd (poll_blocking P C timeout 0 c) \<noteq> Undefined"
  shows "\<exists>rs. snd (poll_tries P C timeout n c) = Return rs"
proof (induction n arbitrary: c)
  case (Suc n)
  obtain c1 r where "poll_blocking P C timeout 0 c = (c1, r)" by fastforce
  then show ?case using Suc assms [of c] by (cases r) auto
qed simp

subsection \<open>Requests and responses of a WebSocket connection\<close>

lemma ws_read_arrival:
  assumes "aq_q (in_q c) = []" and "wc_arrivals c = (x # xs) # rest"
  shows "ws_read c = (c\<lparr>wc_arrivals := rest, in_q := (in_q c)\<lparr>aq_q := xs\<rparr>\<rparr>, Return x)"
proof -
  have "aq_pop_loop std_queue_ops 1 WEBSOCKET_READ_TIMEOUT None [x # xs] (aq_q (in_q c)) [] = Some (Return ([x], xs))"
    using assms(1)
    by (subst aq_pop_loop.simps) (simp add: aq_wait_items_def WEBSOCKET_READ_TIMEOUT_def std_queue_ops_def aq_round_def)
  then show ?thesis using assms by (simp add: ws_read_def aq_pop_def Let_def)
qed

lemma ws_read_queued:
  assumes "aq_q (in_q c) = x # xs"
  shows "ws_read c = (c\<lparr>in_q := (in_q c)\<lparr>aq_q := xs\<rparr>\<rparr>, Return x)"
  using fifo.pop_one [of "aq_q (in_q c)" x xs None WEBSOCKET_READ_TIMEOUT "[]"] assms
  by (simp add: ws_read_def aq_pop_def Let_def)

lemma ws_read_timeout:
  assumes "aq_q (in_q c) = []" and "wc_arrivals c = [] # rest"
  shows "ws_read c = (c\<lparr>wc_arrivals := rest\<rparr>, Raise (read_error ''vector::_M_range_check''))"
proof -
  have "aq_pop_loop std_queue_ops 1 WEBSOCKET_READ_TIMEOUT None [[]] (aq_q (in_q c)) [] = Some (Return ([], []))"
    using assms(1)
    by (subst aq_pop_loop.simps) (simp add: aq_wait_items_def WEBSOCKET_READ_TIMEOUT_def std_queue_ops_def)
  then show ?thesis using assms by (simp add: ws_read_def aq_pop_def Let_def)
qed

text \<open>Several requests, one after the other.\<close>

fun send_all :: "'m client_lib \<Rightarrow> 'c connection \<Rightarrow> vecu8 list \<Rightarrow> 'c \<Rightarrow> 'c \<times> Response outcome list" where
  "send_all P C [] c = (c, [])"
| "send_all P C (b # bs) c =
     (case client_send_message P C b c of (c1, r) \<Rightarrow> (case send_all P C bs c1 of (c2, rs) \<Rightarrow> (c2, r # rs)))"

lemma client_send_message_websocket:
  assumes "aq_q (in_q c) = []" and "wc_arrivals c = [resp_of] # rest" and "wc_errors c = []"
    and "resp_of \<noteq> []" and "pb_parse P resp_of = Some R"
  shows "client_send_message P websocket bytes c = (c\<lparr>wc_sent := wc_sent c @ [bytes], wc_arrivals := rest\<rparr>, Return R)"
proof -
  let ?c = "c\<lparr>wc_errors := [], wc_sent := wc_sent c @ [bytes]\<rparr>"
  have "ws_send bytes c = (?c, Return ())" using assms(3) by (simp add: ws_send_def)
  moreover have "ws_read ?c = (?c\<lparr>wc_arrivals := rest, in_q := (in_q c)\<lparr>aq_q := []\<rparr>\<rparr>, Return resp_of)"
    using ws_read_arrival [of ?c resp_of "[]" rest] assms(1,2) by simp
  ultimately show ?thesis
    using assms(1,3-5) by (simp add: client_send_message_def websocket_def)
qed

text \<open>As long as every response arrives before the read gives up, each request gets its own response.\<close>

lemma send_all_in_step:
  assumes "\<forall>b \<in> set bs. resp_of b \<noteq> [] \<and> pb_parse P (resp_of b) = Some (R b)"
    and "aq_q (in_q c) = []" and "wc_arrivals c = map (\<lambda>b. [resp_of b]) bs @ rest" and "wc_errors c = []"
  shows "send_all P websocket bs c =
    (c\<lparr>wc_sent := wc_sent c @ bs, wc_arrivals := rest\<rparr>, map (\<lambda>b. Return (R b)) bs)"
  using assms
proof (induction bs arbitrary: c)
  case (Cons b bs)
  let ?c = "c\<lparr>wc_sent := wc_sent c @ [b], wc_arrivals := map (\<lambda>b. [resp_of b]) bs @ rest\<rparr>"
  have "client_send_message P websocket b c = (?c, Return (R b))"
    using Cons.prems by (intro client_send_message_websocket) auto
  then show ?case using Cons.IH [of ?c] Cons.prems by simp
qed simp

text \<open>A response that arrives after the read has given up stays in the queue and is taken for the response
  of the next request; from then on every request gets the response of the one before.\<close>

lemma late_response_misleads:
  assumes "aq_q (in_q c) = []" and "wc_arrivals c = [] # rest" and "wc_errors c = []"
    and "resp_of \<noteq> []" and "pb_parse P resp_of = Some R" and "aq_max (in_q c) = 0"
  shows "\<exists>c1 e. client_send_message P websocket b1 c = (c1, Raise e)
    \<and> snd (client_send_message P websocket b2 (ws_deliver resp_of c1)) = Return R"
proof -
  let ?c = "c\<lparr>wc_errors := [], wc_sent := wc_sent c @ [b1]\<rparr>"
  let ?c1 = "?c\<lparr>wc_arrivals := rest\<rparr>"
  have 1: "ws_send b1 c = (?c, Return ())" using assms(3) by (simp add: ws_send_def)
  have 2: "ws_read ?c = (?c1, Raise (read_error ''vector::_M_range_check''))"
    using ws_read_timeout [of ?c rest] assms(1,2) by simp
  have one: "client_send_message P websocket b1 c = (?c1, Raise (read_error ''vector::_M_range_check''))"
    using 1 2 by (simp add: client_send_message_def websocket_def)
  let ?d = "?c1\<lparr>in_q := (in_q c)\<lparr>aq_q := [resp_of]\<rparr>\<rparr>"
  have 3: "ws_deliver resp_of ?c1 = ?d"
    using assms(1,6) by (simp add: ws_deliver_def aq_push_def aq_emplace_def aq_full_def std_queue_ops_def)
  let ?e = "?d\<lparr>wc_sent := wc_sent c @ [b1, b2]\<rparr>"
  have 4: "ws_send b2 ?d = (?e, Return ())" by (simp add: ws_send_def)
  have "ws_read ?e = (?e\<lparr>in_q := (in_q ?e)\<lparr>aq_q := []\<rparr>\<rparr>, Return resp_of)"
    by (rule ws_read_queued) simp
  then have "snd (client_send_message P websocket b2 ?d) = Return R"
    using 4 assms(4,5) by (simp add: client_send_message_def websocket_def)
  then show ?thesis using one 3 by auto
qed

end
