(* ===== verification/Auto_Poll.thy ===== *)
theory Auto_Poll
  imports Client
begin

text \<open>
  \<^verbatim>\<open>src/src/multi_client.cpp\<close> and \<^verbatim>\<open>src/src/ra2yrcppcli/\<close>: the client with two connections, one for commands and
  one on which a thread polls the results, and the command line tool on top of it.

  Both connections act on one state \<open>'w\<close>, which contains the other side. While a command waits for
  its result, the other threads act: a schedule lists, for each notification, what the other
  side does before the next round of the polling thread.
\<close>

section \<open>State\<close>

datatype ClientType = COMMAND | POLL_CLIENT

record client_options =
  opt_poll_timeout :: duration_t
  opt_command_timeout :: duration_t

record 'w auto_client =
  ac_state :: State
  ac_active :: bool
  ac_results :: "(u64, cmd_result) async_map"
  is_clients :: "ClientType set"
  queue_ids :: "ClientType \<rightharpoonup> u64"
  ac_world :: 'w

text \<open>The two connections.\<close>

type_synonym 'w connections = "ClientType \<Rightarrow> 'w connection"

definition auto_client_new :: "'w \<Rightarrow> 'w auto_client" where
  "auto_client_new w =
     \<lparr>ac_state = NONE, ac_active = False, ac_results = am_new, is_clients = {}, queue_ids = Map.empty, ac_world = w\<rparr>"

definition on_world :: "('w \<Rightarrow> 'w \<times> 'a outcome) \<Rightarrow> 'w auto_client \<Rightarrow> 'w auto_client \<times> 'a outcome" where
  "on_world f a = (case f (ac_world a) of (w, r) \<Rightarrow> (a\<lparr>ac_world := w\<rparr>, r))"

text \<open>\<open>is_clients_.at\<close> and \<open>queue_ids_.at\<close>.\<close>

definition get_client :: "ClientType \<Rightarrow> 'w auto_client \<Rightarrow> 'w auto_client \<times> unit outcome" where
  "get_client t a = (a, if t \<in> is_clients a then Return () else Raise (out_of_range ''map::at''))"

definition get_queue_id :: "ClientType \<Rightarrow> 'w auto_client \<Rightarrow> 'w auto_client \<times> u64 outcome" where
  "get_queue_id t a = (a, map_at (queue_ids a) t)"

section \<open>start\<close>

definition start_one ::
  "'m client_lib \<Rightarrow> 'w connections \<Rightarrow> client_options \<Rightarrow> ClientType \<Rightarrow> 'w auto_client \<Rightarrow> 'w auto_client \<times> unit outcome"
where
  "start_one P C opt t a =
     sbind (on_world (conn_connect (C t)) a) (\<lambda>_ a1.
     sbind (on_world (client_send_command P (C t) (pb_system_state P) CLIENT_COMMAND) a1) (\<lambda>r a2.
     sbind (a2, from_any (pb_ack P) ''ra2yrproto.RunCommandAck'' (body r)) (\<lambda>ack a3.
     let a4 = a3\<lparr>queue_ids := (queue_ids a3)(t \<mapsto> snd ack)\<rparr>
     in sbind (on_world (poll_blocking P (C t) (opt_poll_timeout opt) (snd ack)) a4) (\<lambda>_ a5.
          (a5\<lparr>is_clients := insert t (is_clients a5)\<rparr>, Return ())))))"

text \<open>Afterwards the polling thread runs; the state changes only in that thread.\<close>

definition auto_start ::
  "'m client_lib \<Rightarrow> 'w connections \<Rightarrow> client_options \<Rightarrow> 'w auto_client \<Rightarrow> 'w auto_client \<times> unit outcome"
where
  "auto_start P C opt a =
     (if ac_state a \<noteq> NONE then (a, Raise (runtime_error (''invalid state: '' @ show_nat (state_code (ac_state a)))))
      else sbind (start_one P C opt COMMAND a) (\<lambda>_ a1. start_one P C opt POLL_CLIENT a1))"

section \<open>The polling thread\<close>

fun put_all ::
  "cmd_result list \<Rightarrow> (u64, cmd_result) async_map \<Rightarrow> (u64, cmd_result) async_map \<times> unit outcome"
where
  "put_all [] m = (m, Return ())"
| "put_all (r # rs) m = sbind (am_put (command_id r) r m) (\<lambda>_ m1. put_all rs m1)"

text \<open>One round of the loop; every exception is caught.\<close>

definition poll_round ::
  "'m client_lib \<Rightarrow> 'w connections \<Rightarrow> client_options \<Rightarrow> 'w auto_client \<Rightarrow> 'w auto_client"
where
  "poll_round P C opt a =
     fst (sbind (get_client POLL_CLIENT a) (\<lambda>_ a1.
          sbind (get_queue_id COMMAND a1) (\<lambda>q a2.
          sbind (on_world (poll_blocking P (C POLL_CLIENT) (opt_poll_timeout opt) q) a2) (\<lambda>rs a3.
            case put_all rs (ac_results a3) of (m, r) \<Rightarrow> (a3\<lparr>ac_results := m\<rparr>, r)))))"

section \<open>send_command\<close>

text \<open>\<open>results().get\<close> while the other threads act: the map is examined at once and after every round of the
  polling thread, until the timeout.\<close>

fun await_result ::
  "'m client_lib \<Rightarrow> 'w connections \<Rightarrow> client_options \<Rightarrow> u64 \<Rightarrow> ('w \<Rightarrow> 'w) list \<Rightarrow> 'w auto_client
     \<Rightarrow> 'w auto_client \<times> bool"
where
  "await_result P C opt key [] a = (a, am_data (ac_results a) key \<noteq> None)"
| "await_result P C opt key (f # fs) a =
     (if am_data (ac_results a) key \<noteq> None then (a, True)
      else await_result P C opt key fs (poll_round P C opt (a\<lparr>ac_world := f (ac_world a)\<rparr>)))"

definition get_result ::
  "'m client_lib \<Rightarrow> (duration_t \<Rightarrow> string) \<Rightarrow> 'w connections \<Rightarrow> client_options \<Rightarrow> u64 \<Rightarrow> ('w \<Rightarrow> 'w) list
     \<Rightarrow> 'w auto_client \<Rightarrow> 'w auto_client \<times> cmd_result outcome"
where
  "get_result P show_seconds C opt key fs a =
     (if opt_command_timeout opt > 0
      then (case await_result P C opt key fs a of
              (a1, True) \<Rightarrow> (a1, map_at (am_data (ac_results a1)) key)
            | (a1, False) \<Rightarrow>
                (a1, Raise (runtime_error (''timeout after '' @ show_seconds (opt_command_timeout opt) @ ''ms''))))
      else (a, map_at (am_data (ac_results a)) key))"

text \<open>Only \<open>std::runtime_error\<close> is caught.\<close>

definition auto_send_command ::
  "'m client_lib \<Rightarrow> (duration_t \<Rightarrow> string) \<Rightarrow> 'w connections \<Rightarrow> client_options \<Rightarrow> ('w \<Rightarrow> 'w) list \<Rightarrow> 'm
     \<Rightarrow> 'w auto_client \<Rightarrow> 'w auto_client \<times> Response outcome"
where
  "auto_send_command P show_seconds C opt fs cmd a =
     sbind (get_client COMMAND a) (\<lambda>_ a1.
     sbind (on_world (client_send_command P (C COMMAND) cmd CLIENT_COMMAND) a1) (\<lambda>resp a2.
     sbind (a2, from_any (pb_ack P) ''ra2yrproto.RunCommandAck'' (body resp)) (\<lambda>ack a3.
     case sbind (get_result P show_seconds C opt (fst ack) fs a3) (\<lambda>r a4.
            sbind (a4, make_response (pb_pack_result P) r RESPONSE_OK) (\<lambda>R a5.
              (a5\<lparr>ac_results := am_erase (fst ack) (ac_results a5)\<rparr>, Return R))) of
       (a6, Raise e) \<Rightarrow>
         (a6, if kind_of e = RuntimeError
              then Raise (general_error (''timeout after '' @ show_seconds (opt_command_timeout opt) @ ''ms, key=''
                     @ show_nat (unat (fst ack))))
              else Raise e)
     | res \<Rightarrow> res)))"

section \<open>The command line tool\<close>

text \<open>\<open>build\<close> makes the message of a command from its name and JSON arguments (\<open>MessageBuilder\<close>,
  \<open>create_command_message\<close>), or throws for an unknown name.\<close>

definition cli_send_command ::
  "'m client_lib \<Rightarrow> (duration_t \<Rightarrow> string) \<Rightarrow> (string \<Rightarrow> string \<Rightarrow> 'm outcome) \<Rightarrow> 'w connections \<Rightarrow> client_options
     \<Rightarrow> ('w \<Rightarrow> 'w) list \<Rightarrow> string \<Rightarrow> string \<Rightarrow> 'w auto_client \<Rightarrow> 'w auto_client \<times> Response outcome"
where
  "cli_send_command P show_seconds build C opt fs name args a =
     sbind (a, build name args) (\<lambda>msg a1. auto_send_command P show_seconds C opt fs msg a1)"

definition INIT_COMMANDS :: "string list" where
  "INIT_COMMANDS = [''ra2yrproto.commands.CreateHooks'', ''ra2yrproto.commands.CreateCallbacks'']"

text \<open>The inner loop of \<open>easy_setup\<close>: it retries until the command succeeds; the last try lets the
  exception through. The number of tries is shared by all commands. The result has the tries
  that are left.\<close>

fun cli_try ::
  "('a \<Rightarrow> 'a \<times> Response outcome) \<Rightarrow> nat \<Rightarrow> 'a \<Rightarrow> 'a \<times> nat outcome"
where
  "cli_try send 0 a = (a, Return 0)"
| "cli_try send (Suc n) a =
     (case send a of
        (a1, Return r) \<Rightarrow> (a1, Return (Suc n))
      | (a1, Raise e) \<Rightarrow> (if n = 0 then (a1, Raise e) else cli_try send n a1)
      | (a1, Undefined) \<Rightarrow> (a1, Undefined))"

fun cli_commands ::
  "(string \<Rightarrow> 'a \<Rightarrow> 'a \<times> Response outcome) \<Rightarrow> string list \<Rightarrow> nat \<Rightarrow> 'a \<Rightarrow> 'a \<times> nat outcome"
where
  "cli_commands send [] tries a = (a, Return tries)"
| "cli_commands send (s # ss) tries a = sbind (cli_try (send s) tries a) (\<lambda>n a1. cli_commands send ss n a1)"

text \<open>\<open>easy_setup\<close> after the injection: the client is made by \<open>get_client\<close>, which does not start it.\<close>

definition easy_setup_commands ::
  "'m client_lib \<Rightarrow> (duration_t \<Rightarrow> string) \<Rightarrow> (string \<Rightarrow> string \<Rightarrow> 'm outcome) \<Rightarrow> 'w connections \<Rightarrow> client_options
     \<Rightarrow> ('w \<Rightarrow> 'w) list \<Rightarrow> 'w \<Rightarrow> 'w auto_client \<times> nat outcome"
where
  "easy_setup_commands P show_seconds build C opt fs w =
     cli_commands (\<lambda>s. cli_send_command P show_seconds build C opt fs s []) INIT_COMMANDS 3 (auto_client_new w)"

section \<open>Lemmas\<close>

text \<open>Every stored result is stored under its own id.\<close>

definition keyed :: "(u64, cmd_result) async_map \<Rightarrow> bool" where
  "keyed m \<longleftrightarrow> (\<forall>k r. am_data m k = Some r \<longrightarrow> command_id r = k)"

definition results_ok :: "'w auto_client \<Rightarrow> bool" where
  "results_ok a \<longleftrightarrow> keyed (ac_results a)"

lemma keyed_put: "keyed m \<Longrightarrow> am_put (command_id r) r m = (m', res) \<Longrightarrow> keyed m'"
  by (auto simp: keyed_def am_put_def split: if_splits)

lemma keyed_put_all: "keyed m \<Longrightarrow> keyed (fst (put_all rs m))"
proof (induction rs arbitrary: m)
  case (Cons r rs)
  obtain m1 res where m1: "am_put (command_id r) r m = (m1, res)" by fastforce
  then have "keyed m1" using Cons.prems keyed_put by blast
  then show ?case using Cons.IH [of m1] m1 by (cases res) simp_all
qed simp

lemma on_world_eq: "on_world f a = (a\<lparr>ac_world := fst (f (ac_world a))\<rparr>, snd (f (ac_world a)))"
  by (simp add: on_world_def split: prod.splits)

lemma results_ok_world [simp]: "results_ok (a\<lparr>ac_world := w\<rparr>) = results_ok a"
  by (simp add: results_ok_def)

lemma results_ok_round:
  assumes "results_ok a"
  shows "results_ok (poll_round P C opt a)"
  using assms keyed_put_all [of "ac_results a"]
  by (simp add: poll_round_def get_client_def get_queue_id_def on_world_eq sbind_def results_ok_def
      split: outcome.splits prod.splits)
    (metis fst_conv)

lemma await_result_ok:
  assumes "results_ok a" and "await_result P C opt key fs a = (a1, b)"
  shows "results_ok a1 \<and> (b \<longrightarrow> am_data (ac_results a1) key \<noteq> None)"
  using assms
proof (induction fs arbitrary: a)
  case (Cons f fs)
  then show ?case
    using Cons.IH [OF results_ok_round [of "a\<lparr>ac_world := f (ac_world a)\<rparr>"]] by (auto split: if_splits)
qed auto

text \<open>The wait is \<open>AsyncMap::get\<close> on the maps that the polling thread leaves after its rounds.\<close>

fun poll_history ::
  "'m client_lib \<Rightarrow> 'w connections \<Rightarrow> client_options \<Rightarrow> ('w \<Rightarrow> 'w) list \<Rightarrow> 'w auto_client \<Rightarrow> 'w auto_client list"
where
  "poll_history P C opt [] a = []"
| "poll_history P C opt (f # fs) a =
     (let a1 = poll_round P C opt (a\<lparr>ac_world := f (ac_world a)\<rparr>) in a1 # poll_history P C opt fs a1)"

lemma await_is_am_wait:
  "am_wait key (map ac_results (poll_history P C opt fs a)) (ac_results a) =
     (ac_results (fst (await_result P C opt key fs a)), snd (await_result P C opt key fs a))"
  by (induction fs arbitrary: a) (auto simp: Let_def)

lemma get_result_is_am_get:
  "(case get_result P sh C opt key fs a of (a1, r) \<Rightarrow> (ac_results a1, r)) =
     am_get sh (map ac_results (poll_history P C opt fs a)) key (opt_command_timeout opt) (ac_results a)"
  by (simp add: get_result_def am_get_def await_is_am_wait split: prod.splits bool.splits)

lemma results_ok_erase: "results_ok a \<Longrightarrow> results_ok (a\<lparr>ac_results := am_erase k (ac_results a)\<rparr>)"
  by (simp add: results_ok_def keyed_def am_erase_def)

section \<open>Properties\<close>

text \<open>C16: A command sent with the polling client gets its own result. When the server acknowledges the command
  with an id, then either a result with exactly this id has arrived within the timeout; it is packed
  into the response and removed from the stored results, and the stored results stay filed under
  their own ids. Or no result with this id arrived in any round of the polling thread, and the
  error names the id.\<close>

theorem auto_send_command_own_result:
  assumes ok: "results_ok a" and client: "COMMAND \<in> is_clients a"
    and ack: "client_send_command P (C COMMAND) cmd CLIENT_COMMAND (ac_world a) = (w1, Return resp)"
      "pb_ack P (body resp) = Some (i, q)"
    and timeout: "0 < opt_command_timeout opt" and pack: "\<And>r. pb_pack_result P r \<noteq> None"
  shows "case auto_send_command P sh C opt fs cmd a of
      (a', Return R) \<Rightarrow> results_ok a' \<and> am_data (ac_results a') i = None \<and> code R = RESPONSE_OK
        \<and> (\<exists>r. command_id r = i \<and> pb_pack_result P r = Some (body R))
    | (a', Raise e) \<Rightarrow> e = general_error (''timeout after '' @ sh (opt_command_timeout opt) @ ''ms, key='' @ show_nat (unat i))
        \<and> (\<forall>s \<in> set (poll_history P C opt fs (a\<lparr>ac_world := w1\<rparr>)). am_data (ac_results s) i = None)
    | (a', Undefined) \<Rightarrow> False"
proof -
  let ?a = "a\<lparr>ac_world := w1\<rparr>"
  have oka: "results_ok ?a" using ok by simp
  obtain a1 b where a1: "await_result P C opt i fs ?a = (a1, b)" by fastforce
  have found: "results_ok a1 \<and> (b \<longrightarrow> am_data (ac_results a1) i \<noteq> None)" by (rule await_result_ok [OF oka a1])
  note defs = auto_send_command_def get_client_def client on_world_eq ack from_any_def get_result_def timeout a1
  show ?thesis
  proof (cases b)
    case True
    with found obtain r where r: "am_data (ac_results a1) i = Some r" "command_id r = i"
      by (auto simp: results_ok_def keyed_def)
    obtain x where x: "pb_pack_result P r = Some x" using pack [of r] by blast
    have "auto_send_command P sh C opt fs cmd a =
        (a1\<lparr>ac_results := am_erase i (ac_results a1)\<rparr>, Return \<lparr>code = RESPONSE_OK, body = x\<rparr>)"
      using True by (simp add: defs r(1) make_response_def x)
    then show ?thesis using found results_ok_erase [of a1 i] r(2) x by (auto simp: am_erase_def)
  next
    case False
    have w: "am_wait i (map ac_results (poll_history P C opt fs ?a)) (ac_results ?a) = (ac_results a1, False)"
      unfolding await_is_am_wait a1 using False by simp
    have "auto_send_command P sh C opt fs cmd a =
        (a1, Raise (general_error (''timeout after '' @ sh (opt_command_timeout opt) @ ''ms, key='' @ show_nat (unat i))))"
      using False by (simp add: defs runtime_error_def)
    then show ?thesis using am_wait_not_found [OF w] by simp
  qed
qed

text \<open>The client of the command line tool is never started: it has no connections, and every command fails
  before anything is sent.\<close>

lemma cli_client_not_started:
  "cli_send_command P sh build C opt fs name args (auto_client_new w) =
     (auto_client_new w, case build name args of
        Return m \<Rightarrow> Raise (out_of_range ''map::at'') | Raise e \<Rightarrow> Raise e | Undefined \<Rightarrow> Undefined)"
  by (simp add: cli_send_command_def auto_send_command_def get_client_def auto_client_new_def sbind_def
      split: outcome.splits)

lemma easy_setup_fails:
  assumes "build ''ra2yrproto.commands.CreateHooks'' [] = Return m"
  shows "easy_setup_commands P sh build C opt fs w = (auto_client_new w, Raise (out_of_range ''map::at''))"
  using assms by (simp add: easy_setup_commands_def INIT_COMMANDS_def cli_client_not_started numeral_3_eq_3)

section \<open>Starting and stopping the threads\<close>

text \<open>The polling thread and the thread that calls \<open>shutdown\<close>, one access to the shared variables per step.
  \<open>shutdown\<close> holds the mutex of \<open>state_\<close> from its first to its last line.\<close>

datatype poll_pc = PWait | PStore | PSet | PTest | PPoll | PEnd

datatype main_pc = MRunning | MClosing | MFlag | MJoin | MDisconnect | MClosed

record ap_threads =
  t_poll :: poll_pc
  t_main :: main_pc
  t_state :: State
  t_locked :: bool
  t_active :: bool

text \<open>\<open>poll_thread\<close>. The connections are open when it starts.\<close>

definition poll_thread_step :: "ap_threads \<Rightarrow> ap_threads option" where
  "poll_thread_step s =
     (case t_poll s of
        PWait \<Rightarrow> Some (s\<lparr>t_poll := PStore\<rparr>)
      | PStore \<Rightarrow> (if t_locked s then None else Some (s\<lparr>t_poll := PSet, t_state := OPEN\<rparr>))
      | PSet \<Rightarrow> Some (s\<lparr>t_poll := PTest, t_active := True\<rparr>)
      | PTest \<Rightarrow> Some (s\<lparr>t_poll := (if t_active s then PPoll else PEnd)\<rparr>)
      | PPoll \<Rightarrow> Some (s\<lparr>t_poll := PTest\<rparr>)
      | PEnd \<Rightarrow> None)"

definition shutdown_step :: "ap_threads \<Rightarrow> ap_threads option" where
  "shutdown_step s =
     (case t_main s of
        MRunning \<Rightarrow> Some (s\<lparr>t_main := MClosing, t_locked := True\<rparr>)
      | MClosing \<Rightarrow> Some (s\<lparr>t_main := MFlag, t_state := CLOSING\<rparr>)
      | MFlag \<Rightarrow> Some (s\<lparr>t_main := MJoin, t_active := False\<rparr>)
      | MJoin \<Rightarrow> (if t_poll s = PEnd then Some (s\<lparr>t_main := MDisconnect\<rparr>) else None)
      | MDisconnect \<Rightarrow> Some (s\<lparr>t_main := MClosed, t_state := CLOSED, t_locked := False\<rparr>)
      | MClosed \<Rightarrow> None)"

fun ap_run :: "bool list \<Rightarrow> ap_threads \<Rightarrow> ap_threads option" where
  "ap_run [] s = Some s"
| "ap_run (b # bs) s = Option.bind (if b then poll_thread_step s else shutdown_step s) (ap_run bs)"

definition ap_started :: ap_threads where
  "ap_started = \<lparr>t_poll = PWait, t_main = MRunning, t_state = NONE, t_locked = False, t_active = False\<rparr>"

text \<open>The steps left when \<open>shutdown\<close> waits for a thread that is in its loop.\<close>

definition closing :: "ap_threads \<Rightarrow> bool" where
  "closing s \<longleftrightarrow> \<not> t_active s \<and> t_poll s \<in> {PTest, PPoll, PEnd} \<and> t_main s \<in> {MJoin, MDisconnect, MClosed}
     \<and> (t_main s = MJoin \<or> t_poll s = PEnd) \<and> (t_main s = MClosed \<longrightarrow> t_state s = CLOSED \<and> \<not> t_locked s)"

definition steps_left :: "ap_threads \<Rightarrow> nat" where
  "steps_left s = (case t_poll s of PPoll \<Rightarrow> 2 | PTest \<Rightarrow> 1 | _ \<Rightarrow> 0)
     + (case t_main s of MJoin \<Rightarrow> 2 | MDisconnect \<Rightarrow> 1 | _ \<Rightarrow> 0)"

lemma closing_step:
  assumes "closing s" and "(if b then poll_thread_step s else shutdown_step s) = Some s'"
  shows "closing s' \<and> steps_left s' < steps_left s"
  using assms
  by (cases b; cases "t_poll s"; cases "t_main s")
    (auto simp: closing_def steps_left_def poll_thread_step_def shutdown_step_def split: if_splits)

lemma closing_progress:
  assumes "closing s" and "t_main s \<noteq> MClosed"
  shows "\<exists>b. (if b then poll_thread_step s else shutdown_step s) \<noteq> None"
proof (cases "t_poll s = PEnd")
  case True
  then show ?thesis using assms
    by (intro exI [of _ False]) (auto simp: closing_def shutdown_step_def split: main_pc.splits)
next
  case False
  then show ?thesis using assms
    by (intro exI [of _ True]) (auto simp: closing_def poll_thread_step_def)
qed

lemma closing_run:
  "closing s \<Longrightarrow> ap_run bs s = Some s' \<Longrightarrow> closing s' \<and> length bs + steps_left s' \<le> steps_left s"
proof (induction bs arbitrary: s)
  case (Cons b bs)
  then obtain s1 where "(if b then poll_thread_step s else shutdown_step s) = Some s1" "ap_run bs s1 = Some s'"
    by (auto simp: bind_eq_Some_conv)
  then show ?case using closing_step [OF Cons.prems(1)] Cons.IH [of s1] by fastforce
qed simp

text \<open>C38: Shutting down a polling client whose thread has entered its loop terminates under every schedule: from
  the moment the flag is cleared the two threads make at most four more steps, they never block each
  other, and in the end the client is closed.\<close>

theorem shutdown_terminates:
  assumes loop: "t_poll s \<in> {PTest, PPoll}" and flag: "shutdown_step s = Some s1" "t_main s = MFlag"
    and run: "ap_run bs s1 = Some s'"
  shows "length bs \<le> 4 \<and> (t_main s' = MClosed \<and> t_state s' = CLOSED
    \<or> (\<exists>b. (if b then poll_thread_step s' else shutdown_step s') \<noteq> None))"
proof -
  have s1: "s1 = s\<lparr>t_main := MJoin, t_active := False\<rparr>" using flag by (simp add: shutdown_step_def)
  have c: "closing s1" and l: "steps_left s1 \<le> 4" using loop by (auto simp: s1 closing_def steps_left_def)
  note r = closing_run [OF c run]
  then show ?thesis
    using l closing_progress [of s'] by (cases "t_main s' = MClosed") (auto simp: closing_def)
qed

definition demo_threads :: ap_threads where
  "demo_threads = \<lparr>t_poll = PTest, t_main = MFlag, t_state = CLOSING, t_locked = True, t_active = True\<rparr>"

definition demo_closing :: ap_threads where
  "demo_closing = \<lparr>t_poll = PEnd, t_main = MDisconnect, t_state = CLOSING, t_locked = True, t_active = False\<rparr>"

theorem shutdown_terminates_witness:
  "length [True, False] \<le> 4 \<and> (t_main demo_closing = MClosed \<and> t_state demo_closing = CLOSED
    \<or> (\<exists>b. (if b then poll_thread_step demo_closing else shutdown_step demo_closing) \<noteq> None))"
  by (rule shutdown_terminates [of demo_threads "demo_threads\<lparr>t_main := MJoin, t_active := False\<rparr>"])
    (simp_all add: demo_threads_def demo_closing_def shutdown_step_def poll_thread_step_def)

text \<open>A shutdown before that: when the thread has not yet stored \<open>OPEN\<close>, it waits for the mutex that \<open>shutdown\<close>
  holds while it joins the thread; when it has stored \<open>OPEN\<close> but not yet set its flag, it sets the flag
  after \<open>shutdown\<close> has cleared it and polls for ever.\<close>

lemma shutdown_before_open_hangs:
  "\<exists>s. ap_run [True, False, False, False] ap_started = Some s \<and> poll_thread_step s = None
     \<and> shutdown_step s = None \<and> t_main s = MJoin"
  by (simp add: ap_started_def poll_thread_step_def shutdown_step_def)

lemma shutdown_before_loop_hangs:
  "\<exists>s. ap_run [True, True, False, False, False, True] ap_started = Some s
     \<and> (\<forall>bs s'. ap_run bs s = Some s' \<longrightarrow> t_main s' = MJoin)"
proof -
  let ?stuck = "\<lambda>s. t_main s = MJoin \<and> t_active s \<and> t_poll s \<in> {PTest, PPoll}"
  let ?s = "\<lparr>t_poll = PTest, t_main = MJoin, t_state = CLOSING, t_locked = True, t_active = True\<rparr>"
  have "?stuck s \<Longrightarrow> ap_run bs s = Some s' \<Longrightarrow> t_main s' = MJoin" for bs s s'
  proof (induction bs arbitrary: s)
    case (Cons b bs)
    then obtain s1 where s1: "(if b then poll_thread_step s else shutdown_step s) = Some s1" "ap_run bs s1 = Some s'"
      by (auto simp: bind_eq_Some_conv)
    moreover have "?stuck s1"
      using s1(1) Cons.prems(1) by (cases b) (auto simp: poll_thread_step_def shutdown_step_def)
    ultimately show ?case using Cons.IH by blast
  qed simp
  from this [of ?s] have "\<forall>bs s'. ap_run bs ?s = Some s' \<longrightarrow> t_main s' = MJoin" by simp
  moreover have "ap_run [True, True, False, False, False, True] ap_started = Some ?s"
    by (simp add: ap_started_def poll_thread_step_def shutdown_step_def)
  ultimately show ?thesis by blast
qed

subsection \<open>Examples\<close>

text \<open>A server that acknowledges every command with the id 7 and has a result with this id.\<close>

definition demo_result :: cmd_result where
  "demo_result = default_result\<lparr>command_id := 7\<rparr>"

definition demo_any :: any where
  "demo_any = \<lparr>type_url = [], payload = []\<rparr>"

definition demo_lib :: "nat client_lib" where
  "demo_lib = \<lparr>pb_pack = (\<lambda>_. Some demo_any), pb_poll_cmd = (\<lambda>_. 0), pb_system_state = 1,
     pb_serialize = (\<lambda>_. Some [1]), pb_parse = (\<lambda>_. Some \<lparr>code = RESPONSE_OK, body = demo_any\<rparr>),
     pb_ack = (\<lambda>_. Some (7, 1)), pb_results = (\<lambda>_. Some [demo_result]), pb_text = (\<lambda>_. Some []),
     pb_pack_result = (\<lambda>_. Some demo_any), pb_system_error = runtime_error\<rparr>"

definition demo_connection :: "ClientType \<Rightarrow> nat connection" where
  "demo_connection t = \<lparr>conn_connect = (\<lambda>w. (w, Return ())), conn_send = (\<lambda>b w. (Suc w, Return ())),
     conn_read = (\<lambda>w. (w, Return [1])), conn_stop = (\<lambda>w. w)\<rparr>"

definition demo_client :: "nat auto_client" where
  "demo_client = (auto_client_new 0)\<lparr>is_clients := {COMMAND, POLL_CLIENT}, queue_ids := [COMMAND \<mapsto> 1]\<rparr>"

definition demo_client_options :: client_options where
  "demo_client_options = \<lparr>opt_poll_timeout = 1, opt_command_timeout = 1 / 4\<rparr>"

theorem auto_send_command_own_result_witness:
  "case auto_send_command demo_lib (\<lambda>_. []) demo_connection demo_client_options [id] 5 demo_client of
      (a', Return R) \<Rightarrow> results_ok a' \<and> am_data (ac_results a') 7 = None \<and> code R = RESPONSE_OK
        \<and> (\<exists>r. command_id r = 7 \<and> pb_pack_result demo_lib r = Some (body R))
    | (a', Raise e) \<Rightarrow> e = general_error (''timeout after '' @ [] @ ''ms, key='' @ show_nat (unat (7 :: u64)))
        \<and> (\<forall>s \<in> set (poll_history demo_lib demo_connection demo_client_options [id] (demo_client\<lparr>ac_world := 1\<rparr>)).
             am_data (ac_results s) 7 = None)
    | (a', Undefined) \<Rightarrow> False"
  by (rule auto_send_command_own_result [where q = 1 and resp = "\<lparr>code = RESPONSE_OK, body = demo_any\<rparr>"])
    (simp_all add: demo_client_def auto_client_new_def results_ok_def keyed_def am_new_def demo_client_options_def
      demo_lib_def demo_connection_def client_send_command_def create_command_def to_vecu8_def client_send_message_def)

end
