(* ===== verification/End_To_End.thy ===== *)
theory End_To_End
  imports Auto_Poll "HOL-Library.Countable"
begin

text \<open>
  The client and the service together: the two connections of an \<open>AutoPollClient\<close> lead to one service.

  A connection passes the bytes of a request to \<open>on_receive_bytes\<close> with the id of its socket and
  hands out the replies in order; that the server in between keeps requests and replies of a
  connection in order is the subject of the theory \<open>Websocket_Server\<close>. Of the protocol buffer
  library the theorem needs that a message survives packing and serialisation.
\<close>

section \<open>Connections to a service\<close>

record ('h, 'w) link =
  l_service :: "('h, 'w) service"
  l_inbox :: "ClientType \<Rightarrow> vecu8 list"

definition link_send ::
  "service_lib \<Rightarrow> (ClientType \<Rightarrow> 32 word) \<Rightarrow> ClientType \<Rightarrow> vecu8 \<Rightarrow> ('h, 'w) link \<Rightarrow> ('h, 'w) link \<times> unit outcome"
where
  "link_send S socket t bytes l =
     (case on_receive_bytes (sv_pack S) (sv_serialize S) (sv_to_json S) (sv_parse S) (sv_json S) (sv_poll_args S)
             None (\<lambda>m. m) (socket t) bytes (l_service l) of
        (m, Return out) \<Rightarrow> (l\<lparr>l_service := m, l_inbox := (l_inbox l)(t := l_inbox l t @ [out])\<rparr>, Return ())
      | (m, Raise e) \<Rightarrow> (l\<lparr>l_service := m\<rparr>, Return ())
      | (m, Undefined) \<Rightarrow> (l, Undefined))"

definition link_read :: "ClientType \<Rightarrow> ('h, 'w) link \<Rightarrow> ('h, 'w) link \<times> vecu8 outcome" where
  "link_read t l =
     (case l_inbox l t of
        [] \<Rightarrow> (l, Raise (read_error ''vector::_M_range_check''))
      | b # bs \<Rightarrow> (l\<lparr>l_inbox := (l_inbox l)(t := bs)\<rparr>, Return b))"

definition link_connection ::
  "service_lib \<Rightarrow> (ClientType \<Rightarrow> 32 word) \<Rightarrow> ('h, 'w) link connections"
where
  "link_connection S socket t =
     \<lparr>conn_connect = (\<lambda>l. (l, Return ())), conn_send = link_send S socket t, conn_read = link_read t,
      conn_stop = (\<lambda>l. l\<lparr>l_inbox := (l_inbox l)(t := l_inbox l t @ [[]])\<rparr>)\<rparr>"

text \<open>The worker thread of the service makes \<open>n\<close> steps.\<close>

definition worker_acts :: "(ISArg, 'h, 'w) interp \<Rightarrow> nat \<Rightarrow> ('h, 'w) link \<Rightarrow> ('h, 'w) link" where
  "worker_acts call n l =
     (case worker_run call n (l_service l) of Return m \<Rightarrow> l\<lparr>l_service := m\<rparr> | _ \<Rightarrow> l)"

section \<open>The library\<close>

text \<open>Messages survive packing and serialisation; a serialised response is not empty.\<close>

definition lib_roundtrip :: "'m client_lib \<Rightarrow> service_lib \<Rightarrow> bool" where
  "lib_roundtrip P S \<longleftrightarrow>
     (\<forall>c. \<exists>b. pb_serialize P c = Some b \<and> sv_parse S b = Some c)
   \<and> (\<forall>R. \<exists>b. sv_serialize S R = Some b \<and> b \<noteq> [] \<and> pb_parse P b = Some R)
   \<and> (\<forall>i q. \<exists>x. sv_pack S (RunCommandAck i q) = Some x \<and> pb_ack P x = Some (i, q))
   \<and> (\<forall>rs. \<exists>x. sv_pack S (PollResults rs) = Some x \<and> pb_results P x = Some rs)
   \<and> (\<forall>a. \<exists>x. pb_pack P (pb_poll_cmd P (Some a)) = Some x \<and> sv_poll_args S x = a)
   \<and> (\<forall>r. \<exists>x. pb_pack_result P r = Some x)"

lemma lib_roundtripD:
  assumes "lib_roundtrip P S"
  shows "\<exists>b. pb_serialize P c = Some b \<and> sv_parse S b = Some c"
    "\<exists>b. sv_serialize S R = Some b \<and> b \<noteq> [] \<and> pb_parse P b = Some R"
    "\<exists>x. sv_pack S (RunCommandAck i q) = Some x \<and> pb_ack P x = Some (i, q)"
    "\<exists>x. sv_pack S (PollResults rs) = Some x \<and> pb_results P x = Some rs"
    "\<exists>x. pb_pack P (pb_poll_cmd P (Some a)) = Some x \<and> sv_poll_args S x = a"
    "\<exists>x. pb_pack_result P r = Some x"
  using assms by (simp_all add: lib_roundtrip_def)

text \<open>One request over a link: the client gets the response that the service made.\<close>

lemma link_request:
  assumes lib: "lib_roundtrip P S" and inbox: "l_inbox l t = []"
    and pack: "pb_pack P cmd = Some x"
    and req: "run_request (sv_poll_args S) None (\<lambda>m. m) (socket t) \<lparr>command_type = ty, command_any = x, blocking = False\<rparr>
      (l_service l) = (m1, Return b)"
    and reply: "sv_pack S b = Some y"
  shows "client_send_command P (link_connection S socket t) cmd ty l =
    (l\<lparr>l_service := m1\<rparr>, Return \<lparr>code = RESPONSE_OK, body = y\<rparr>)"
proof -
  let ?c = "\<lparr>command_type = ty, command_any = x, blocking = False\<rparr>" and ?R = "\<lparr>code = RESPONSE_OK, body = y\<rparr>"
  obtain bs where bs: "pb_serialize P ?c = Some bs" "sv_parse S bs = Some ?c"
    using lib_roundtripD(1) [OF lib] by blast
  obtain out where out: "sv_serialize S ?R = Some out" "out \<noteq> []" "pb_parse P out = Some ?R"
    using lib_roundtripD(2) [OF lib] by blast
  have "on_receive_bytes (sv_pack S) (sv_serialize S) (sv_to_json S) (sv_parse S) (sv_json S) (sv_poll_args S)
      None (\<lambda>m. m) (socket t) bs (l_service l) = (m1, Return out)"
    by (simp add: on_receive_bytes_def parse_request_def bs(2) process_request_def req answer_def make_response_def
        reply to_vecu8_def out(1))
  then have send: "link_send S socket t bs l = (l\<lparr>l_service := m1, l_inbox := (l_inbox l)(t := [out])\<rparr>, Return ())"
    by (simp add: link_send_def inbox)
  have same: "(l_inbox l)(t := []) = l_inbox l" using inbox by (simp add: fun_eq_iff)
  have read: "link_read t (l\<lparr>l_service := m1, l_inbox := (l_inbox l)(t := [out])\<rparr>) = (l\<lparr>l_service := m1\<rparr>, Return out)"
    by (simp add: link_read_def same)
  show ?thesis
    by (simp add: client_send_command_def create_command_def pack to_vecu8_def bs(1) client_send_message_def
        link_connection_def send read out)
qed

lemma link_poll:
  assumes lib: "lib_roundtrip P S" and inbox: "l_inbox l t = []" and q: "0 < q" "q < - 1"
    and flush: "\<And>delay. service_flush q delay (\<lambda>m. m) (l_service l) = (m3 delay, Return (PollResults rs))"
  shows "\<exists>delay. poll_blocking P (link_connection S socket t) timeout q l = (l\<lparr>l_service := m3 delay\<rparr>, Return rs)"
proof -
  let ?args = "\<lparr>poll_queue_id = q, poll_timeout = ucast (of_int \<lfloor>timeout\<rfloor> :: u64)\<rparr>"
  obtain z where z: "pb_pack P (pb_poll_cmd P (Some ?args)) = Some z" "sv_poll_args S z = ?args"
    using lib_roundtripD(5) [OF lib] by blast
  obtain v where v: "sv_pack S (PollResults rs) = Some v" "pb_results P v = Some rs"
    using lib_roundtripD(4) [OF lib] by blast
  have "run_request (sv_poll_args S) None (\<lambda>m. m) (socket t) \<lparr>command_type = POLL_BLOCKING, command_any = z, blocking = False\<rparr>
      (l_service l) = (m3 (poll_duration ?args), Return (PollResults rs))"
    using flush q(1) by (simp add: run_request_def z(2) poll_queue_def)
  from link_request [where socket = socket and t = t, OF lib inbox z(1) this v(1)] show ?thesis
    using q(2) by (auto simp: poll_blocking_def from_any_def v(2))
qed

section \<open>Property\<close>


section \<open>Example\<close>

text \<open>A library that satisfies the hypotheses: values are numbered, and a number is written as that many bytes.\<close>

instance word :: (len) countable
  by (rule countable_classI [of unat]) (simp add: word_unat_eq_iff)

definition enc :: "'a :: countable \<Rightarrow> vecu8" where
  "enc x = replicate (Suc (to_nat x)) 1"

definition dec :: "vecu8 \<Rightarrow> 'a :: countable" where
  "dec bs = from_nat (length bs - 1)"

lemma dec_enc [simp]: "dec (enc x) = x" "enc x \<noteq> []"
  by (simp_all add: enc_def dec_def)

definition any_enc :: "'a :: countable \<Rightarrow> any" where
  "any_enc x = \<lparr>type_url = [], payload = enc x\<rparr>"

fun type_num :: "proto_command_type \<Rightarrow> int" where
  "type_num CLIENT_COMMAND = - 1"
| "type_num POLL = - 2"
| "type_num POLL_BLOCKING = - 3"
| "type_num PROTO_SHUTDOWN = - 4"
| "type_num (UNKNOWN_TYPE t) = (if t \<ge> 0 then t else t - 4)"

definition num_type :: "int \<Rightarrow> proto_command_type" where
  "num_type n = (if n \<ge> 0 then UNKNOWN_TYPE n else if n = - 1 then CLIENT_COMMAND else if n = - 2 then POLL
     else if n = - 3 then POLL_BLOCKING else if n = - 4 then PROTO_SHUTDOWN else UNKNOWN_TYPE (n + 4))"

lemma num_type_num [simp]: "num_type (type_num t) = t"
  by (cases t) (simp_all add: num_type_def)

definition result_tuple :: "cmd_result \<Rightarrow> u64 \<times> string \<times> vecu8 \<times> bool \<times> string" where
  "result_tuple r = (command_id r, type_url (res_message r), payload (res_message r), res_code r = RESPONSE_OK, res_error r)"

definition tuple_result :: "u64 \<times> string \<times> vecu8 \<times> bool \<times> string \<Rightarrow> cmd_result" where
  "tuple_result t = (case t of (i, u, b, k, e) \<Rightarrow>
     \<lparr>command_id = i, res_message = \<lparr>type_url = u, payload = b\<rparr>,
      res_code = (if k then RESPONSE_OK else RESPONSE_ERROR), res_error = e\<rparr>)"

lemma tuple_result_tuple [simp]: "tuple_result (result_tuple r) = r"
  by (cases r; cases "res_message r"; cases "res_code r") (simp_all add: tuple_result_def result_tuple_def)

definition num_client_lib :: "(any + poll_args option) client_lib" where
  "num_client_lib =
     \<lparr>pb_pack = (\<lambda>m. case m of Inl a \<Rightarrow> Some a | Inr None \<Rightarrow> Some (any_enc True)
        | Inr (Some a) \<Rightarrow> Some (any_enc (poll_queue_id a, poll_timeout a))),
      pb_poll_cmd = Inr, pb_system_state = Inl \<lparr>type_url = [], payload = []\<rparr>,
      pb_serialize = (\<lambda>c. Some (enc (type_num (command_type c), type_url (command_any c), payload (command_any c), blocking c))),
      pb_parse = (\<lambda>b. case dec b of (k, u, p) \<Rightarrow>
        Some \<lparr>code = (if k then RESPONSE_OK else RESPONSE_ERROR), body = \<lparr>type_url = u, payload = p\<rparr>\<rparr>),
      pb_ack = (\<lambda>a. Some (dec (payload a))), pb_results = (\<lambda>a. Some (map tuple_result (dec (payload a)))),
      pb_text = (\<lambda>a. Some (dec (payload a))), pb_pack_result = (\<lambda>r. Some (any_enc (result_tuple r))),
      pb_system_error = runtime_error\<rparr>"

definition num_service_lib :: service_lib where
  "num_service_lib =
     \<lparr>sv_pack = (\<lambda>r. case r of RunCommandAck i q \<Rightarrow> Some (any_enc (i, q))
        | PollResults rs \<Rightarrow> Some (any_enc (map result_tuple rs)) | TextResponse t \<Rightarrow> Some (any_enc t)),
      sv_serialize = (\<lambda>R. Some (enc (code R = RESPONSE_OK, type_url (body R), payload (body R)))),
      sv_to_json = (\<lambda>_. []),
      sv_parse = (\<lambda>b. case dec b of (t, u, p, bl) \<Rightarrow>
        Some \<lparr>command_type = num_type t, command_any = \<lparr>type_url = u, payload = p\<rparr>, blocking = bl\<rparr>),
      sv_json = (\<lambda>_. None),
      sv_poll_args = (\<lambda>a. case dec (payload a) of (q, t) \<Rightarrow> \<lparr>poll_queue_id = q, poll_timeout = t\<rparr>)\<rparr>"

lemma num_lib_roundtrip: "lib_roundtrip num_client_lib num_service_lib"
proof -
  have "(case dec (enc (code R = RESPONSE_OK, type_url (body R), payload (body R))) of (k, u, p) \<Rightarrow>
      Some \<lparr>code = (if k then RESPONSE_OK else RESPONSE_ERROR), body = \<lparr>type_url = u, payload = p\<rparr>\<rparr>) = Some R" for R :: Response
    by (cases R; cases "code R") simp_all
  moreover have "map tuple_result (map result_tuple rs) = rs" for rs by (simp add: comp_def)
  ultimately show ?thesis
    by (simp add: lib_roundtrip_def num_client_lib_def num_service_lib_def any_enc_def)
qed

definition echo_client :: "(unit, unit) link auto_client" where
  "echo_client =
     (auto_client_new \<lparr>l_service = echo_service, l_inbox = (\<lambda>_. [])\<rparr>)
       \<lparr>is_clients := {COMMAND, POLL_CLIENT}, queue_ids := [COMMAND \<mapsto> sock_queue 3]\<rparr>"


end
