(* ===== verification/Windows_Process.thy ===== *)
theory Windows_Process
  imports Injection
begin

text \<open>
  \<^verbatim>\<open>src/src/win32/windows_utils.cpp\<close> and the methods of \<^verbatim>\<open>src/src/process.cpp\<close> that use it: register
  contexts of threads, enumeration of threads, processes and modules, and writes to protected memory.

  The operating system is a parameter: which calls succeed, and what the enumerations return. The theory
  \<open>Injection\<close> lets a debugger change one register of a thread; here the register is changed in a copy of the
  context of the thread, which is read once and written back as a whole.
\<close>

section \<open>Register contexts\<close>

datatype x86Reg = Reg_eax | Reg_ebx | Reg_ecx | Reg_edx | Reg_esi | Reg_edi | Reg_ebp | Reg_esp | Reg_eip

text \<open>The part of \<open>CONTEXT\<close> that \<open>CONTEXT_FULL\<close> selects, without segment registers.\<close>

record CONTEXT =
  cx_regs :: X86Regs
  cx_eip :: u32

fun cx_get :: "x86Reg \<Rightarrow> CONTEXT \<Rightarrow> u32" where
  "cx_get Reg_eax c = eax (cx_regs c)" | "cx_get Reg_ebx c = ebx (cx_regs c)" | "cx_get Reg_ecx c = ecx (cx_regs c)"
| "cx_get Reg_edx c = edx (cx_regs c)" | "cx_get Reg_esi c = esi (cx_regs c)" | "cx_get Reg_edi c = edi (cx_regs c)"
| "cx_get Reg_ebp c = ebp (cx_regs c)" | "cx_get Reg_esp c = esp (cx_regs c)" | "cx_get Reg_eip c = cx_eip c"

fun cx_set :: "x86Reg \<Rightarrow> u32 \<Rightarrow> CONTEXT \<Rightarrow> CONTEXT" where
  "cx_set Reg_eax v c = c\<lparr>cx_regs := (cx_regs c)\<lparr>eax := v\<rparr>\<rparr>"
| "cx_set Reg_ebx v c = c\<lparr>cx_regs := (cx_regs c)\<lparr>ebx := v\<rparr>\<rparr>"
| "cx_set Reg_ecx v c = c\<lparr>cx_regs := (cx_regs c)\<lparr>ecx := v\<rparr>\<rparr>"
| "cx_set Reg_edx v c = c\<lparr>cx_regs := (cx_regs c)\<lparr>edx := v\<rparr>\<rparr>"
| "cx_set Reg_esi v c = c\<lparr>cx_regs := (cx_regs c)\<lparr>esi := v\<rparr>\<rparr>"
| "cx_set Reg_edi v c = c\<lparr>cx_regs := (cx_regs c)\<lparr>edi := v\<rparr>\<rparr>"
| "cx_set Reg_ebp v c = c\<lparr>cx_regs := (cx_regs c)\<lparr>ebp := v\<rparr>\<rparr>"
| "cx_set Reg_esp v c = c\<lparr>cx_regs := (cx_regs c)\<lparr>esp := v\<rparr>\<rparr>"
| "cx_set Reg_eip v c = c\<lparr>cx_eip := v\<rparr>"

definition zero_context :: CONTEXT where
  "zero_context =
     \<lparr>cx_regs = \<lparr>eflags = 0, edi = 0, esi = 0, ebp = 0, esp = 0, ebx = 0, edx = 0, ecx = 0, eax = 0\<rparr>, cx_eip = 0\<rparr>"

record ThreadContext =
  tc_acquired :: bool
  tc_data :: CONTEXT

definition ThreadContext_new :: ThreadContext where
  "ThreadContext_new = \<lparr>tc_acquired = False, tc_data = zero_context\<rparr>"

text \<open>\<open>GetThreadContext\<close> and \<open>SetThreadContext\<close> on a thread.\<close>

definition context_of :: "thread_ctx \<Rightarrow> CONTEXT" where
  "context_of T = \<lparr>cx_regs = th_regs T, cx_eip = th_eip T\<rparr>"

definition put_context :: "CONTEXT \<Rightarrow> thread_ctx \<Rightarrow> thread_ctx" where
  "put_context c T = T\<lparr>th_regs := cx_regs c, th_eip := cx_eip c\<rparr>"

text \<open>The result of \<open>GetThreadContext\<close> (\<open>ok\<close>) is returned, but nobody looks at it: the context counts as
  acquired also when it could not be read.\<close>

definition acquire_thread_context :: "bool \<Rightarrow> thread_ctx \<Rightarrow> ThreadContext \<Rightarrow> ThreadContext" where
  "acquire_thread_context ok T tc =
     (if tc_acquired tc then tc
      else \<lparr>tc_acquired = True, tc_data = (if ok then context_of T else tc_data tc)\<rparr>)"

definition get_pgpr :: "bool \<Rightarrow> x86Reg \<Rightarrow> thread_ctx \<Rightarrow> ThreadContext \<Rightarrow> ThreadContext \<times> u32" where
  "get_pgpr ok r T tc = (let tc1 = acquire_thread_context ok T tc in (tc1, cx_get r (tc_data tc1)))"

text \<open>\<open>Thread::set_gpr\<close> for the thread with id \<open>i\<close> of the target.\<close>

definition save_context :: "permissions \<Rightarrow> u32 \<Rightarrow> ThreadContext \<Rightarrow> target \<Rightarrow> target \<times> unit outcome" where
  "save_context P i tc g =
     (if can_set_context P i then (g\<lparr>tg_threads := upd_thread i (put_context (tc_data tc)) (tg_threads g)\<rparr>, Return ())
      else (g, Raise (sys_error P ''SetThreadContext'')))"

definition thread_set_gpr ::
  "permissions \<Rightarrow> bool \<Rightarrow> x86Reg \<Rightarrow> u32 \<Rightarrow> thread_ctx \<Rightarrow> ThreadContext \<Rightarrow> target \<Rightarrow> target \<times> ThreadContext outcome"
where
  "thread_set_gpr P ok r v T tc g =
     (let tc1 = acquire_thread_context ok T tc; tc2 = tc1\<lparr>tc_data := cx_set r v (tc_data tc1)\<rparr>
      in sbind (save_context P (th_id T) tc2 g) (\<lambda>_ g. (g, Return tc2)))"

text \<open>\<open>inject_code\<close> with the object \<open>Thread T(thread_id)\<close> that keeps the context.\<close>

definition inject_code_ctx ::
  "permissions \<Rightarrow> bool \<Rightarrow> u32 \<Rightarrow> thread_ctx \<Rightarrow> vecu8 \<Rightarrow> target \<Rightarrow> target \<times> unit outcome"
where
  "inject_code_ctx P ok sc_addr T shellcode g =
     sbind (g, open_thread P T) (\<lambda>_ g.
     let (tc1, eip0) = get_pgpr ok Reg_eip T ThreadContext_new;
         (tc2, esp0) = get_pgpr ok Reg_esp T tc1;
         sp = esp0 - 4
     in sbind (write_memory P sp (le32 eip0) g) (\<lambda>_ g.
        sbind (write_memory P sc_addr shellcode g) (\<lambda>_ g.
        sbind (thread_set_gpr P ok Reg_esp sp T tc2 g) (\<lambda>tc3 g.
        sbind (thread_set_gpr P ok Reg_eip sc_addr T tc3 g) (\<lambda>_ g. (g, Return ()))))))"

section \<open>Enumerations\<close>

text \<open>\<open>windows_utils::for_each_thread\<close>: no snapshot, or an empty one, is an error. The callback gets the id
  and the owner of a thread; here it works on the thread itself.\<close>

fun each_entry ::
  "(thread_ctx \<Rightarrow> thread_ctx outcome) \<Rightarrow> thread_ctx list \<Rightarrow> thread_ctx list \<times> unit outcome"
where
  "each_entry callback [] = ([], Return ())"
| "each_entry callback (te # tes) =
     (case callback te of
        Return te' \<Rightarrow> (case each_entry callback tes of (tes', r) \<Rightarrow> (te' # tes', r))
      | Raise e \<Rightarrow> (te # tes, Raise e)
      | Undefined \<Rightarrow> (te # tes, Undefined))"

definition win_for_each_thread ::
  "bool \<Rightarrow> (thread_ctx \<Rightarrow> thread_ctx outcome) \<Rightarrow> thread_ctx list \<Rightarrow> thread_ctx list \<times> unit outcome"
where
  "win_for_each_thread snapshot callback Ts =
     (if \<not> snapshot then (Ts, Raise (runtime_error ''CreateToolHelp32Snapshot''))
      else if Ts = [] then (Ts, Raise (runtime_error ''Thread32First''))
      else each_entry callback Ts)"

definition process_for_each_thread ::
  "permissions \<Rightarrow> bool \<Rightarrow> u32 \<Rightarrow> (thread_ctx \<Rightarrow> thread_ctx outcome) \<Rightarrow> thread_ctx list \<Rightarrow> thread_ctx list \<times> unit outcome"
where
  "process_for_each_thread P snapshot pid f Ts =
     win_for_each_thread snapshot
       (\<lambda>te. if th_owner te = pid then obind (open_thread P te) (\<lambda>_. f te) else Return te) Ts"

text \<open>\<open>EnumProcesses\<close> is told that the array has 1024 bytes, so it returns at most 256 ids.\<close>

definition enum_processes :: "u32 list \<Rightarrow> u32 list" where
  "enum_processes pids = take (1024 div 4) pids"

text \<open>\<open>get_process_name\<close>: \<open>image_name\<close> is what the system knows of a process that can be opened.\<close>

definition get_process_name :: "(u32 \<Rightarrow> string option) \<Rightarrow> u32 \<Rightarrow> string" where
  "get_process_name image_name pid = (case image_name pid of None \<Rightarrow> ''<unknown>'' | Some n \<Rightarrow> n)"

definition process_get_pid :: "u32 list \<Rightarrow> (u32 \<Rightarrow> string option) \<Rightarrow> string \<Rightarrow> u32" where
  "process_get_pid pids image_name name =
     get_pid (map (\<lambda>pid. (pid, get_process_name image_name pid)) (enum_processes pids)) name"

text \<open>\<open>EnumProcessModules\<close> fills an array of 1024 handles and reports the number of bytes that all modules
  need; the loop reads that many handles. A module is given by its file name, if that can be read.\<close>

definition list_loaded_modules :: "string option list option \<Rightarrow> string list outcome" where
  "list_loaded_modules mods =
     (case mods of
        None \<Rightarrow> Return []
      | Some ms \<Rightarrow> (if length ms \<le> 1024 then Return (List.map_filter (\<lambda>x. x) ms) else Undefined))"

section \<open>Writes to protected memory\<close>

text \<open>The protection of every address; \<open>writable\<close> tells the protections that allow writing.\<close>

record local_mem =
  lm_ram :: mem
  lm_prot :: "u32 \<Rightarrow> nat"

definition in_region :: "u32 \<Rightarrow> nat \<Rightarrow> u32 \<Rightarrow> bool" where
  "in_region base sz x \<longleftrightarrow> unat (x - base) < sz"

definition PAGE_EXECUTE_READWRITE :: nat where
  "PAGE_EXECUTE_READWRITE = 0x40"

definition vprotect :: "(u32 \<Rightarrow> nat \<Rightarrow> nat \<Rightarrow> bool) \<Rightarrow> u32 \<Rightarrow> nat \<Rightarrow> nat \<Rightarrow> local_mem \<Rightarrow> local_mem \<times> nat outcome" where
  "vprotect ok base sz protection m =
     (if ok base sz protection
      then (m\<lparr>lm_prot := (\<lambda>x. if in_region base sz x then protection else lm_prot m x)\<rparr>, Return (lm_prot m base))
      else (m, Raise (runtime_error ''VirtualProtect'')))"

text \<open>\<open>query\<close> is \<open>VirtualQuery\<close>: the region of pages that an address belongs to. Writing to a page that is not
  writable is an access violation.\<close>

definition write_memory_local ::
  "(u32 \<Rightarrow> (u32 \<times> nat) option) \<Rightarrow> (u32 \<Rightarrow> nat \<Rightarrow> nat \<Rightarrow> bool) \<Rightarrow> (nat \<Rightarrow> bool) \<Rightarrow> u32 \<Rightarrow> vecu8 \<Rightarrow> local_mem
     \<Rightarrow> local_mem \<times> unit outcome"
where
  "write_memory_local query ok writable dest bytes m =
     (case query dest of
        None \<Rightarrow> (m, Raise (runtime_error ''VirtualQuery''))
      | Some (base, sz) \<Rightarrow>
          sbind (vprotect ok base sz PAGE_EXECUTE_READWRITE m) (\<lambda>prot_old m.
            if list_all (\<lambda>i. writable (lm_prot m (dest + of_nat i))) [0..<length bytes]
            then sbind (vprotect ok base sz prot_old (m\<lparr>lm_ram := store_bytes (lm_ram m) dest bytes\<rparr>))
                   (\<lambda>_ m. (m, Return ()))
            else (m, Undefined)))"

section \<open>Lemmas\<close>

lemma upd_thread_comp: "(\<And>X. th_id (f X) = th_id X) \<Longrightarrow> upd_thread i h (upd_thread i f Ts) = upd_thread i (\<lambda>X. h (f X)) Ts"
  by (simp add: upd_thread_def)

text \<open>With distinct ids, only the thread itself is updated.\<close>

lemma upd_thread_cong:
  assumes "distinct (map th_id Ts)" and "T \<in> set Ts" and "f T = h T"
  shows "upd_thread (th_id T) f Ts = upd_thread (th_id T) h Ts"
proof -
  have "X = T" if "X \<in> set Ts" "th_id X = th_id T" for X
    using assms(1,2) that by (auto simp: distinct_map inj_on_def)
  then show ?thesis using assms(3) by (auto simp: upd_thread_def)
qed

lemma cx_set_get: "cx_get r (cx_set q v c) = (if r = q then v else cx_get r c)"
  by (cases r; cases q) simp_all




text \<open>A context that cannot be read counts as read: its registers are zero. Setting one register then
  overwrites all others by zero.\<close>

lemma set_gpr_unread_context:
  assumes "can_set_context P (th_id T)"
  shows "thread_set_gpr P False Reg_eip v T ThreadContext_new g =
    (g\<lparr>tg_threads := upd_thread (th_id T) (put_context (zero_context\<lparr>cx_eip := v\<rparr>)) (tg_threads g)\<rparr>,
     Return \<lparr>tc_acquired = True, tc_data = zero_context\<lparr>cx_eip := v\<rparr>\<rparr>)"
  using assms by (simp add: thread_set_gpr_def acquire_thread_context_def ThreadContext_new_def save_context_def Let_def)

text \<open>The enumeration of the threads of a process, on a snapshot of at least one thread, is the loop of \<open>Injection\<close>.\<close>

lemma each_entry_for_each:
  "each_entry (\<lambda>te. if th_owner te = pid then obind (open_thread P te) (\<lambda>_. f te) else Return te) Ts = for_each_thread P pid f Ts"
  by (induction Ts) (auto split: outcome.splits prod.splits)

lemma process_for_each_thread_eq:
  "Ts \<noteq> [] \<Longrightarrow> process_for_each_thread P True pid f Ts = for_each_thread P pid f Ts"
  by (simp add: process_for_each_thread_def win_for_each_thread_def each_entry_for_each)

text \<open>A process is found by name exactly when one of the first 256 processes has that name.\<close>

lemma find_if_map: "find_if Q (map f xs) = map_option f (find_if (\<lambda>x. Q (f x)) xs)"
  by (induction xs) auto

text \<open>C40: A process is found by the name of its program if and only if it is among the first 256 processes that
  the system enumerates (the array for 1024 ids is described by its length in place of its size in
  bytes); the id that is returned belongs to a process of that name. Otherwise the result is zero, which
  stands for no process.\<close>

theorem process_lookup_bound:
  assumes "proc_basename (get_process_name image_name 0) \<noteq> name"
  shows "let pid = process_get_pid pids image_name name;
      named = (\<lambda>p. proc_basename (get_process_name image_name p) = name)
    in (pid \<noteq> 0 \<longleftrightarrow> (\<exists>i < min 256 (length pids). named (pids ! i)))
      \<and> (pid \<noteq> 0 \<longrightarrow> pid \<in> set pids \<and> named pid)"
proof -
  let ?named = "\<lambda>p. proc_basename (get_process_name image_name p) = name"
  have eq: "process_get_pid pids image_name name = (case find_if ?named (take 256 pids) of Some p \<Rightarrow> p | None \<Rightarrow> 0)"
    by (simp add: process_get_pid_def get_pid_def enum_processes_def find_if_map split: option.splits)
  have ex: "(\<exists>i < min 256 (length pids). ?named (pids ! i)) \<longleftrightarrow> (\<exists>p \<in> set (take 256 pids). ?named p)"
    unfolding set_conv_nth by force
  show ?thesis
  proof (cases "find_if ?named (take 256 pids)")
    case None
    then have "\<not> (\<exists>p \<in> set (take 256 pids). ?named p)" by (simp add: find_if_None_iff)
    then show ?thesis unfolding Let_def eq ex by (simp add: None)
  next
    case (Some p)
    from find_if_Some_D [OF this] have p: "p \<in> set (take 256 pids)" "?named p" by auto
    then have "p \<in> set pids" by (auto dest: in_set_takeD)
    have "p \<noteq> 0" using assms p(2) by auto
    then show ?thesis unfolding Let_def eq ex using Some p \<open>p \<in> set pids\<close> by auto
  qed
qed

definition demo_image :: "u32 \<Rightarrow> string option" where
  "demo_image p = (if p = 42 then Some (''C:'' @ [CHR 0x5C] @ ''game.exe'') else None)"

theorem process_lookup_bound_witness:
  "process_get_pid [0, 4, 42] demo_image ''game.exe'' \<noteq> 0
   \<and> process_get_pid ([0, 4] @ replicate 254 4 @ [42]) demo_image ''game.exe'' = 0"
proof -
  have d: "proc_basename (get_process_name demo_image p) = ''game.exe'' \<longleftrightarrow> p = 42" for p
    by (simp add: get_process_name_def demo_image_def proc_basename_def rfind_def)
  have b: "proc_basename (get_process_name demo_image 0) \<noteq> ''game.exe''" by (simp add: d)
  have "\<exists>i < min 256 (length [0, 4, 42 :: u32]). [0, 4, 42 :: u32] ! i = 42"
    by (rule exI [of _ 2]) simp
  moreover have "\<not> (\<exists>i < min 256 (length ([0, 4] @ replicate 254 4 @ [42 :: u32])). ([0, 4] @ replicate 254 4 @ [42 :: u32]) ! i = 42)"
    by (auto simp: nth_append nth_Cons')
  ultimately show ?thesis
    using process_lookup_bound [OF b, of "[0, 4, 42]"] process_lookup_bound [OF b, of "[0, 4] @ replicate 254 4 @ [42]"]
    unfolding Let_def d by blast
qed

text \<open>A module list of more than 1024 entries is read beyond the end of the array.\<close>

lemma many_modules_undefined: "1024 < length ms \<Longrightarrow> list_loaded_modules (Some ms) = Undefined"
  by (simp add: list_loaded_modules_def)

text \<open>A local write to a region of memory with one protection changes the written bytes and nothing else:
  afterwards every page has the protection it had before, although the region is made writable
  for the copy.\<close>

lemma write_local_keeps_protection:
  assumes query: "query dest = Some (base, sz)"
    and region: "\<And>x. in_region base sz x \<Longrightarrow> lm_prot m x = lm_prot m base"
    and inside: "\<And>i. i < length bytes \<Longrightarrow> in_region base sz (dest + of_nat i)"
    and ok: "ok base sz PAGE_EXECUTE_READWRITE" "ok base sz (lm_prot m base)" and w: "writable PAGE_EXECUTE_READWRITE"
  shows "write_memory_local query ok writable dest bytes m = (m\<lparr>lm_ram := store_bytes (lm_ram m) dest bytes\<rparr>, Return ())"
proof -
  let ?p = "\<lambda>x. if in_region base sz x then PAGE_EXECUTE_READWRITE else lm_prot m x"
  have "list_all (\<lambda>i. writable (?p (dest + of_nat i))) [0..<length bytes]"
    using inside w by (simp add: list_all_iff)
  moreover have "(\<lambda>x. if in_region base sz x then lm_prot m base else ?p x) = lm_prot m"
    using region by (auto simp: fun_eq_iff)
  ultimately show ?thesis using query ok by (simp add: write_memory_local_def vprotect_def cong: if_cong)
qed

text \<open>When the original protection cannot be restored, the memory has been written and stays writable.\<close>

lemma write_local_left_writable:
  assumes "query dest = Some (base, sz)" and "ok base sz PAGE_EXECUTE_READWRITE" and "\<not> ok base sz (lm_prot m base)"
    and "\<And>i. i < length bytes \<Longrightarrow> in_region base sz (dest + of_nat i)" and "writable PAGE_EXECUTE_READWRITE" and "in_region base sz x"
  shows "\<exists>m1. write_memory_local query ok writable dest bytes m = (m1, Raise (runtime_error ''VirtualProtect''))
    \<and> lm_prot m1 x = PAGE_EXECUTE_READWRITE \<and> lm_ram m1 = store_bytes (lm_ram m) dest bytes"
  using assms by (simp add: write_memory_local_def vprotect_def list_all_iff)

end
