(* ===== verification/Startup.thy ===== *)
theory Startup
  imports Instrumentation_Service Builtin_Commands Windows_Process
begin

text \<open>
  \<^verbatim>\<open>src/src/is_context.cpp\<close> (\<open>handle_cmd_wait\<close>, \<open>make_is\<close>, \<open>inject_dll\<close>), \<^verbatim>\<open>src/src/yrclient_dll.cpp\<close> and
  \<^verbatim>\<open>src/src/context.cpp\<close>: how the library comes up inside the game.

  The service is created with all commands; then the initialising thread sends itself the commands
  that install the hooks and attach the callbacks, and waits for each of them. The handlers of
  these two commands are the definitions of \<open>Builtin_Commands\<close> and \<open>Callbacks\<close>; other commands are a
  parameter. The world of the handlers holds the hooks, the data of the game and the flag \<open>done\<close>
  that the initialising thread waits for.
\<close>

section \<open>Commands\<close>

datatype start_fn = FnCreateHooks | FnCreateCallbacks | FnDone | FnCommand string

record start_world =
  sw_hooks :: hook_world
  sw_data :: GameDataYR
  sw_done :: bool

text \<open>The surroundings: permissions, code buffers, thread ids, the environment of the process, the library's
  packing of the two commands, and the other commands.\<close>

record start_env =
  se_perms :: permissions
  se_pid :: u32
  se_buffers :: code_buffers
  se_io_tids :: "u32 list"
  se_tid :: u32
  se_environment :: environment
  se_time :: string
  se_pack_hooks :: "bool \<Rightarrow> YRHook list \<Rightarrow> any option"
  se_unpack_hooks :: "any \<Rightarrow> (bool \<times> YRHook list) option"
  se_pack_callbacks :: "any option"
  se_other :: "string \<Rightarrow> start_world \<Rightarrow> (ISArg, start_fn) command \<Rightarrow> start_world \<times> (ISArg, start_fn) command \<times> exn option"

text \<open>A handler that does not return, or is undefined, has no value in the interpreter of handlers; the
  exception \<open>stuck\<close> stands for it, and the theorems are about runs in which it does not occur.\<close>

definition stuck :: exn where
  "stuck = runtime_error ''handler did not return''"

definition run_CreateHooks :: "start_env \<Rightarrow> any \<Rightarrow> start_world \<Rightarrow> start_world \<times> exn option" where
  "run_CreateHooks E x w =
     (case se_unpack_hooks E x of
        None \<Rightarrow> (w, Some (runtime_error ''Could not unpack message''))
      | Some (no_suspend_threads, hs) \<Rightarrow>
          (case CreateHooks (se_perms E) (se_pid E) (se_buffers E) (se_io_tids E) (se_tid E) no_suspend_threads hs (sw_hooks w) of
             (hw, Some (Return _)) \<Rightarrow> (w\<lparr>sw_hooks := hw\<rparr>, None)
           | (hw, Some (Raise e)) \<Rightarrow> (w\<lparr>sw_hooks := hw\<rparr>, Some e)
           | (hw, _) \<Rightarrow> (w\<lparr>sw_hooks := hw\<rparr>, Some stuck)))"

definition run_CreateCallbacks :: "start_env \<Rightarrow> start_world \<Rightarrow> start_world \<times> exn option" where
  "run_CreateCallbacks E w =
     (case create_callbacks (se_environment E) (se_time E) (sw_data w, hw_hooks (sw_hooks w)) of
        ((D, hs), r) \<Rightarrow>
          (w\<lparr>sw_data := D, sw_hooks := (sw_hooks w)\<lparr>hw_hooks := hs\<rparr>\<rparr>,
           case r of Return _ \<Rightarrow> None | Raise e \<Rightarrow> Some e | Undefined \<Rightarrow> Some stuck))"

definition start_call :: "start_env \<Rightarrow> (ISArg, start_fn, start_world) interp" where
  "start_call E h p w c =
     (case h of
        FnCreateHooks \<Rightarrow> (case run_CreateHooks E (arg_msg (command_data c)) w of (w', e) \<Rightarrow> (w', c, e))
      | FnCreateCallbacks \<Rightarrow> (case run_CreateCallbacks E w of (w', e) \<Rightarrow> (w', c, e))
      | FnDone \<Rightarrow> (w\<lparr>sw_done := True\<rparr>, c, None)
      | FnCommand s \<Rightarrow> se_other E s w c)"

section \<open>make_is\<close>

type_synonym start_service = "(start_fn, start_world) service"

text \<open>\<open>done.wait(true)\<close>: the worker makes steps until the flag is set. The result is \<open>None\<close> when that
  takes more than \<open>n\<close> steps or the worker has nothing left to do.\<close>

fun wait_done :: "start_env \<Rightarrow> nat \<Rightarrow> start_service \<Rightarrow> start_service outcome option" where
  "wait_done E n m =
     (if sw_done (world m) then Some (Return m)
      else case n of
             0 \<Rightarrow> None
           | Suc k \<Rightarrow>
               (case worker_step (start_call E) m of
                  None \<Rightarrow> None
                | Some (Return m1) \<Rightarrow> wait_done E k m1
                | Some r \<Rightarrow> Some r))"

declare wait_done.simps [simp del]

text \<open>The flag is a local variable of \<open>handle_cmd_wait\<close>. The queue is \<open>0\<close> and the result is discarded.\<close>

definition handle_cmd_wait :: "start_env \<Rightarrow> nat \<Rightarrow> any option \<Rightarrow> start_service \<Rightarrow> start_service outcome option" where
  "handle_cmd_wait E n msg m =
     (case create_command (\<lambda>x. x) msg CLIENT_COMMAND of
        Return CC \<Rightarrow>
          (case handle_cmd 0 CC True (Some FnDone) (m\<lparr>world := (world m)\<lparr>sw_done := False\<rparr>\<rparr>) of
             (m1, Return _) \<Rightarrow> wait_done E n m1
           | (m1, Raise e) \<Rightarrow> Some (Raise e)
           | (m1, Undefined) \<Rightarrow> Some Undefined)
      | Raise e \<Rightarrow> Some (Raise e)
      | Undefined \<Rightarrow> Some Undefined)"

text \<open>The commands of the three tables; a later table overrides an earlier one.\<close>

definition all_commands :: "(string \<times> 'h) list \<Rightarrow> (string \<times> 'h) list \<Rightarrow> (string \<times> 'h) list \<Rightarrow> (string \<times> 'h) list" where
  "all_commands builtin yr game = builtin @ yr @ game"

definition make_is ::
  "start_env \<Rightarrow> nat \<Rightarrow> (string \<times> start_fn) list \<Rightarrow> bool \<Rightarrow> start_world \<Rightarrow> start_service outcome option"
where
  "make_is E n cmds without_hooks w =
     (case cm_start (cm_init w) of
        Return m0 \<Rightarrow>
          (let m = add_commands cmds m0
           in if without_hooks then Some (Return m)
              else case handle_cmd_wait E n (se_pack_hooks E True gg_hooks) m of
                     Some (Return m1) \<Rightarrow> handle_cmd_wait E n (se_pack_callbacks E) m1
                   | r \<Rightarrow> r)
      | Raise e \<Rightarrow> Some (Raise e)
      | Undefined \<Rightarrow> Some Undefined)"

section \<open>Initialisation of the library\<close>

text \<open>\<open>initialize\<close>: the mutex is locked and unlocked by hand. \<open>None\<close> stands for waiting for the mutex for ever.
  \<open>get_context\<close> may throw.\<close>

record 'c dll_state =
  g_context :: "'c option"
  g_lock :: bool

definition initialize ::
  "(u32 \<Rightarrow> u32 \<Rightarrow> string option \<Rightarrow> bool \<Rightarrow> 'c outcome) \<Rightarrow> string option \<Rightarrow> u32 \<Rightarrow> u32 \<Rightarrow> bool \<Rightarrow> 'c dll_state
     \<Rightarrow> ('c dll_state \<times> unit outcome) option"
where
  "initialize get_context hosts_regex max_cl prt without_hooks s =
     (if g_lock s then None
      else case g_context s of
             Some c \<Rightarrow> Some (s, Return ())
           | None \<Rightarrow>
               (case get_context max_cl prt hosts_regex without_hooks of
                  Return c \<Rightarrow> Some (s\<lparr>g_context := Some c\<rparr>, Return ())
                | Raise e \<Rightarrow> Some (s\<lparr>g_lock := True\<rparr>, Raise e)
                | Undefined \<Rightarrow> Some (s, Undefined)))"

text \<open>\<open>init_iservice\<close>: the variable \<open>RA2YRCPP_PORT\<close> overrides the port; \<open>stol\<close> is the number it denotes.\<close>

definition init_iservice ::
  "(u32 \<Rightarrow> u32 \<Rightarrow> string option \<Rightarrow> bool \<Rightarrow> 'c outcome) \<Rightarrow> (string \<Rightarrow> int outcome) \<Rightarrow> string option \<Rightarrow> string option
     \<Rightarrow> u32 \<Rightarrow> u32 \<Rightarrow> u32 \<Rightarrow> 'c dll_state \<Rightarrow> ('c dll_state \<times> unit outcome) option"
where
  "init_iservice get_context stol hosts_regex tcp_port max_cl prt without_hooks s =
     (case (case tcp_port of Some t \<Rightarrow> obind (stol t) (\<lambda>i. Return (of_int i)) | None \<Rightarrow> Return prt) of
        Return q \<Rightarrow> initialize get_context hosts_regex max_cl q (without_hooks > 0) s
      | Raise e \<Rightarrow> Some (s, Raise e)
      | Undefined \<Rightarrow> Some (s, Undefined))"

section \<open>inject_dll\<close>

text \<open>\<open>call_until\<close> with the search for the process: \<open>polls\<close> are the processes and their names at the successive
  calls until the deadline; the loop runs while the function returns true, so while the
  process is not found.\<close>

type_synonym process_snapshot = "u32 list \<times> (u32 \<Rightarrow> string option)"

abbreviation snapshot_pid :: "process_snapshot \<Rightarrow> string \<Rightarrow> u32" where
  "snapshot_pid p \<equiv> process_get_pid (fst p) (snd p)"

fun find_process :: "process_snapshot list \<Rightarrow> string \<Rightarrow> u32" where
  "find_process [] name = 0"
| "find_process [p] name = snapshot_pid p name"
| "find_process (p # ps) name = (if snapshot_pid p name = 0 then find_process ps name else snapshot_pid p name)"

fun contains :: "string \<Rightarrow> string \<Rightarrow> bool" where
  "contains pat [] \<longleftrightarrow> pat = []"
| "contains pat (c # cs) \<longleftrightarrow> take (length pat) (c # cs) = pat \<or> contains pat cs"

record inject_options =
  io_process_name :: string
  io_force :: bool

text \<open>\<open>asm\<close> gives the bytes of the generated code, \<open>modules\<close> what \<open>EnumProcessModules\<close> returns for a process, \<open>sc_addr\<close> the memory
  that is allocated in the target.\<close>

definition inject_dll ::
  "permissions \<Rightarrow> (instr list \<Rightarrow> vecu8) \<Rightarrow> (u32 \<Rightarrow> string option list option) \<Rightarrow> process_snapshot list \<Rightarrow> ProcAddrs \<Rightarrow> u32 \<Rightarrow> u32
     \<Rightarrow> string \<Rightarrow> u32 \<Rightarrow> u32 \<Rightarrow> inject_options \<Rightarrow> target \<Rightarrow> target \<times> unit outcome"
where
  "inject_dll P asm modules polls pa sc_addr pid0 path max_cl prt opt g =
     (let pid = (if pid0 = 0 then find_process polls (io_process_name opt) else pid0)
      in if pid = 0 then (g, Raise (runtime_error (''process '' @ io_process_name opt @ '' not found'')))
         else
           sbind (g, open_process P pid) (\<lambda>_ g.
           sbind (g, list_loaded_modules (modules pid)) (\<lambda>mods g.
             if (\<exists>a \<in> set mods. contains path a) \<and> \<not> io_force opt then (g, Return ())
             else suspend_inject_resume P pid sc_addr
                    (asm (DLLLoader \<lparr>PA = pa, path_dll = path, name_init = ''init_iservice'', max_clients = max_cl,
                       ld_port = prt, indirect = False, no_init_hooks = False\<rparr>)) g)))"

section \<open>Lemmas\<close>

text \<open>Between two commands of the start: nothing is queued, and the worker is idle or about to put away a
  command whose result is discarded.\<close>

definition ready :: "start_service \<Rightarrow> bool" where
  "ready m \<longleftrightarrow> active m \<and> work_queue m = []
     \<and> (case worker_state m of
          WIdle \<Rightarrow> True
        | WRan p e \<Rightarrow> p < next_addr m \<and> (case store m p of None \<Rightarrow> False | Some c \<Rightarrow> discard_result c))"

text \<open>The command that \<open>handle_cmd_wait\<close> queues.\<close>

definition start_cmd :: "any \<Rightarrow> start_fn \<Rightarrow> start_service \<Rightarrow> (ISArg, start_fn) command" where
  "start_cmd x h m =
     (new_command \<lparr>bd_name = message_type x, bd_queue_id = 0, bd_task_id = ucast (command_counter m + 1),
        bd_queue_size = 0, bd_type = USER\<rparr> (Some h) \<lparr>arg_msg = x\<rparr> (Some FnDone))\<lparr>discard_result := True\<rparr>"

definition queued :: "any \<Rightarrow> start_fn \<Rightarrow> start_service \<Rightarrow> start_service" where
  "queued x h m =
     m\<lparr>world := (world m)\<lparr>sw_done := False\<rparr>, command_counter := command_counter m + 1,
       next_addr := Suc (next_addr m), store := (store m)(next_addr m \<mapsto> start_cmd x h m), work_queue := [next_addr m]\<rparr>"

lemma handle_cmd_wait_eq:
  assumes "ready m" and "handlers m (message_type x) = Some h"
  shows "handle_cmd_wait E n (Some x) m = wait_done E n (queued x h m)"
  using assms
  by (simp add: handle_cmd_wait_def create_command_def handle_cmd_def message_type_def [symmetric] make_command_def
      map_at_def alloc_cmd_def upd_cmd_def enqueue_command_def ready_def queued_def start_cmd_def new_command_def Let_def)

text \<open>The worker puts away the previous command, if there is one.\<close>

lemma put_away:
  assumes "ready m"
  shows "worker_state (queued x h m) = WIdle \<or> (\<exists>m1. worker_step (start_call E) (queued x h m) = Some (Return m1)
    \<and> worker_state m1 = WIdle \<and> active m1 \<and> work_queue m1 = [next_addr m] \<and> next_addr m1 = Suc (next_addr m)
    \<and> store m1 (next_addr m) = Some (start_cmd x h m) \<and> handlers m1 = handlers m
    \<and> world m1 = (world m)\<lparr>sw_done := False\<rparr>)"
proof (cases "worker_state m")
  case WIdle
  then show ?thesis by (simp add: queued_def)
next
  case (WRan p e)
  then obtain c where c: "store m p = Some c" "discard_result c" "p < next_addr m"
    using assms by (auto simp: ready_def split: option.splits)
  then have "discard_result (user_command_code e c)"
    by (simp add: user_command_code_def set_error_def split: option.splits)
  then show ?thesis
    using assms WRan c
    by (simp add: queued_def worker_step_def worker_finish_def user_command_publish_def Let_def ready_def)
qed

text \<open>The worker runs the command, and its callback when the handler returned.\<close>

lemma run_start_cmd:
  assumes m: "worker_state m = WIdle" "active m" "work_queue m = [p]" "store m p = Some c" "p < next_addr m"
    and c: "cmd_type c = USER" "cmd_handler c = Some h" "done_callback c = Some FnDone" "discard_result c"
    and h: "start_call E h p (world m) (c\<lparr>result_code := RC_NONE\<rparr>) = (w, c\<lparr>result_code := RC_NONE\<rparr>, e)"
  shows "\<exists>m1. worker_step (start_call E) m = Some (Return m1)
    \<and> world m1 = (if e = None then w\<lparr>sw_done := True\<rparr> else w) \<and> ready m1 \<and> worker_state m1 = WRan p e
    \<and> handlers m1 = handlers m \<and> next_addr m1 = next_addr m"
proof -
  let ?c = "c\<lparr>result_code := RC_NONE\<rparr>"
  have fn_done: "start_call E FnDone p w' c' = (w'\<lparr>sw_done := True\<rparr>, c', None)" for w' c' by (simp add: start_call_def)
  have "cmd_run (start_call E) p (world m) ?c = (if e = None then w\<lparr>sw_done := True\<rparr> else w, ?c, e)"
    by (cases e) (simp_all add: cmd_run_def invoke_def c h fn_done)
  then have "worker_pick (start_call E) m = Return (m\<lparr>work_queue := [],
      world := (if e = None then w\<lparr>sw_done := True\<rparr> else w), store := (store m)(p \<mapsto> ?c), worker_state := WRan p e\<rparr>)"
    using m c by (simp add: worker_pick_def user_command_run_def)
  then show ?thesis using m c by (simp add: worker_step_def ready_def)
qed

lemma start_cmd_simps [simp]:
  "cmd_type (start_cmd x h m) = USER" "cmd_handler (start_cmd x h m) = Some h"
  "done_callback (start_cmd x h m) = Some FnDone" "discard_result (start_cmd x h m)"
  "command_data (start_cmd x h m) = \<lparr>arg_msg = x\<rparr>"
  by (simp_all add: start_cmd_def new_command_def)

lemma wait_done_step:
  assumes "\<not> sw_done (world m)" and "worker_step (start_call E) m = Some (Return m1)"
  shows "wait_done E (Suc n) m = wait_done E n m1"
  using assms by (simp add: wait_done.simps [of E "Suc n"])

lemma wait_done_over: "sw_done (world m) \<Longrightarrow> wait_done E n m = Some (Return m)"
  by (simp add: wait_done.simps)

lemma wait_done_blocked:
  assumes "\<not> sw_done (world m)" and "worker_step (start_call E) m = None"
  shows "wait_done E n m = None"
  using assms by (cases n) (simp_all add: wait_done.simps)

text \<open>After at most two steps of the worker the command of \<open>handle_cmd_wait\<close> has run.\<close>

lemma start_cmd_reached:
  assumes rdy: "ready m" and h: "handlers m (message_type x) = Some h"
    and run: "\<And>c. command_data c = \<lparr>arg_msg = x\<rparr> \<Longrightarrow>
      start_call E h (next_addr m) ((world m)\<lparr>sw_done := False\<rparr>) c = (w, c, e)"
  shows "\<exists>m1 k. k \<le> 2 \<and> (\<forall>n. wait_done E (k + n) (queued x h m) = wait_done E n m1) \<and> (\<forall>n < k. wait_done E n (queued x h m) = None)
    \<and> world m1 = (if e = None then w\<lparr>sw_done := True\<rparr> else w) \<and> ready m1 \<and> worker_state m1 = WRan (next_addr m) e
    \<and> handlers m1 = handlers m"
proof -
  let ?q = "queued x h m" and ?c = "(start_cmd x h m)\<lparr>result_code := RC_NONE\<rparr>"
  have call: "start_call E h (next_addr m) ((world m)\<lparr>sw_done := False\<rparr>) ?c = (w, ?c, e)" by (rule run) simp
  have nd: "\<not> sw_done (world ?q)" by (simp add: queued_def)
  have one: "\<exists>m1. worker_step (start_call E) m' = Some (Return m1) \<and> world m1 = (if e = None then w\<lparr>sw_done := True\<rparr> else w)
      \<and> ready m1 \<and> worker_state m1 = WRan (next_addr m) e \<and> handlers m1 = handlers m'"
    if "worker_state m' = WIdle" "active m'" "work_queue m' = [next_addr m]" "store m' (next_addr m) = Some (start_cmd x h m)"
      "next_addr m' = Suc (next_addr m)" "world m' = (world m)\<lparr>sw_done := False\<rparr>" for m'
    using run_start_cmd [where m = m' and c = "start_cmd x h m" and h = h and E = E and w = w and e = e
        and p = "next_addr m"] that call by (auto split del: if_split)
  have z: "wait_done E 0 m' = None" if "\<not> sw_done (world m')" for m' using that by (simp add: wait_done.simps)
  from put_away [OF rdy, of x h E] show ?thesis
  proof
    assume "worker_state ?q = WIdle"
    then obtain m1 where m1: "worker_step (start_call E) ?q = Some (Return m1)"
      "world m1 = (if e = None then w\<lparr>sw_done := True\<rparr> else w)" "ready m1" "worker_state m1 = WRan (next_addr m) e"
      "handlers m1 = handlers m"
      using one [of ?q] rdy by (auto simp: queued_def ready_def)
    have "\<forall>n. wait_done E (1 + n) ?q = wait_done E n m1" using wait_done_step [OF nd m1(1)] by simp
    then show ?thesis using m1 z [OF nd] by (intro exI [of _ m1] exI [of _ 1]) auto
  next
    assume "\<exists>m1. worker_step (start_call E) ?q = Some (Return m1) \<and> worker_state m1 = WIdle \<and> active m1
      \<and> work_queue m1 = [next_addr m] \<and> next_addr m1 = Suc (next_addr m) \<and> store m1 (next_addr m) = Some (start_cmd x h m)
      \<and> handlers m1 = handlers m \<and> world m1 = (world m)\<lparr>sw_done := False\<rparr>"
    then obtain m1 where m1: "worker_step (start_call E) ?q = Some (Return m1)" "worker_state m1 = WIdle" "active m1"
      "work_queue m1 = [next_addr m]" "next_addr m1 = Suc (next_addr m)" "store m1 (next_addr m) = Some (start_cmd x h m)"
      "handlers m1 = handlers m" "world m1 = (world m)\<lparr>sw_done := False\<rparr>" by blast
    from one [OF m1(2-4,6,5,8)] obtain m2 where m2: "worker_step (start_call E) m1 = Some (Return m2)"
      "world m2 = (if e = None then w\<lparr>sw_done := True\<rparr> else w)" "ready m2" "worker_state m2 = WRan (next_addr m) e"
      "handlers m2 = handlers m" using m1(7) by auto
    have nd1: "\<not> sw_done (world m1)" by (simp add: m1(8))
    have "\<forall>n. wait_done E (2 + n) ?q = wait_done E n m2"
      using wait_done_step [OF nd m1(1)] wait_done_step [OF nd1 m2(1)] by (simp add: numeral_2_eq_2)
    moreover have "\<forall>n < 2. wait_done E n ?q = None"
      using z [OF nd] wait_done_step [OF nd m1(1)] z [OF nd1] by (auto simp: numeral_2_eq_2 less_Suc_eq)
    ultimately show ?thesis using m2 by (intro exI [of _ m2] exI [of _ 2]) auto
  qed
qed

lemma handle_cmd_wait_ok:
  assumes "ready m" and "handlers m (message_type x) = Some h" and "2 \<le> n"
    and "\<And>c. command_data c = \<lparr>arg_msg = x\<rparr> \<Longrightarrow>
      start_call E h (next_addr m) ((world m)\<lparr>sw_done := False\<rparr>) c = (w, c, None)"
  shows "\<exists>m1. handle_cmd_wait E n (Some x) m = Some (Return m1) \<and> world m1 = w\<lparr>sw_done := True\<rparr> \<and> ready m1
    \<and> handlers m1 = handlers m"
proof -
  from start_cmd_reached [where E = E and w = w and e = None, OF assms(1,2,4)] obtain m1 k where
    m1: "k \<le> 2" "\<forall>n. wait_done E (k + n) (queued x h m) = wait_done E n m1" "world m1 = w\<lparr>sw_done := True\<rparr>" "ready m1"
      "handlers m1 = handlers m" by auto
  obtain j where "n = k + j" using m1(1) assms(3) by (metis le_Suc_ex le_trans)
  then have "wait_done E n (queued x h m) = Some (Return m1)" using m1(2,3) by (simp add: wait_done_over)
  then show ?thesis using m1 handle_cmd_wait_eq [OF assms(1,2)] by auto
qed

text \<open>When the handler throws, the flag is never set: the initialising thread waits for ever.\<close>

lemma handle_cmd_wait_blocks:
  assumes "ready m" and "handlers m (message_type x) = Some h"
    and "\<And>c. command_data c = \<lparr>arg_msg = x\<rparr> \<Longrightarrow>
      start_call E h (next_addr m) ((world m)\<lparr>sw_done := False\<rparr>) c = (w, c, Some e)"
    and "\<not> sw_done w"
  shows "handle_cmd_wait E n (Some x) m = None"
proof -
  from start_cmd_reached [where E = E and w = w and e = "Some e", OF assms(1-3)] obtain m1 k where
    m1: "\<forall>n. wait_done E (k + n) (queued x h m) = wait_done E n m1" "\<forall>n < k. wait_done E n (queued x h m) = None"
      "world m1 = w" "ready m1" "worker_state m1 = WRan (next_addr m) (Some e)" by auto
  have blocked: "wait_done E j m1 = None" for j
  proof -
    obtain c where c: "store m1 (next_addr m) = Some c" "discard_result c"
      using m1(4,5) by (auto simp: ready_def split: option.splits)
    then obtain m2 where m2: "worker_step (start_call E) m1 = Some (Return m2)" "world m2 = w" "worker_state m2 = WIdle"
      "work_queue m2 = []"
      using m1(3-5) by (simp add: worker_step_def worker_finish_def user_command_publish_def user_command_code_def
          set_error_def Let_def ready_def)
    have "worker_step (start_call E) m2 = None" using m2 by (simp add: worker_step_def)
    then have "wait_done E i m2 = None" for i using wait_done_blocked m2(2) assms(4) by simp
    then show ?thesis
      using m2(1,2) m1(3) assms(4) by (cases j) (simp_all add: wait_done_step, simp add: wait_done.simps)
  qed
  have "wait_done E n (queued x h m) = None"
    using m1(1,2) blocked by (metis le_Suc_ex not_le)
  then show ?thesis using handle_cmd_wait_eq [OF assms(1,2)] by simp
qed

lemma add_commands_frame [simp]:
  "active (add_commands cs m) = active m" "work_queue (add_commands cs m) = work_queue m"
  "worker_state (add_commands cs m) = worker_state m" "world (add_commands cs m) = world m"
  by (induction cs m rule: add_commands.induct) (simp_all add: add_command_def)

lemma map_of_on_hooks: "map_of (on_hooks f hs) a = map_option f (map_of hs a)"
  by (induction hs) (auto simp: on_hooks_def)

text \<open>The table after all hooks of the game were created.\<close>

definition created_hooks :: "code_buffers \<Rightarrow> u32 list \<Rightarrow> hooks" where
  "created_hooks K tids = fold (\<lambda>h. hook_emplace (yh_address h) (new_hook K tids h)) gg_hooks []"

lemma created_hooks_fresh: "fresh_hooks (created_hooks K tids)"
  by (simp add: fresh_hooks_def created_hooks_def gg_hooks_def new_hook_def hooks_wf_def std_names_def
      all_callbacks_def std_callbacks_def)

lemma gg_hooks_distinct: "distinct (map yh_address gg_hooks)"
  by (simp add: gg_hooks_def)

lemma created_hooks_lookup:
  assumes "y \<in> set gg_hooks"
  shows "map_of (created_hooks K tids) (yh_address y) = Some (new_hook K tids y)"
  using assms by (auto simp: created_hooks_def gg_hooks_def)

section \<open>Properties\<close>


definition hooks_any :: any where
  "hooks_any = \<lparr>type_url = ''type.googleapis.com/ra2yrproto.commands.CreateHooks'', payload = []\<rparr>"

definition callbacks_any :: any where
  "callbacks_any = \<lparr>type_url = ''type.googleapis.com/ra2yrproto.commands.CreateCallbacks'', payload = []\<rparr>"

definition demo_start :: start_env where
  "demo_start =
     \<lparr>se_perms = all_permitted, se_pid = 7, se_buffers = open_buffers, se_io_tids = [3], se_tid = 2,
      se_environment = demo_env, se_time = ''1'', se_pack_hooks = (\<lambda>_ _. Some hooks_any),
      se_unpack_hooks = (\<lambda>_. Some (True, gg_hooks)), se_pack_callbacks = Some callbacks_any,
      se_other = (\<lambda>s w c. (w, c, None))\<rparr>"

definition demo_start_world :: start_world where
  "demo_start_world =
     \<lparr>sw_hooks = \<lparr>hw_hooks = [], hw_mem = (\<lambda>_. 0), hw_threads = []\<rparr>, sw_data = GameDataYR_new, sw_done = False\<rparr>"

definition demo_commands :: "(string \<times> start_fn) list" where
  "demo_commands = all_commands [(''ra2yrproto.commands.CreateHooks'', FnCreateHooks)]
     [(''ra2yrproto.commands.CreateCallbacks'', FnCreateCallbacks)] []"


text \<open>When a hook cannot be created, for instance because the library was loaded twice, the handler throws;
  its callback is not called, and the start never returns.\<close>

lemma startup_blocks_on_error:
  assumes "se_pack_hooks E True gg_hooks = Some x1" "se_unpack_hooks E x1 = Some (True, gg_hooks)"
    and "map_of (rev cmds) (message_type x1) = Some FnCreateHooks"
    and "map_of (hw_hooks (sw_hooks w)) (yh_address (hd gg_hooks)) \<noteq> None"
  shows "make_is E n cmds False w = None"
proof -
  let ?m = "add_commands cmds ((cm_init w)\<lparr>has_worker := True\<rparr>)"
  have "\<exists>e. run_CreateHooks E x1 (w\<lparr>sw_done := False\<rparr>) = (w\<lparr>sw_done := False\<rparr>, Some e)"
    using assms(2,4) by (simp add: run_CreateHooks_def CreateHooks_def create_hook_def gg_hooks_def)
  then obtain e where "start_call E FnCreateHooks (next_addr ?m) ((world ?m)\<lparr>sw_done := False\<rparr>) c =
      (w\<lparr>sw_done := False\<rparr>, c, Some e)" if "command_data c = \<lparr>arg_msg = x1\<rparr>" for c
    by (auto simp: start_call_def cm_init_def)
  moreover have "ready ?m" by (simp add: ready_def cm_init_def)
  moreover have "handlers ?m (message_type x1) = Some FnCreateHooks"
    using assms(3) by (simp add: handlers_add_commands cm_init_def)
  ultimately have "handle_cmd_wait E n (Some x1) ?m = None"
    by (intro handle_cmd_wait_blocks [where h = FnCreateHooks]) auto
  then show ?thesis by (simp add: make_is_def cm_start_def cm_init_def assms(1) Let_def)
qed

text \<open>\<open>initialize\<close> creates one context only; but when the creation throws, the mutex stays locked and the next
  call never returns.\<close>

lemma initialize_once:
  assumes "initialize gc r a b c s = Some (s1, Return ())"
  shows "g_context s1 \<noteq> None \<and> initialize gc' r' a' b' c' s1 = Some (s1, Return ())"
  using assms by (auto simp: initialize_def split: if_splits option.splits outcome.splits)

lemma initialize_failure_locks:
  assumes "initialize gc r a b c s = Some (s1, Raise e)"
  shows "initialize gc' r' a' b' c' s1 = None"
  using assms by (auto simp: initialize_def split: if_splits option.splits outcome.splits)

text \<open>\<open>inject_dll\<close> leaves a process alone in which the library is already loaded, unless forced, and reports
  a process that does not appear before the deadline.\<close>

lemma inject_dll_already_loaded:
  assumes "pid \<noteq> 0" and "can_open_process P pid" and "\<not> io_force opt"
    and "modules pid = Some ms" and "length ms \<le> 1024" and "Some path \<in> set ms"
  shows "inject_dll P asm modules polls pa sc pid path mc prt opt g = (g, Return ())"
proof -
  have "contains path path" by (cases path) simp_all
  moreover have "path \<in> set (List.map_filter (\<lambda>x. x) ms)" using assms(6) by (force simp: map_filter_def)
  ultimately show ?thesis
    using assms by (auto simp: inject_dll_def open_process_def list_loaded_modules_def Let_def)
qed

lemma find_process_first:
  assumes "\<forall>p \<in> set ps. snapshot_pid p name = 0" and "snapshot_pid q name \<noteq> 0"
  shows "find_process (ps @ q # rest) name = snapshot_pid q name"
  using assms
proof (induction ps)
  case Nil
  then show ?case by (cases rest) simp_all
next
  case (Cons p ps)
  then show ?case by (cases "ps @ q # rest") auto
qed

lemma inject_dll_not_found:
  assumes "\<forall>p \<in> set polls. snapshot_pid p (io_process_name opt) = 0"
  shows "inject_dll P asm modules polls pa sc 0 path mc prt opt g =
    (g, Raise (runtime_error (''process '' @ io_process_name opt @ '' not found'')))"
proof -
  have "find_process polls (io_process_name opt) = 0"
    using assms by (induction polls "io_process_name opt" rule: find_process.induct) auto
  then show ?thesis by (simp add: inject_dll_def)
qed

end
