(* ===== verification/Command_Line.thy ===== *)
theory Command_Line
  imports Auto_Poll Auto_Thread Startup
begin

text \<open>
  \<^verbatim>\<open>src/src/ra2yrcppcli/main.cpp\<close>: the command line tool, which ties together the injection (\<open>Startup\<close>), the loader
  (\<open>Dll_Loader\<close>), the reader of recordings (\<open>Protocol\<close>) and the polling client (\<open>Auto_Poll\<close>).

  The values of the parsed arguments are the input. An argument for which the code asks whether it was given is an
  option. The state is the process that is injected into, the files, what was printed, and the world
  of the client; reading a recording may not end, and is \<open>None\<close> then.
\<close>

section \<open>Arguments and surroundings\<close>

text \<open>\<open>arg_record\<close> are the arguments of the subcommand \<open>record\<close>, by the name they are asked for; the argument
  parser throws for a name that was not declared.\<close>

record cli_args =
  arg_port :: u32
  arg_destination :: string
  arg_list_commands :: bool
  arg_name :: "string option"
  arg_args :: string
  arg_game_pid :: "u32 option"
  arg_max_clients :: u32
  arg_force :: bool
  arg_dll_file :: string
  arg_process_name :: string
  arg_delay_post :: duration_t
  arg_delay_pre :: duration_t
  arg_wait :: duration_t
  arg_easy_setup :: bool
  arg_generate_dll_loader :: "string option"
  arg_address_GetProcAddr :: "u32 option"
  arg_address_LoadLibraryA :: "u32 option"
  arg_no_indirect_address :: bool
  arg_record :: "(string \<Rightarrow> string outcome) option"

definition MAX_CLIENTS :: u32 where
  "MAX_CLIENTS = 16"

definition SERVER_PORT :: u32 where
  "SERVER_PORT = 14521"

definition SERVER_ADDRESS :: string where
  "SERVER_ADDRESS = ''127.0.0.1''"

definition DLL_NAME :: string where
  "DLL_NAME = ''libra2yrcpp.dll''"

definition INIT_NAME :: string where
  "INIT_NAME = ''init_iservice''"

text \<open>The values of a command line without arguments.\<close>

definition cli_default_args :: cli_args where
  "cli_default_args =
     \<lparr>arg_port = SERVER_PORT, arg_destination = SERVER_ADDRESS, arg_list_commands = False, arg_name = None, arg_args = [],
      arg_game_pid = None, arg_max_clients = MAX_CLIENTS, arg_force = False, arg_dll_file = DLL_NAME,
      arg_process_name = ''gamemd-spawn.exe'', arg_delay_post = 1, arg_delay_pre = 1, arg_wait = 0, arg_easy_setup = True,
      arg_generate_dll_loader = None, arg_address_GetProcAddr = None, arg_address_LoadLibraryA = None,
      arg_no_indirect_address = True, arg_record = None\<rparr>"

text \<open>The protobuf library, the connections that a client opens to a host and a port, what the other threads do in the rounds
  of the polling thread, and the operating system. \<open>ce_processes\<close> are the processes at the successive looks within a duration;
  the other delays only pass time.\<close>

record ('m, 'w) cli_env =
  ce_lib :: "'m client_lib"
  ce_seconds :: "duration_t \<Rightarrow> string"
  ce_pool :: "string \<Rightarrow> 'm option"
  ce_json :: "string \<Rightarrow> 'm \<Rightarrow> bool \<times> 'm"
  ce_get_args :: "'m \<Rightarrow> 'm"
  ce_set_args :: "'m \<Rightarrow> 'm \<Rightarrow> 'm"
  ce_varint :: "vecu8 \<Rightarrow> (u32 \<times> vecu8) option"
  ce_parse :: "vecu8 \<Rightarrow> 'm \<Rightarrow> bool \<times> 'm"
  ce_message_json :: "'m \<Rightarrow> string"
  ce_response_json :: "Response \<Rightarrow> string"
  ce_file_messages :: "string \<Rightarrow> string list option"
  ce_connect :: "string \<Rightarrow> string \<Rightarrow> 'w connections"
  ce_rounds :: "('w \<Rightarrow> 'w) list"
  ce_perms :: permissions
  ce_assemble :: "instr list \<Rightarrow> vecu8"
  ce_modules :: "u32 \<Rightarrow> string option list option"
  ce_processes :: "duration_t \<Rightarrow> process_snapshot list"
  ce_get_proc_address :: "string \<Rightarrow> u32"
  ce_allocated :: u32

record 'w tool =
  tl_target :: target
  tl_files :: "string \<Rightarrow> vecu8 option"
  tl_out :: "string list"
  tl_err :: "string list"
  tl_world :: 'w

definition println :: "string \<Rightarrow> 'w tool \<Rightarrow> 'w tool" where
  "println s t = t\<lparr>tl_out := tl_out t @ [s]\<rparr>"

definition eprintln :: "string \<Rightarrow> 'w tool \<Rightarrow> 'w tool" where
  "eprintln s t = t\<lparr>tl_err := tl_err t @ [s]\<rparr>"

section \<open>The client of the tool\<close>

definition client_default_options :: client_options where
  "client_default_options = \<lparr>opt_poll_timeout = 1, opt_command_timeout = 1 / 4\<rparr>"

text \<open>\<open>get_client\<close>: the client with its connections to the host; it is a local variable of the caller.\<close>

definition cli_get_client :: "('m, 'w) cli_env \<Rightarrow> string \<Rightarrow> string \<Rightarrow> 'w \<Rightarrow> 'w auto_client \<times> 'w connections" where
  "cli_get_client E host port w = (auto_client_new w, ce_connect E host port)"

text \<open>\<open>send_and_print(send_command(client, name, args))\<close>, on the client and the tool.\<close>

definition cli_send_and_print ::
  "('m, 'w) cli_env \<Rightarrow> 'w connections \<Rightarrow> string \<Rightarrow> string \<Rightarrow> 'w auto_client \<times> 'w tool
     \<Rightarrow> ('w auto_client \<times> 'w tool) \<times> Response outcome"
where
  "cli_send_and_print E C name args u =
     (case cli_send_command (ce_lib E) (ce_seconds E)
             (build_command (ce_pool E) (ce_json E) (ce_get_args E) (ce_set_args E)) C client_default_options (ce_rounds E)
             name args (fst u) of
        (a, Return r) \<Rightarrow> ((a, println (ce_response_json E r) ((snd u)\<lparr>tl_world := ac_world a\<rparr>)), Return r)
      | (a, x) \<Rightarrow> ((a, (snd u)\<lparr>tl_world := ac_world a\<rparr>), x))"

section \<open>The actions\<close>

text \<open>\<open>ce_file_messages\<close> gives the full names of the messages in the file of a message type.\<close>

fun list_commands_of :: "(string \<Rightarrow> string list option) \<Rightarrow> string list \<Rightarrow> 'w tool \<Rightarrow> 'w tool \<times> unit outcome" where
  "list_commands_of pool [] t = (t, Return ())"
| "list_commands_of pool (s # ss) t =
     (case pool s of
        None \<Rightarrow> (t, Raise (runtime_error ''null descriptor''))
      | Some ms \<Rightarrow> list_commands_of pool ss (fold println ms t))"

definition list_commands :: "('m, 'w) cli_env \<Rightarrow> 'w tool \<Rightarrow> 'w tool \<times> unit outcome" where
  "list_commands E =
     list_commands_of (ce_file_messages E)
       [''ra2yrproto.commands.CreateCallbacks'', ''ra2yrproto.commands.GetSystemState'']"

definition get_procaddrs :: "('m, 'w) cli_env \<Rightarrow> ProcAddrs" where
  "get_procaddrs E =
     \<lparr>p_LoadLibrary = ce_get_proc_address E ''LoadLibraryA'', p_GetProcAddress = ce_get_proc_address E ''GetProcAddress''\<rparr>"

text \<open>\<open>inject_dll\<close> with the options that \<open>main\<close> takes from its arguments.\<close>

definition cli_inject :: "('m, 'w) cli_env \<Rightarrow> cli_args \<Rightarrow> u32 \<Rightarrow> 'w tool \<Rightarrow> 'w tool \<times> unit outcome" where
  "cli_inject E A pid t =
     (case inject_dll (ce_perms E) (ce_assemble E) (ce_modules E) 
             (ce_processes E (if arg_wait A > 0 then arg_wait A else MAX_TIMEOUT)) (get_procaddrs E) (ce_allocated E) pid
             (arg_dll_file A) (arg_max_clients A) (arg_port A)
             \<lparr>io_process_name = arg_process_name A, io_force = arg_force A\<rparr> (tl_target t) of
        (g, r) \<Rightarrow> (t\<lparr>tl_target := g\<rparr>, r))"

definition easy_setup :: "('m, 'w) cli_env \<Rightarrow> cli_args \<Rightarrow> 'w tool \<Rightarrow> 'w tool \<times> unit outcome" where
  "easy_setup E A t =
     sbind (cli_inject E A 0 t) (\<lambda>_ t1.
       case cli_get_client E (arg_destination A) (show_nat (unat (arg_port A))) (tl_world t1) of
         (a, C) \<Rightarrow>
           (case cli_commands (\<lambda>s. cli_send_and_print E C s []) INIT_COMMANDS 3 (a, t1) of
              ((_, t2), Return _) \<Rightarrow> (t2, Return ())
            | ((_, t2), Raise e) \<Rightarrow> (t2, Raise e)
            | ((_, t2), Undefined) \<Rightarrow> (t2, Undefined)))"

text \<open>\<open>--name\<close>: every \<open>std::exception\<close> is caught and printed.\<close>

definition cli_run_command :: "('m, 'w) cli_env \<Rightarrow> cli_args \<Rightarrow> string \<Rightarrow> 'w tool \<Rightarrow> 'w tool \<times> int outcome" where
  "cli_run_command E A name t =
     (case cli_get_client E (arg_destination A) (show_nat (unat (arg_port A))) (tl_world t) of
        (a, C) \<Rightarrow>
          (case cli_send_and_print E C name (arg_args A) (a, t) of
             ((_, t1), Return _) \<Rightarrow> (t1, Return 0)
           | ((_, t1), Raise e) \<Rightarrow>
               (eprintln ''use -l to see available commands'' (eprintln (''failed to send command: '' @ what e) t1), Return 0)
           | ((_, t1), Undefined) \<Rightarrow> (t1, Undefined)))"

definition loader_default_options :: loader_options where
  "loader_default_options =
     \<lparr>PA = \<lparr>p_LoadLibrary = 0, p_GetProcAddress = 0\<rparr>, path_dll = DLL_NAME, name_init = INIT_NAME, max_clients = MAX_CLIENTS,
      ld_port = SERVER_PORT, indirect = False, no_init_hooks = False\<rparr>"

text \<open>\<open>--generate-dll-loader\<close>: the addresses are given, or those of this process.\<close>

definition cli_loader_options :: "('m, 'w) cli_env \<Rightarrow> cli_args \<Rightarrow> loader_options" where
  "cli_loader_options E A =
     loader_default_options
       \<lparr>PA := \<lparr>p_LoadLibrary = (case arg_address_LoadLibraryA A of Some p \<Rightarrow> p | None \<Rightarrow> ce_get_proc_address E ''LoadLibraryA''),
              p_GetProcAddress = (case arg_address_GetProcAddr A of Some p \<Rightarrow> p | None \<Rightarrow> ce_get_proc_address E ''GetProcAddress'')\<rparr>,
        indirect := arg_no_indirect_address A\<rparr>"

definition cli_generate :: "('m, 'w) cli_env \<Rightarrow> cli_args \<Rightarrow> string \<Rightarrow> 'w tool \<Rightarrow> 'w tool" where
  "cli_generate E A path t =
     t\<lparr>tl_files := (tl_files t)(path \<mapsto> ce_assemble E (DLLLoader (cli_loader_options E A)))\<rparr>"

text \<open>The subcommand \<open>record\<close>. A file that does not exist is read as an empty one.\<close>

definition cli_dump :: "('m, 'w) cli_env \<Rightarrow> string \<Rightarrow> string \<Rightarrow> 'w tool \<Rightarrow> 'w tool \<times> unit outcome option" where
  "cli_dump E path type_name t =
     (case dump_messages (ce_pool E) (ce_varint E) (ce_parse E) type_name
             (case tl_files t path of Some b \<Rightarrow> b | None \<Rightarrow> []) of
        Some (Return ms) \<Rightarrow> (fold println (map (ce_message_json E) ms) t, Some (Return ()))
      | Some (Raise e) \<Rightarrow> (t, Some (Raise e))
      | Some Undefined \<Rightarrow> (t, Some Undefined)
      | None \<Rightarrow> (t, None))"

definition cli_record :: "('m, 'w) cli_env \<Rightarrow> (string \<Rightarrow> string outcome) \<Rightarrow> 'w tool \<Rightarrow> 'w tool \<times> unit outcome option" where
  "cli_record E get t =
     (case obind (get ''-i'') (\<lambda>input. obind (get ''mode'') (\<lambda>mode. Return (input, mode))) of
        Return (input, mode) \<Rightarrow>
          (if mode = ''record'' then cli_dump E input ''ra2yrproto.ra2yr.GameState'' t
           else if mode = ''traffic'' then cli_dump E input ''ra2yrproto.ra2yr.TunnelPacket'' t
           else (t, Some (Return ())))
      | Raise e \<Rightarrow> (t, Some (Raise e))
      | Undefined \<Rightarrow> (t, Some Undefined))"

section \<open>main\<close>

text \<open>What follows the subcommand; the result is the exit code.\<close>

definition cli_dispatch :: "string \<Rightarrow> ('m, 'w) cli_env \<Rightarrow> cli_args \<Rightarrow> 'w tool \<Rightarrow> 'w tool \<times> int outcome" where
  "cli_dispatch usage E A t =
     (if arg_list_commands A then sbind (list_commands E t) (\<lambda>_ t1. (t1, Return 1))
      else case arg_game_pid A of
        Some pid \<Rightarrow> sbind (cli_inject E A pid t) (\<lambda>_ t1. (t1, Return 0))
      | None \<Rightarrow>
          (case arg_name A of
             Some name \<Rightarrow> cli_run_command E A name t
           | None \<Rightarrow>
               (case arg_generate_dll_loader A of
                  Some path \<Rightarrow> (cli_generate E A path t, Return 0)
                | None \<Rightarrow>
                    if arg_easy_setup A then sbind (easy_setup E A t) (\<lambda>_ t1. (t1, Return 0))
                    else (eprintln usage t, Return 0))))"

definition cli_main :: "string \<Rightarrow> ('m, 'w) cli_env \<Rightarrow> cli_args \<Rightarrow> 'w tool \<Rightarrow> 'w tool \<times> int outcome option" where
  "cli_main usage E A t =
     (case (case arg_record A of None \<Rightarrow> (t, Some (Return ())) | Some get \<Rightarrow> cli_record E get t) of
        (t1, Some (Return _)) \<Rightarrow> (case cli_dispatch usage E A t1 of (t2, r) \<Rightarrow> (t2, Some r))
      | (t1, Some (Raise e)) \<Rightarrow> (t1, Some (Raise e))
      | (t1, Some Undefined) \<Rightarrow> (t1, Some Undefined)
      | (t1, None) \<Rightarrow> (t1, None))"

section \<open>Lemmas\<close>

lemma prints_simps [simp]:
  "tl_world (println s t) = tl_world t" "tl_target (println s t) = tl_target t"
  "tl_world (eprintln s t) = tl_world t" "tl_target (eprintln s t) = tl_target t"
  by (simp_all add: println_def eprintln_def)

lemma fold_println: "fold println ms t = t\<lparr>tl_out := tl_out t @ ms\<rparr>"
  by (induction ms arbitrary: t) (simp_all add: println_def)

text \<open>The client of the tool is not started: a command ends with an exception before anything is sent.\<close>

definition unsent_error :: "('m, 'w) cli_env \<Rightarrow> string \<Rightarrow> exn" where
  "unsent_error E name =
     (case ce_pool E name of
        None \<Rightarrow> runtime_error (''no such message '' @ name)
      | Some _ \<Rightarrow> out_of_range ''map::at'')"

lemma world_new: "ac_world (auto_client_new w) = w"
  by (simp add: auto_client_new_def)

lemma cli_send_and_print_fails:
  "cli_send_and_print E C name args (auto_client_new (tl_world t), t) =
     ((auto_client_new (tl_world t), t), Raise (unsent_error E name))"
  by (cases "ce_pool E name")
    (simp_all add: cli_send_and_print_def cli_client_not_started build_command_def MessageBuilder_def unsent_error_def
      world_new)

text \<open>\<open>list_commands\<close> prints the messages of both files, or fails at the first type that is not in the pool.\<close>

lemma list_commands_prints:
  assumes "ce_file_messages E ''ra2yrproto.commands.CreateCallbacks'' = Some ms"
    and "ce_file_messages E ''ra2yrproto.commands.GetSystemState'' = Some ns"
  shows "list_commands E t = (t\<lparr>tl_out := tl_out t @ ms @ ns\<rparr>, Return ())"
  using assms by (simp add: list_commands_def fold_println)

text \<open>A command that is given by \<open>--name\<close> is never sent. The tool reports the reason, but its exit code is the one of
  success.\<close>

lemma cli_run_command_reports:
  "cli_run_command E A name t =
     (t\<lparr>tl_err := tl_err t @ [''failed to send command: '' @ what (unsent_error E name), ''use -l to see available commands'']\<rparr>,
      Return 0)"
  by (simp add: cli_run_command_def cli_get_client_def cli_send_and_print_fails eprintln_def)

text \<open>The tool without arguments injects the library and then gives up: no initial command is sent, and the exception of the
  client ends the program. When the injection itself fails, its exception does.\<close>

lemma easy_setup_gives_up:
  "easy_setup E A t =
     (case cli_inject E A 0 t of
        (t1, Return _) \<Rightarrow> (t1, Raise (unsent_error E ''ra2yrproto.commands.CreateHooks''))
      | (t1, Raise e) \<Rightarrow> (t1, Raise e)
      | (t1, Undefined) \<Rightarrow> (t1, Undefined))"
proof -
  have "cli_commands (\<lambda>s. cli_send_and_print E C s []) INIT_COMMANDS 3 (auto_client_new (tl_world t1), t1) =
      ((auto_client_new (tl_world t1), t1), Raise (unsent_error E ''ra2yrproto.commands.CreateHooks''))" for C t1
    by (simp add: INIT_COMMANDS_def numeral_3_eq_3 cli_send_and_print_fails)
  then show ?thesis
    by (simp add: easy_setup_def cli_get_client_def sbind_def split: prod.splits outcome.splits)
qed

text \<open>The switch for the set-up has the default true and no value that turns it off; so does every run without another action
  end in the set-up.\<close>

lemma cli_main_default:
  assumes "arg_record A = None" and "\<not> arg_list_commands A" and "arg_game_pid A = None" and "arg_name A = None"
    and "arg_generate_dll_loader A = None" and "arg_easy_setup A"
  shows "snd (cli_main usage E A t) \<noteq> Some (Return c)"
    and "tl_world (fst (cli_main usage E A t)) = tl_world t"
  using assms
  by (auto simp: cli_main_def cli_dispatch_def easy_setup_gives_up cli_inject_def sbind_def split: prod.splits outcome.splits)

lemma cli_main_no_arguments:
  "cli_main usage E cli_default_args t =
     (case cli_inject E cli_default_args 0 t of
        (t1, Return _) \<Rightarrow> (t1, Some (Raise (unsent_error E ''ra2yrproto.commands.CreateHooks'')))
      | (t1, Raise e) \<Rightarrow> (t1, Some (Raise e))
      | (t1, Undefined) \<Rightarrow> (t1, Some Undefined))"
  by (simp add: cli_main_def cli_dispatch_def cli_default_args_def easy_setup_gives_up sbind_def
      split: prod.splits outcome.splits)

text \<open>The loader that the tool writes to a file, with addresses that are not indirect: when it runs in a thread,
  it starts the service with the default number of clients and the default port, whatever \<open>--port\<close> and \<open>--max-clients\<close>
  say, and gives the thread back.\<close>

lemma generated_loader_runs:
  fixes E :: "('m, 'w) cli_env" and A :: cli_args
  assumes "arg_record A = None" and "\<not> arg_list_commands A" and "arg_game_pid A = None" and "arg_name A = None"
    and "arg_generate_dll_loader A = Some path" and "\<not> arg_no_indirect_address A"
  defines "opt \<equiv> cli_loader_options E A"
  assumes "loads_library opt (esp (regs s) - 40) hmod (callee (p_LoadLibrary (PA opt)))"
    and "gets_address opt (esp (regs s) - 40) hmod init_fn (callee (p_GetProcAddress (PA opt)))"
    and "inits_service opt (esp (regs s) - 40) Q (callee init_fn)"
  shows "cli_main usage E A t = (t\<lparr>tl_files := (tl_files t)(path \<mapsto> ce_assemble E (DLLLoader opt))\<rparr>, Some (Return 0))"
    and "let u = exec flag_of ra callee (DLLLoader opt @ [RET]) s
      in eip u = top32 s \<and> regs u = (regs s)\<lparr>esp := esp (regs s) + 4\<rparr> \<and> Q (ram u)"
    and "max_clients opt = MAX_CLIENTS" and "ld_port opt = SERVER_PORT"
proof -
  show "cli_main usage E A t = (t\<lparr>tl_files := (tl_files t)(path \<mapsto> ce_assemble E (DLLLoader opt))\<rparr>, Some (Return 0))"
    using assms(1-5) by (simp add: cli_main_def cli_dispatch_def cli_generate_def opt_def)
  have "\<not> indirect opt" "length (path_dll opt) < 2 ^ 31" "length (name_init opt) < 2 ^ 31"
    using assms(6) by (simp_all add: opt_def cli_loader_options_def loader_default_options_def DLL_NAME_def INIT_NAME_def)
  then show "let u = exec flag_of ra callee (DLLLoader opt @ [RET]) s
      in eip u = top32 s \<and> regs u = (regs s)\<lparr>esp := esp (regs s) + 4\<rparr> \<and> Q (ram u)"
    using DLLLoader_restores [of opt s hmod callee init_fn Q flag_of ra] assms(8-10) by blast
  show "max_clients opt = MAX_CLIENTS" and "ld_port opt = SERVER_PORT"
    by (simp_all add: opt_def cli_loader_options_def loader_default_options_def)
qed

text \<open>The subcommand \<open>record\<close> asks for an argument under a name that was not declared. As the parser throws for such a name,
  the tool ends before it opens the recording.\<close>

lemma record_never_reads:
  assumes "arg_record A = Some get" and "get ''-i'' = Raise e"
  shows "cli_main usage E A t = (t, Some (Raise e))"
  using assms by (simp add: cli_main_def cli_record_def)

text \<open>With a parser that knows the name, the recording is printed, and then the tool goes on as if there was no
  subcommand: it injects the library.\<close>

lemma record_falls_through:
  assumes "\<And>n rest. ce_varint E (varint n @ rest) = Some (n, rest)" and "ce_varint E [] = None"
    and "\<And>m old. m \<in> set ms \<Longrightarrow> ce_parse E (enc m) old = (True, m)"
    and "\<And>m. m \<in> set ms \<Longrightarrow> size_of m = length (enc m) \<and> length (enc m) < 2 ^ 32"
    and "ce_pool E ''ra2yrproto.ra2yr.GameState'' = Some fresh"
    and "arg_record A = Some get" and "get ''-i'' = Return input" and "get ''mode'' = Return ''record''"
    and "tl_files t input = Some (concat (map (\<lambda>m. varint (of_nat (size_of m)) @ enc m) ms))"
  shows "cli_main usage E A t =
    (case cli_dispatch usage E A (t\<lparr>tl_out := tl_out t @ map (ce_message_json E) (ms @ [last (fresh # ms)])\<rparr>) of
       (t1, r) \<Rightarrow> (t1, Some r))"
proof -
  have "dump_loop (mi_read (ce_varint E) (ce_parse E)) fresh
      \<lparr>is_data = Some (concat (map (\<lambda>m. varint (of_nat (size_of m)) @ enc m) ms)), is_gzip = True\<rparr>
    = Some (ms @ [last (fresh # ms)])"
    by (rule dump_written [OF assms(1-4)]) simp_all
  then show ?thesis
    using assms(5-9)
    by (simp add: cli_main_def cli_record_def cli_dump_def dump_messages_def MessageBuilder_def fold_println println_def)
qed

end
