(* ===== verification/Spec2Isabelle.thy ===== *)
theory Spec2Isabelle
  imports Command_Properties Instrumentation_Service Game_Commands Save_State Is_Command Single_Step
    Game_Calls Builtin_Commands Add_Section Service_Server Service_Lifetime Io_Service End_To_End
    Command_Line
begin

text \<open>
  \<^bold>\<open>A verification library for ra2yrcpp.\<close>

  \<^medskip>\<^bold>\<open>The program.\<close>
  ra2yrcpp is a library that is injected into the process of a game. It patches the code of the game
  (hooks), runs callbacks there that copy the state of the game into protocol messages and carry out
  orders, and serves clients over a WebSocket: a client sends commands, a worker thread of the service
  runs them, and the client polls their results. The way of one command through the program is

  \<^item> client: \<open>AutoPollClient::send_command\<close> (\<open>multi_client.cpp\<close>) sends a request over a
    \<open>ClientWebsocketConnection\<close> and waits until its polling thread has put the result into an \<open>AsyncMap\<close>;
  \<^item> transport: \<open>WebsocketServer\<close> (\<open>websocket_server.cpp\<close>) gives each message to the executor of its
    connection, a \<open>worker_util\<close> (\<open>auto_thread.hpp\<close>), and posts replies back to the io thread;
  \<^item> service: \<open>InstrumentationService\<close> (\<open>instrumentation_service.cpp\<close>) parses the request and calls the
    \<open>CommandManager\<close> (\<open>command/command_manager.hpp\<close>): \<open>enqueue_command\<close> for a command,
    \<open>flush_results\<close> for a poll;
  \<^item> worker: the thread of the manager takes the command from a priority queue and runs its handler, which
    is wrapped by \<open>ISCommand\<close> (\<open>command/is_command.hpp\<close>); a handler may hand a work item to the game
    thread (\<open>async\<close>), which finishes the command in the callback \<open>CBGameCommand\<close> (\<open>hooks_yr.hpp\<close>);
  \<^item> game thread: a \<open>Hook\<close> (\<open>hook.cpp\<close>) calls the callbacks of a frame, which parse the state of the game
    (\<open>ra2/state_parser.cpp\<close>) and use \<open>StateContext\<close> (\<open>ra2/state_context.cpp\<close>) to add events.

  \<^medskip>\<^bold>\<open>Conventions of the model.\<close>
  The theory \<open>Prelude\<close> fixes them. Machine integers are words (\<open>u8\<close>, \<open>u32\<close>, \<open>u64\<close>); signed arithmetic of
  the source is \<open>int\<close> with \<open>i32\<close>, which is \<open>Undefined\<close> on overflow. A function that may fail
  returns an \<open>outcome\<close>: \<open>Return x\<close>, \<open>Raise e\<close> for a C++ exception \<open>e\<close> with its class and message, or
  \<open>Undefined\<close> for undefined behaviour (a null or dangling pointer, an index out of range).
  \<open>obind\<close> sequences outcomes, \<open>sbind\<close> threads a state through them and keeps the state at the time of
  an exception. A wait that may not end gives \<open>None\<close>. Pointers that are shared between threads
  (commands) are addresses in a store.

  Threads are interleaved in one of two ways. Where all threads are threads of the program, a step
  relation has one rule per critical section: \<open>cm_step\<close> (\<open>Command_Steps\<close>), \<open>ws_step\<close>
  (\<open>Websocket_Server\<close>), \<open>game_at\<close> and \<open>request_at\<close> (\<open>Single_Step\<close>), \<open>poll_thread_step\<close> and
  \<open>shutdown_step\<close> (\<open>Auto_Poll\<close>), \<open>life_step\<close> (\<open>Service_Lifetime\<close>), \<open>io_step\<close> (\<open>Io_Service\<close>). Where one operation waits for other threads, what they do meanwhile is
  an argument (\<open>env\<close>, a list of arrivals or of thread snapshots), over which the theorems quantify.

  Code outside the repository is a parameter: the protobuf library (\<open>pack\<close>, \<open>unpack_poll\<close>,
  \<open>client_lib\<close>, \<open>service_lib\<close>, \<open>codec\<close>), websocketpp and asio (\<open>ws_env\<close> and a trace of calls), the
  operating system (\<open>permissions\<close>, \<open>can_write\<close>), the functions and classes of the game (\<open>game_abi\<close>,
  records of the fields that are read). What a theorem needs of a parameter is one of its hypotheses, and
  its witness instantiates the parameter by a concrete function.

  \<^medskip>\<^bold>\<open>Theories, in the order of their imports.\<close>

  \<^item> \<^bold>\<open>Prelude\<close> - \<open>types.h\<close>, \<open>errors.cpp\<close>: integers, exceptions, outcomes, byte and list lemmas, the
    collections \<open>model_defs\<close> and \<open>frame\<close>.
  \<^item> \<^bold>\<open>Ring_Buffer, Async_Queue\<close> - \<open>ring_buffer.hpp\<close>, \<open>async_queue.hpp\<close>: the bounded buffer and the blocking
    queue over a container. The locale \<open>queue_container\<close> states what \<open>AsyncQueue\<close> needs of its container;
    \<open>push\<close> and \<open>pop\<close> are proved against a list specification once, and it is interpreted for
    \<open>std::queue\<close> (\<open>fifo\<close>) and \<open>RingBuffer\<close> (\<open>lifo\<close>).
  \<^item> \<^bold>\<open>Work_Queue\<close> - \<open>std::priority_queue\<close> as a binary heap in a vector. The locale \<open>priority_work_queue\<close> is the
    contract the manager relies on; the heap interprets it (\<open>heap_wq\<close>).
  \<^item> \<^bold>\<open>Command_Manager, Command_Steps, Command_Properties\<close> - \<open>command/command_manager.hpp\<close>: one definition per
    method; the well-formedness invariant \<open>cm_wf\<close> and its preservation by every step of every thread; no
    command runs twice, the queue is drained, results arrive at the queue of their client, polling returns
    the finished commands, the worker ends after \<open>SHUTDOWN\<close>; the races of queue destruction.
  \<^item> \<^bold>\<open>Protocol\<close> - \<open>protocol/\<close>, \<open>util_string.cpp\<close>: \<open>Any\<close> values, responses, \<open>MessageBuilder\<close>, streams of
    messages; a recording is read back as the messages that were written.
  \<^item> \<^bold>\<open>Instrumentation_Service\<close> - requests from received bytes to reply bytes: every request is answered, also a
    malformed one, and a polled result is the one of the handler.
  \<^item> \<^bold>\<open>Is_Command\<close> - the wrapper of the handlers and asynchronous commands.
  \<^item> \<^bold>\<open>X86_Code, Hook, Game_ABI\<close> - \<open>x86.cpp\<close>, \<open>hook.cpp\<close>, \<open>ra2/abi.hpp\<close>: generated instructions with an
    interpreter for them; detours do not change what the game computes, installation and removal are inverse,
    the thunks follow the calling conventions.
  \<^item> \<^bold>\<open>Game_Calls\<close> - \<open>ra2/abi.hpp\<close>, \<open>ra2/abi.cpp\<close>: the table of callers with its cache of
    thunks; a call through it runs the function of the game with the arguments of the source, except that
    the thunk of a virtual function drops them (\<open>virtual_arguments_lost\<close>).
  \<^item> \<^bold>\<open>Game_State, Class_Parser, Event_List, Map_Parser\<close> - \<open>ra2/state_parser.cpp\<close>, \<open>ra2/event_list.cpp\<close>: messages
    and parsers. The locales \<open>message_parser\<close> and \<open>overwriting_parser\<close> state when a parser that reuses a message
    gives a result that does not depend on its old content; they are interpreted for houses, factories
    and type classes, and objects are shown not to satisfy it.
  \<^item> \<^bold>\<open>State_Context, Game_Commands\<close> - \<open>ra2/state_context.cpp\<close>, \<open>commands_game.cpp\<close>, \<open>commands_yr.cpp\<close>:
    queries, the cache of type classes, events, the orders of a player.
  \<^item> \<^bold>\<open>Callbacks, Save_State, Single_Step\<close> - \<open>hooks_yr.cpp\<close>: the hook table, attaching and detaching callbacks,
    the saved state of a frame, and the handshake of single-step mode.
  \<^item> \<^bold>\<open>Builtin_Commands\<close> - \<open>commands_builtin.cpp\<close>: the storage of the service, \<open>CreateHooks\<close> and others.
  \<^item> \<^bold>\<open>Dll_Loader, Injection, Add_Section\<close> - \<open>is_context.cpp\<close>, \<open>process.cpp\<close>, \<open>dll_inject.cpp\<close>,
    \<open>addscn/addscn.cpp\<close>: the injected loader, suspension and injection, the tool that appends a section.
  \<^item> \<^bold>\<open>Windows_Process\<close> - \<open>process.cpp\<close>, \<open>win32/windows_utils.cpp\<close>: thread contexts, lists of processes,
    threads and modules, access to the memory of a process.
  \<^item> \<^bold>\<open>Auto_Thread, Websocket_Server\<close> - \<open>auto_thread.hpp\<close>, \<open>websocket_server.cpp\<close>, \<open>asio_utils.cpp\<close>: the executors
    and the server; a client that waits for each reply gets the reply to its request, and two schedules
    in which the server stops.
  \<^item> \<^bold>\<open>Websocket_Liveness, Service_Server, Service_Lifetime\<close> - the locale \<open>callback_contract\<close> states what the
    server needs of its callbacks so that every request completes; the callbacks of
    \<open>InstrumentationService\<close> interpret it (\<open>service_cb\<close>). \<open>Service_Lifetime\<close> has the objects that \<open>Context\<close>
    owns and the orders in which they are shut down and destroyed.
  \<^item> \<^bold>\<open>Io_Service\<close> - \<open>asio_utils.cpp\<close>: posted functions run once and in order, a call that waits for its function returns
    after it and never before, the destructor ends, and a call after it does not.
  \<^item> \<^bold>\<open>Client, Auto_Poll\<close> - \<open>async_map.hpp\<close>, \<open>instrumentation_client.cpp\<close>, \<open>websocket_connection.cpp\<close>,
    \<open>client_utils.hpp\<close>, \<open>multi_client.cpp\<close>, \<open>ra2yrcppcli/\<close>: connections, the polling client and the tool.
  \<^item> \<^bold>\<open>End_To_End\<close> - client and service composed: \<open>send_command\<close> returns the result of the handler.
  \<^item> \<^bold>\<open>Startup\<close> - \<open>is_context.cpp\<close>, \<open>yrclient_dll.cpp\<close>: creation of the service inside the game, which runs
    \<open>CreateHooks\<close> and \<open>CreateCallbacks\<close> through the manager.
  \<^item> \<^bold>\<open>Command_Line\<close> - \<open>ra2yrcppcli/main.cpp\<close>: the actions of the tool on top of the injection, the loader, the reader
    of recordings and the client; the generated loader works, commands are never sent, and a recording is
    never read.

  \<^medskip>\<^bold>\<open>Loops, bounds and fuel.\<close>
  Loops over data are structural recursion; \<open>hook_loop\<close> and the heap operations have a measure.
  \<open>aq_pop_loop\<close> and \<open>dump_loop\<close> are partial functions into \<open>option\<close>, because the first may run for ever:
  \<open>pop\<close> of a result queue is proved to return (\<open>flush_returns_finished\<close>), and the case in which it does not
  is \<open>pop_rejecting_diverges\<close>. The worker thread is run by \<open>cm_step\<close> or by a number of steps, and the
  liveness theorems say how many are enough: two for each queued command (pick and finish). The waits of the
  hook code read a list of observations; the theorems say what happens at the first good one.
  The client's retry count (\<open>poll_tries\<close>), the queue limits of the executors and the timeouts are those of
  the source. Durations are exact rationals in place of \<open>double\<close>.

  \<^medskip>\<^bold>\<open>Not modelled.\<close>
  Logging and formatting of numbers other than those that end up in messages; the functions of
  \<open>win32/\<close> that only forward their arguments to the operating system, \<open>ExProcess\<close> and the message boxes; the
  template utilities (\<open>scope_guard\<close>, \<open>function_traits\<close>, \<open>serialize\<close>), which have no logic of their own;
  \<open>ra2/yrpp_export.cpp\<close> as far as it binds the classes of the game; the parsing of the
  arguments of the tools; \<open>AsioSocket\<close> and the set-up of websocketpp; \<open>CBDebugPrint\<close>, which prints a string that
  the game formats.
\<close>

end
